(* ===== verification/Prelude.thy ===== *)
theory Prelude
  imports Main "HOL-Library.Word" "HOL-Library.Sublist"
begin

text \<open>
  What every component of the development shares: the result type of fallible Rust code, the
  machine integers and byte strings the code computes with, and the string operations of the Rust
  standard library that the source calls (\<open>splitn\<close>, \<open>contains\<close>, \<open>ends_with\<close>, \<open>join\<close>, integer
  formatting, UTF-8 validity), with the lemmas about them.

  A Rust \<open>String\<close>, \<open>&str\<close>, \<open>PathBuf\<close> or byte buffer is a list of bytes; a HOL \<open>char\<close> is
  exactly one byte, so all of them are \<open>string\<close> here.
\<close>

named_theorems step_simps \<open>unfolding rules of the program's operations\<close>

section \<open>Results and machine integers\<close>

text \<open>
  The outcome of fallible code: the two constructors of Rust's \<open>Result\<close>, and a panic
  (\<open>expect\<close>, \<open>unwrap\<close>, an out-of-range index) with its message. The release profile of the workspace
  aborts the process on a panic, so there nothing follows a \<open>Panic\<close>; where the model goes on after
  one (the worker's task, \<open>shutdown\<close>), it says what an unwinding build does.
\<close>

datatype ('e, 'a) result = Ok 'a | Err 'e | Panic string

type_synonym usize = "64 word"
type_synonym bytes = string

fun is_ok :: "('e, 'a) result \<Rightarrow> bool" where
  "is_ok (Ok _) = True"
| "is_ok _ = False"

fun map_err :: "('e \<Rightarrow> 'f) \<Rightarrow> ('e, 'a) result \<Rightarrow> ('f, 'a) result" where
  "map_err f (Ok a) = Ok a"
| "map_err f (Err e) = Err (f e)"
| "map_err f (Panic p) = Panic p"

fun result_of_sum :: "'e + 'a \<Rightarrow> ('e, 'a) result" where
  "result_of_sum (Inl e) = Err e"
| "result_of_sum (Inr a) = Ok a"

text \<open>\<open>option.ok_or(e)\<close>.\<close>

definition ok_or :: "'a option \<Rightarrow> 'e \<Rightarrow> ('e, 'a) result" where
  "ok_or x e = (case x of None \<Rightarrow> Err e | Some a \<Rightarrow> Ok a)"

lemma map_err_simps [simp]:
  "map_err f r = Ok a \<longleftrightarrow> r = Ok a"
  "map_err f r = Panic p \<longleftrightarrow> r = Panic p"
  "is_ok (map_err f r) = is_ok r"
  by (cases r; simp)+

lemma map_err_eq_Err [simp]: "map_err f r = Err e \<longleftrightarrow> (\<exists>e'. r = Err e' \<and> e = f e')"
  by (cases r) auto

lemma result_of_sum_simps [simp]:
  "result_of_sum x = Ok a \<longleftrightarrow> x = Inr a"
  "result_of_sum x = Err e \<longleftrightarrow> x = Inl e"
  "result_of_sum x \<noteq> Panic p"
  by (cases x; auto)+

text \<open>Collecting an iterator of results into \<open>Result<Vec<_>>\<close>: the first error wins.\<close>

fun collect_results :: "('e, 'a) result list \<Rightarrow> ('e, 'a list) result" where
  "collect_results [] = Ok []"
| "collect_results (Ok a # rs) =
     (case collect_results rs of Ok as \<Rightarrow> Ok (a # as) | Err e \<Rightarrow> Err e | Panic p \<Rightarrow> Panic p)"
| "collect_results (Err e # rs) = Err e"
| "collect_results (Panic p # rs) = Panic p"

lemma collect_results_map_Ok [simp]: "collect_results (map (\<lambda>x. Ok (f x)) xs) = Ok (map f xs)"
  by (induction xs) auto

lemma collect_results_OkD: "collect_results rs = Ok as \<Longrightarrow> rs = map Ok as"
  by (induction rs arbitrary: as rule: collect_results.induct) (auto split: result.splits)

lemma collect_results_Ok_iff: "collect_results rs = Ok as \<longleftrightarrow> rs = map Ok as"
  using collect_results_OkD [of rs as] collect_results_map_Ok [of "\<lambda>x. x" as] by auto

section \<open>Strings of the Rust standard library\<close>

text \<open>\<open>s.splitn(2, c)\<close>: at most one split, at the first occurrence of \<open>c\<close>.\<close>

fun splitn2 :: "'a \<Rightarrow> 'a list \<Rightarrow> 'a list list" where
  "splitn2 c s =
     (if c \<in> set s then [takeWhile (\<lambda>x. x \<noteq> c) s, tl (dropWhile (\<lambda>x. x \<noteq> c) s)] else [s])"

declare splitn2.simps [simp del]

lemma splitn2_append:
  "c \<notin> set a \<Longrightarrow> splitn2 c (a @ c # b) = [a, b]"
  by (auto simp: splitn2.simps takeWhile_append dropWhile_append)

lemma splitn2_no_sep: "c \<notin> set a \<Longrightarrow> splitn2 c a = [a]"
  by (simp add: splitn2.simps)

lemma splitn2_Cons2:
  assumes "splitn2 c s = [a, b]"
  shows "s = a @ c # b \<and> c \<notin> set a"
proof -
  from assms have c: "c \<in> set s" and a: "a = takeWhile (\<lambda>x. x \<noteq> c) s"
    and b: "b = tl (dropWhile (\<lambda>x. x \<noteq> c) s)"
    by (auto simp: splitn2.simps split: if_splits)
  from c obtain xs ys where s: "s = xs @ c # ys" and "c \<notin> set xs"
    by (meson split_list_first)
  then have "a = xs" and "b = ys"
    by (auto simp: a b takeWhile_append dropWhile_append)
  with s \<open>c \<notin> set xs\<close> show ?thesis by simp
qed

lemma splitn2_cases: "splitn2 c s = [s] \<or> (\<exists>a b. splitn2 c s = [a, b])"
  by (simp add: splitn2.simps)

lemma splitn2_not_Nil [simp]: "splitn2 c s \<noteq> []" "splitn2 c s \<noteq> a # b # d # e"
  by (auto simp: splitn2.simps)

text \<open>\<open>s.contains(p)\<close>.\<close>

fun contains_str :: "'a list \<Rightarrow> 'a list \<Rightarrow> bool" where
  "contains_str [] p = (p = [])"
| "contains_str (x # xs) p = (take (length p) (x # xs) = p \<or> contains_str xs p)"

lemma contains_str_iff: "contains_str s p \<longleftrightarrow> (\<exists>a b. s = a @ p @ b)"
proof (induction s)
  case Nil
  show ?case by auto
next
  case (Cons x xs)
  show ?case
  proof
    assume "contains_str (x # xs) p"
    then consider "take (length p) (x # xs) = p" | "contains_str xs p" by auto
    then show "\<exists>a b. x # xs = a @ p @ b"
    proof cases
      case 1
      then have "x # xs = [] @ p @ drop (length p) (x # xs)"
        by (metis append_Nil append_take_drop_id)
      then show ?thesis by blast
    next
      case 2
      with Cons.IH obtain a b where "xs = a @ p @ b" by auto
      then have "x # xs = (x # a) @ p @ b" by simp
      then show ?thesis by blast
    qed
  next
    assume "\<exists>a b. x # xs = a @ p @ b"
    then obtain a b where ab: "x # xs = a @ p @ b" by blast
    show "contains_str (x # xs) p"
    proof (cases a)
      case Nil
      with ab have "take (length p) (x # xs) = p" by simp
      then show ?thesis by simp
    next
      case (Cons y ys)
      with ab have "xs = ys @ p @ b" by simp
      then show ?thesis using \<open>contains_str xs p = _\<close> by auto
    qed
  qed
qed

text \<open>\<open>s.ends_with(c)\<close> for a one-byte suffix.\<close>

definition ends_with_char :: "string \<Rightarrow> char \<Rightarrow> bool" where
  "ends_with_char s c = (s \<noteq> [] \<and> last s = c)"

text \<open>Joining with a separator, as \<open>slice.join(sep)\<close> does.\<close>

fun join :: "'a list \<Rightarrow> 'a list list \<Rightarrow> 'a list" where
  "join sep [] = []"
| "join sep [x] = x"
| "join sep (x # y # ys) = x @ sep @ join sep (y # ys)"

text \<open>Decimal formatting of an unsigned integer, and of a signed one.\<close>

definition digit_char :: "nat \<Rightarrow> char" where
  "digit_char d = char_of (48 + d)"

fun dec_nat :: "nat \<Rightarrow> string" where
  "dec_nat n = (if n < 10 then [digit_char n] else dec_nat (n div 10) @ [digit_char (n mod 10)])"

declare dec_nat.simps [simp del]

definition dec_usize :: "usize \<Rightarrow> string" where
  "dec_usize w = dec_nat (unat w)"

definition dec_i64 :: "64 word \<Rightarrow> string" where
  "dec_i64 w = (if sint w < 0 then CHR ''-'' # dec_nat (nat (- sint w)) else dec_nat (nat (sint w)))"

text \<open>\<open>str::from_utf8\<close> / \<open>OsStr::to_str\<close>: whether a byte string is well-formed UTF-8.\<close>

definition utf8_cont :: "nat \<Rightarrow> bool" where
  "utf8_cont b = (128 \<le> b \<and> b \<le> 191)"

fun utf8_ok :: "nat list \<Rightarrow> bool" where
  "utf8_ok [] = True"
| "utf8_ok (a # bs) =
     (if a < 128 then utf8_ok bs
      else if 194 \<le> a \<and> a \<le> 223 then
        (case bs of b # r \<Rightarrow> utf8_cont b \<and> utf8_ok r | _ \<Rightarrow> False)
      else if 224 \<le> a \<and> a \<le> 239 then
        (case bs of b # c # r \<Rightarrow>
           (if a = 224 then 160 else 128) \<le> b \<and> b \<le> (if a = 237 then 159 else 191)
           \<and> utf8_cont c \<and> utf8_ok r | _ \<Rightarrow> False)
      else if 240 \<le> a \<and> a \<le> 244 then
        (case bs of b # c # d # r \<Rightarrow>
           (if a = 240 then 144 else 128) \<le> b \<and> b \<le> (if a = 244 then 143 else 191)
           \<and> utf8_cont c \<and> utf8_cont d \<and> utf8_ok r | _ \<Rightarrow> False)
      else False)"

definition utf8_valid :: "bytes \<Rightarrow> bool" where
  "utf8_valid s = utf8_ok (map of_char s)"

definition to_str :: "bytes \<Rightarrow> string option" where
  "to_str s = (if utf8_valid s then Some s else None)"

lemma utf8_ok_ascii: "\<forall>b \<in> set bs. b < 128 \<Longrightarrow> utf8_ok bs"
  by (induction bs) auto

lemma utf8_valid_ascii: "\<forall>c \<in> set s. of_char c < (128::nat) \<Longrightarrow> utf8_valid s"
  by (simp add: utf8_valid_def utf8_ok_ascii)

section \<open>Decimal numerals\<close>

lemma digit_char_inj: "a < 10 \<Longrightarrow> b < 10 \<Longrightarrow> digit_char a = digit_char b \<Longrightarrow> a = b"
proof -
  assume "a < 10" "b < 10" "digit_char a = digit_char b"
  then have "(of_char (char_of (48 + a) :: char) :: nat) = of_char (char_of (48 + b) :: char)"
    by (simp add: digit_char_def)
  with \<open>a < 10\<close> \<open>b < 10\<close> show "a = b" by simp
qed

lemma dec_nat_not_Nil [simp]: "dec_nat n \<noteq> []" "[] \<noteq> dec_nat n"
  by (subst dec_nat.simps, simp)+

lemma set_dec_nat: "set (dec_nat n) \<subseteq> digit_char ` {..<10}"
proof (induction n rule: dec_nat.induct)
  case (1 n)
  show ?case
  proof (cases "n < 10")
    case True
    then show ?thesis by (subst dec_nat.simps) auto
  next
    case False
    with "1.IH" have "set (dec_nat (n div 10)) \<subseteq> digit_char ` {..<10}" by simp
    with False show ?thesis by (subst dec_nat.simps) auto
  qed
qed

lemma dec_nat_no_separator:
  assumes "of_char c < (48::nat) \<or> 58 \<le> (of_char c :: nat)"
  shows "c \<notin> set (dec_nat n)"
proof
  assume "c \<in> set (dec_nat n)"
  then obtain d where "d < 10" and c: "c = digit_char d"
    using set_dec_nat by fastforce
  then have "(of_char c :: nat) = 48 + d"
    by (simp add: digit_char_def)
  with assms \<open>d < 10\<close> show False by simp
qed

lemma dec_nat_inj: "dec_nat m = dec_nat n \<Longrightarrow> m = n"
proof (induction m arbitrary: n rule: dec_nat.induct)
  case (1 m)
  show ?case
  proof (cases "m < 10")
    case True
    show ?thesis
    proof (cases "n < 10")
      case True
      with \<open>m < 10\<close> "1.prems" show ?thesis
        by (auto simp: dec_nat.simps [of m] dec_nat.simps [of n] dest: digit_char_inj)
    next
      case False
      with \<open>m < 10\<close> "1.prems" show ?thesis
        by (auto simp: dec_nat.simps [of m] dec_nat.simps [of n] dest: sym)
    qed
  next
    case False
    show ?thesis
    proof (cases "n < 10")
      case True
      with False "1.prems" show ?thesis
        by (simp add: dec_nat.simps [of m] dec_nat.simps [of n])
    next
      case n: False
      from False n "1.prems" have "dec_nat (m div 10) = dec_nat (n div 10)"
        and "digit_char (m mod 10) = digit_char (n mod 10)"
        by (simp_all add: dec_nat.simps [of m] dec_nat.simps [of n])
      from \<open>dec_nat (m div 10) = _\<close> have "m div 10 = n div 10"
        by (rule "1.IH" [OF False])
      moreover have "m mod 10 = n mod 10"
        using \<open>digit_char (m mod 10) = _\<close> by (intro digit_char_inj) simp_all
      ultimately show ?thesis by (metis mult_div_mod_eq)
    qed
  qed
qed

lemma dec_usize_inj: "dec_usize a = dec_usize b \<Longrightarrow> a = b"
  unfolding dec_usize_def by (drule dec_nat_inj) (simp add: word_unat_eq_iff)

end
