(* ===== verification/Effects.thy ===== *)
theory Effects
  imports Prelude
begin

text \<open>
  Effectful operations. An \<open>async fn\<close> that reads and writes shared state is a function from the
  state to its outcome and the next state. \<open>and_then\<close> is the \<open>?\<close> operator after \<open>.await\<close>: the rest of
  the body runs only on \<open>Ok\<close>; on an error or a panic the state reached so far is kept.

  The locale \<open>evolution\<close> is the contract that the operations of one component share: each of them
  moves the state along a preorder \<open>R\<close>. Its lemmas lift the contract through sequencing, error
  mapping and loops, so that a component proves it once for its primitive steps.
\<close>

type_synonym ('s, 'e, 'a) comp = "'s \<Rightarrow> ('e, 'a) result \<times> 's"

definition return_ok :: "'a \<Rightarrow> ('s, 'e, 'a) comp" where
  "return_ok a s = (Ok a, s)"

definition throw :: "'e \<Rightarrow> ('s, 'e, 'a) comp" where
  "throw e s = (Err e, s)"

definition lift_result :: "('e, 'a) result \<Rightarrow> ('s, 'e, 'a) comp" where
  "lift_result r s = (r, s)"

definition modify :: "('s \<Rightarrow> 's) \<Rightarrow> ('s, 'e, unit) comp" where
  "modify f s = (Ok (), f s)"

definition and_then :: "('s, 'e, 'a) comp \<Rightarrow> ('a \<Rightarrow> ('s, 'e, 'b) comp) \<Rightarrow> ('s, 'e, 'b) comp" where
  "and_then m f s =
     (case m s of
        (Ok a, s') \<Rightarrow> f a s'
      | (Err e, s') \<Rightarrow> (Err e, s')
      | (Panic p, s') \<Rightarrow> (Panic p, s'))"

text \<open>\<open>m.await.map_err(g)\<close> and \<open>m.await.inspect_err(h)\<close>, where \<open>h\<close> changes the state.\<close>

definition map_err_comp :: "('e \<Rightarrow> 'f) \<Rightarrow> ('s, 'e, 'a) comp \<Rightarrow> ('s, 'f, 'a) comp" where
  "map_err_comp g m s = (case m s of (r, s') \<Rightarrow> (map_err g r, s'))"

definition inspect_err :: "('e \<Rightarrow> 's \<Rightarrow> 's) \<Rightarrow> ('s, 'e, 'a) comp \<Rightarrow> ('s, 'e, 'a) comp" where
  "inspect_err h m s = (case m s of (Err e, s') \<Rightarrow> (Err e, h e s') | (r, s') \<Rightarrow> (r, s'))"

lemmas comp_defs = return_ok_def throw_def lift_result_def modify_def and_then_def
  map_err_comp_def inspect_err_def

lemma and_then_cases:
  assumes "and_then m f s = (r, t)"
  obtains (cont) a s' where "m s = (Ok a, s')" and "f a s' = (r, t)"
  | (error) e where "m s = (Err e, t)" and "r = Err e"
  | (panic) p where "m s = (Panic p, t)" and "r = Panic p"
  using assms by (auto simp: and_then_def split: prod.splits result.splits)

lemma and_then_OkD:
  "and_then m f s = (Ok b, t) \<Longrightarrow> \<exists>a s'. m s = (Ok a, s') \<and> f a s' = (Ok b, t)"
  by (auto simp: and_then_def split: prod.splits result.splits)

lemma return_ok_simp [simp]: "return_ok a s = (Ok a, s)" by (simp add: return_ok_def)
lemma throw_simp [simp]: "throw e s = (Err e, s)" by (simp add: throw_def)
lemma lift_result_simp [simp]: "lift_result r s = (r, s)" by (simp add: lift_result_def)
lemma modify_simp [simp]: "modify f s = (Ok (), f s)" by (simp add: modify_def)

lemma and_then_Ok [simp]: "m s = (Ok a, s') \<Longrightarrow> and_then m f s = f a s'"
  by (simp add: and_then_def)

lemma and_then_Err [simp]: "m s = (Err e, s') \<Longrightarrow> and_then m f s = (Err e, s')"
  by (simp add: and_then_def)

lemma and_then_Panic [simp]: "m s = (Panic p, s') \<Longrightarrow> and_then m f s = (Panic p, s')"
  by (simp add: and_then_def)

lemma and_then_assoc: "and_then (and_then m f) g = and_then m (\<lambda>x. and_then (f x) g)"
  by (rule ext) (simp add: and_then_def split: prod.split result.split)

section \<open>Contracts closed under sequencing\<close>

text \<open>An operation \<open>keeps\<close> a relation when every run of it ends in a related state.\<close>

definition keeps :: "('s \<Rightarrow> 's \<Rightarrow> bool) \<Rightarrow> ('s, 'e, 'a) comp \<Rightarrow> bool" where
  "keeps R m = (\<forall>s. R s (snd (m s)))"

lemma keepsI: "(\<And>s. R s (snd (m s))) \<Longrightarrow> keeps R m"
  by (simp add: keeps_def)

lemma keepsD: "keeps R m \<Longrightarrow> m s = (r, t) \<Longrightarrow> R s t"
  unfolding keeps_def by (metis snd_conv)

lemma keeps_snd: "keeps R m \<Longrightarrow> R s (snd (m s))"
  by (simp add: keeps_def)

locale evolution =
  fixes R :: "'s \<Rightarrow> 's \<Rightarrow> bool"
  assumes stays: "R s s"
    and chain: "R s t \<Longrightarrow> R t u \<Longrightarrow> R s u"
begin

lemma return_ok: "keeps R (return_ok a)"
  by (simp add: keeps_def stays)

lemma throw: "keeps R (throw e)"
  by (simp add: keeps_def stays)

lemma lift_result: "keeps R (lift_result r)"
  by (simp add: keeps_def stays)

lemma pair_result: "keeps R (Pair r)"
  by (simp add: keeps_def stays)

lemma modify: "(\<And>s. R s (f s)) \<Longrightarrow> keeps R (modify f)"
  by (simp add: keeps_def)

lemma and_then:
  assumes "keeps R m" and "\<And>a. keeps R (f a)"
  shows "keeps R (and_then m f)"
proof (rule keepsI)
  fix s
  obtain r t where m: "m s = (r, t)" by fastforce
  with assms(1) have "R s t" by (rule keepsD)
  then show "R s (snd (and_then m f s))"
    using m keeps_snd [OF assms(2)]
    by (cases r) (auto intro: chain)
qed

lemma map_err_comp: "keeps R m \<Longrightarrow> keeps R (map_err_comp g m)"
  by (simp add: keeps_def map_err_comp_def split_beta)

lemma inspect_err:
  assumes "keeps R m" and "\<And>e s. R s (h e s)"
  shows "keeps R (inspect_err h m)"
proof (rule keepsI)
  fix s
  obtain r t where m: "m s = (r, t)" by fastforce
  with assms(1) have "R s t" by (rule keepsD)
  then show "R s (snd (inspect_err h m s))"
    using m assms(2) by (cases r) (auto simp: inspect_err_def intro: chain)
qed

lemma if_comp: "keeps R m \<Longrightarrow> keeps R n \<Longrightarrow> keeps R (\<lambda>s. if b s then m s else n s)"
  by (simp add: keeps_def)

lemma fold_steps: "(\<And>x s. R s (step x s)) \<Longrightarrow> R s (fold step xs s)"
  by (induction xs arbitrary: s) (auto intro: stays chain)

end

section \<open>Operations that ignore a part of the state\<close>

text \<open>
  \<open>commutes f m\<close>: the operation \<open>m\<close> neither reads nor writes what \<open>f\<close> changes, so the two can be
  swapped. The rules lift it through the combinators, like those of \<open>evolution\<close>.
\<close>

definition commutes :: "('s \<Rightarrow> 's) \<Rightarrow> ('s, 'e, 'a) comp \<Rightarrow> bool" where
  "commutes f m = (\<forall>s. m (f s) = (fst (m s), f (snd (m s))))"

named_theorems commuting \<open>operations that commute with a change of the state\<close>

lemma commutesI: "(\<And>s. m (f s) = (fst (m s), f (snd (m s)))) \<Longrightarrow> commutes f m"
  by (simp add: commutes_def)

lemma commutesD: "commutes f m \<Longrightarrow> m s = (r, t) \<Longrightarrow> m (f s) = (r, f t)"
  by (simp add: commutes_def)

lemma commutes_return_ok [commuting]: "commutes f (return_ok a)"
  by (simp add: commutes_def)

lemma commutes_throw [commuting]: "commutes f (throw e)"
  by (simp add: commutes_def)

lemma commutes_lift_result [commuting]: "commutes f (lift_result r)"
  by (simp add: commutes_def)

lemma commutes_modify: "(\<And>s. g (f s) = f (g s)) \<Longrightarrow> commutes f (modify g)"
  by (simp add: commutes_def)

lemma commutes_and_then [commuting]:
  assumes "commutes f m" and "\<And>a. commutes f (k a)"
  shows "commutes f (and_then m k)"
proof (rule commutesI)
  fix s
  obtain r t where m: "m s = (r, t)" by fastforce
  then have "m (f s) = (r, f t)" by (rule commutesD [OF assms(1)])
  moreover have "k a (f t) = (fst (k a t), f (snd (k a t)))" for a
    using assms(2) by (simp add: commutes_def)
  ultimately show "and_then m k (f s) = (fst (and_then m k s), f (snd (and_then m k s)))"
    using m by (cases r) simp_all
qed

lemma commutes_map_err_comp [commuting]: "commutes f m \<Longrightarrow> commutes f (map_err_comp g m)"
  by (simp add: commutes_def map_err_comp_def split_beta)

lemma commutes_inspect_err:
  assumes "commutes f m" and "\<And>e s. h e (f s) = f (h e s)"
  shows "commutes f (inspect_err h m)"
proof (rule commutesI)
  fix s
  obtain r t where m: "m s = (r, t)" by fastforce
  then have "m (f s) = (r, f t)" by (rule commutesD [OF assms(1)])
  with m assms(2) show "inspect_err h m (f s) = (fst (inspect_err h m s), f (snd (inspect_err h m s)))"
    by (cases r) (simp_all add: inspect_err_def)
qed

lemma commutes_option [commuting]:
  "(\<And>a. commutes f (g a)) \<Longrightarrow> commutes f n \<Longrightarrow> commutes f (case x of Some a \<Rightarrow> g a | None \<Rightarrow> n)"
  by (cases x) simp_all

lemma commutes_if [commuting]: "commutes f m \<Longrightarrow> commutes f n \<Longrightarrow> commutes f (if b then m else n)"
  by simp

end
