(* ===== verification/Telemetry.thy ===== *)
theory Telemetry
  imports Effects
begin

text \<open>
  \<open>magic-nix-cache/src/telemetry.rs\<close>: the counters of one run and the report made of them at
  shutdown. A \<open>Metric\<close> is an \<open>AtomicUsize\<close>; \<open>fetch_add\<close> wraps at \<open>2^64\<close>. A \<open>SystemTime\<close> is a number
  of nanoseconds; the recorder of the diagnostics client is the list of the facts it was given.
\<close>

section \<open>Metrics\<close>

type_synonym metric = usize

definition incr :: "metric \<Rightarrow> metric" where
  "incr m = m + 1"

definition set_metric :: "nat \<Rightarrow> metric \<Rightarrow> metric" where
  "set_metric val m = of_nat val"

type_synonym system_time = int

datatype fact_value = Fact_Number usize | Fact_Bool bool | Fact_Text string

type_synonym fact = "string \<times> fact_value"

record telemetry_report =
  start_time :: "system_time option"
  elapsed_seconds :: metric
  narinfos_served :: metric
  narinfos_sent_upstream :: metric
  narinfos_negative_cache_hits :: metric
  narinfos_negative_cache_misses :: metric
  narinfos_uploaded :: metric
  nars_served :: metric
  nars_sent_upstream :: metric
  nars_uploaded :: metric
  num_original_paths :: metric
  num_final_paths :: metric
  num_new_paths :: metric
  tripped_429 :: bool
  recorder :: "fact list option"

text \<open>\<open>TelemetryReport::new\<close>: every counter starts at its \<open>Default\<close>.\<close>

definition new_report :: "fact list \<Rightarrow> system_time \<Rightarrow> telemetry_report" where
  "new_report rec now =
     \<lparr> start_time = Some now, elapsed_seconds = 0,
       narinfos_served = 0, narinfos_sent_upstream = 0,
       narinfos_negative_cache_hits = 0, narinfos_negative_cache_misses = 0,
       narinfos_uploaded = 0, nars_served = 0, nars_sent_upstream = 0, nars_uploaded = 0,
       num_original_paths = 0, num_final_paths = 0, num_new_paths = 0,
       tripped_429 = False, recorder = Some rec \<rparr>"

text \<open>
  \<open>SystemTime::now().duration_since(start)\<close> fails when the clock went backwards; the report then
  says 0 seconds.
\<close>

definition elapsed_since :: "system_time \<Rightarrow> system_time \<Rightarrow> usize" where
  "elapsed_since start now =
     (if start \<le> now then of_nat (nat ((now - start) div 1000000000)) else 0)"

definition report_facts :: "telemetry_report \<Rightarrow> fact list" where
  "report_facts m =
     [(''elapsed_seconds'', Fact_Number (elapsed_seconds m)),
      (''narinfos_served'', Fact_Number (narinfos_served m)),
      (''narinfos_sent_upstream'', Fact_Number (narinfos_sent_upstream m)),
      (''narinfos_negative_cache_hits'', Fact_Number (narinfos_negative_cache_hits m)),
      (''narinfos_negative_cache_misses'', Fact_Number (narinfos_negative_cache_misses m)),
      (''narinfos_uploaded'', Fact_Number (narinfos_uploaded m)),
      (''nars_served'', Fact_Number (nars_served m)),
      (''nars_sent_upstream'', Fact_Number (nars_sent_upstream m)),
      (''nars_uploaded'', Fact_Number (nars_uploaded m)),
      (''num_original_paths'', Fact_Number (num_original_paths m)),
      (''num_final_paths'', Fact_Number (num_final_paths m)),
      (''num_new_paths'', Fact_Number (num_new_paths m)),
      (''tripped_429'', Fact_Bool (tripped_429 m))]"

text \<open>\<open>TelemetryReport::send\<close>.\<close>

definition send_report :: "system_time \<Rightarrow> telemetry_report \<Rightarrow> telemetry_report" where
  "send_report now m =
     (let m1 = (case start_time m of
                  Some st \<Rightarrow> m\<lparr>elapsed_seconds := elapsed_since st now\<rparr>
                | None \<Rightarrow> m)
      in case recorder m1 of
           None \<Rightarrow> m1
         | Some rec \<Rightarrow> m1\<lparr>recorder := Some (rec @ report_facts m1)\<rparr>)"

section \<open>Lemmas\<close>

lemma unat_incr: "unat (incr m) = (unat m + 1) mod 2 ^ 64"
  by (simp add: incr_def unat_word_ariths)

lemma unat_set_metric: "n < 2 ^ 64 \<Longrightarrow> unat (set_metric n m) = n"
  by (simp add: set_metric_def unat_of_nat take_bit_nat_eq_self)

lemma elapsed_since_backwards: "now < start \<Longrightarrow> elapsed_since start now = 0"
  by (simp add: elapsed_since_def)

text \<open>
  Incrementing a counter \<open>n\<close> times, as \<open>n\<close> threads sharing the report do in some order.
\<close>

lemma incr_funpow: "(incr ^^ n) m = m + of_nat n"
  by (induction n) (simp_all add: incr_def)

text \<open>
  The facts sent are those of the report at the moment of sending: sending changes no counter but
  the elapsed time.
\<close>

lemma report_facts_update [simp]:
  "report_facts (m\<lparr>recorder := r\<rparr>) = report_facts m"
  by (simp add: report_facts_def)

lemma send_report_recorder:
  assumes "recorder m = Some rec"
  shows "recorder (send_report now m) = Some (rec @ report_facts (send_report now m))"
  using assms by (cases "start_time m") (simp_all add: send_report_def Let_def)

lemma send_report_no_recorder: "recorder m = None \<Longrightarrow> recorder (send_report now m) = None"
  by (cases "start_time m") (simp_all add: send_report_def Let_def)

end
