(* ===== verification/Manifest.thy ===== *)
theory Manifest
  imports Effects
begin

text \<open>
  \<open>magic-nix-cache/src/narinfo/nix_manifest/\<close>: the serializer of the Nix manifest format, a flat
  list of \<open>Key: value\<close> lines.

  A Rust value with a \<open>Serialize\<close> impl drives a \<open>Serializer\<close> through the calls of the serde data
  model; \<open>sval\<close> has one constructor per such call, so a value of it is what a \<open>Serialize\<close> impl
  does. The third-party number formatters (\<open>itoa\<close>, \<open>ryu\<close>) are the fields of \<open>fmt_env\<close>; floats are
  their bit patterns. A \<open>char\<close> is given by its UTF-8 encoding, which is what \<open>v.to_string()\<close> holds.
\<close>

section \<open>The serde data model\<close>

datatype sval =
    VBool bool
  | VI8 "8 word" | VI16 "16 word" | VI32 "32 word" | VI64 "64 word"
  | VU8 "8 word" | VU16 "16 word" | VU32 "32 word" | VU64 "64 word"
  | VF32 "32 word" | VF64 "64 word"
  | VChar string
  | VStr string
  | VBytes bytes
  | VNone
  | VSome sval
  | VUnit
  | VUnitStruct string
  | VUnitVariant string string
  | VNewtypeStruct string sval
  | VNewtypeVariant string string sval
  | VSeq "sval list"
  | VTuple "sval list"
  | VTupleStruct string "sval list"
  | VTupleVariant string string "sval list"
  | VMap "(sval \<times> sval) list"
  | VStruct string "(string \<times> sval) list"
  | VStructVariant string string "(string \<times> sval) list"
  | VCustomError string \<comment> \<open>an impl that returns \<open>ser::Error::custom(msg)\<close>\<close>

record fmt_env =
  itoa_i64 :: "64 word \<Rightarrow> string"
  itoa_u64 :: "64 word \<Rightarrow> string"
  ryu_f64 :: "64 word \<Rightarrow> string"
  f64_from_f32 :: "32 word \<Rightarrow> 64 word"

datatype manifest_error =
    Unsupported string
  | NoneUnsupported
  | NestedMapUnsupported
  | Custom string

record serializer =
  out :: string
  seen_map :: bool

definition new_serializer :: serializer where
  "new_serializer = \<lparr>out = '''', seen_map = False\<rparr>"

definition push_str :: "string \<Rightarrow> (serializer, manifest_error, unit) comp" where
  "push_str v = modify (\<lambda>s. s\<lparr>out := out s @ v\<rparr>)"

section \<open>Serializing scalars\<close>

definition serialize_bool :: "bool \<Rightarrow> (serializer, manifest_error, unit) comp" where
  "serialize_bool v = push_str (if v then ''1'' else ''0'')"

definition serialize_i64 :: "fmt_env \<Rightarrow> 64 word \<Rightarrow> (serializer, manifest_error, unit) comp" where
  "serialize_i64 fe v = push_str (itoa_i64 fe v)"

definition serialize_u64 :: "fmt_env \<Rightarrow> 64 word \<Rightarrow> (serializer, manifest_error, unit) comp" where
  "serialize_u64 fe v = push_str (itoa_u64 fe v)"

definition serialize_f64 :: "fmt_env \<Rightarrow> 64 word \<Rightarrow> (serializer, manifest_error, unit) comp" where
  "serialize_f64 fe v = push_str (ryu_f64 fe v)"

definition serialize_str :: "string \<Rightarrow> (serializer, manifest_error, unit) comp" where
  "serialize_str v = push_str v"

text \<open>\<open>serialize_map\<close>, which \<open>serialize_struct\<close> calls too: only one map per document.\<close>

definition serialize_map :: "(serializer, manifest_error, unit) comp" where
  "serialize_map s =
     (if seen_map s then (Err NestedMapUnsupported, s)
      else (Ok (), s\<lparr>seen_map := True\<rparr>))"

section \<open>Serializing a value\<close>

text \<open>
  The integer widths go through \<open>i64::from\<close> (sign extension) and \<open>u64::from\<close> (zero extension).
  Sequences, tuples, byte strings, units, and the data-carrying enum variants are refused before any
  of their elements is visited. \<open>ser_entries\<close> and \<open>ser_fields\<close> are the \<open>SerializeMap\<close> and
  \<open>SerializeStruct\<close> impls: a map ends its line once, in \<open>end\<close>; a struct ends each field's line.
\<close>

function (sequential) serialize :: "fmt_env \<Rightarrow> sval \<Rightarrow> (serializer, manifest_error, unit) comp"
  and ser_entries :: "fmt_env \<Rightarrow> (sval \<times> sval) list \<Rightarrow> (serializer, manifest_error, unit) comp"
  and ser_fields :: "fmt_env \<Rightarrow> (string \<times> sval) list \<Rightarrow> (serializer, manifest_error, unit) comp"
where
  "serialize fe (VBool v) = serialize_bool v"
| "serialize fe (VI8 v) = serialize_i64 fe (scast v)"
| "serialize fe (VI16 v) = serialize_i64 fe (scast v)"
| "serialize fe (VI32 v) = serialize_i64 fe (scast v)"
| "serialize fe (VI64 v) = serialize_i64 fe v"
| "serialize fe (VU8 v) = serialize_u64 fe (ucast v)"
| "serialize fe (VU16 v) = serialize_u64 fe (ucast v)"
| "serialize fe (VU32 v) = serialize_u64 fe (ucast v)"
| "serialize fe (VU64 v) = serialize_u64 fe v"
| "serialize fe (VF32 v) = serialize_f64 fe (f64_from_f32 fe v)"
| "serialize fe (VF64 v) = serialize_f64 fe v"
| "serialize fe (VChar v) = serialize_str v"
| "serialize fe (VStr v) = serialize_str v"
| "serialize fe (VBytes v) = throw (Unsupported ''Byte sequence'')"
| "serialize fe VNone = throw NoneUnsupported"
| "serialize fe (VSome v) = serialize fe v"
| "serialize fe VUnit = throw (Unsupported ''Unit'')"
| "serialize fe (VUnitStruct n) = throw (Unsupported ''Unit'')"
| "serialize fe (VUnitVariant n variant) = serialize_str variant"
| "serialize fe (VNewtypeStruct n v) = serialize fe v"
| "serialize fe (VNewtypeVariant n variant v) = throw (Unsupported ''Newtype variant'')"
| "serialize fe (VSeq vs) = throw (Unsupported ''Sequence'')"
| "serialize fe (VTuple vs) = throw (Unsupported ''Sequence'')"
| "serialize fe (VTupleStruct n vs) = throw (Unsupported ''Sequence'')"
| "serialize fe (VTupleVariant n variant vs) = throw (Unsupported ''Tuple variant'')"
| "serialize fe (VMap es) =
     and_then serialize_map (\<lambda>_. and_then (ser_entries fe es) (\<lambda>_. push_str ''\<newline>''))"
| "serialize fe (VStruct n fs) = and_then serialize_map (\<lambda>_. ser_fields fe fs)"
| "serialize fe (VStructVariant n variant fs) = throw (Unsupported ''Struct variant'')"
| "serialize fe (VCustomError msg) = throw (Custom msg)"
| "ser_entries fe [] = return_ok ()"
| "ser_entries fe ((k, v) # es) =
     and_then (serialize fe k) (\<lambda>_.
     and_then (push_str '': '') (\<lambda>_.
     and_then (serialize fe v) (\<lambda>_. ser_entries fe es)))"
| "ser_fields fe [] = return_ok ()"
| "ser_fields fe ((k, v) # fs) =
     and_then (serialize_str k) (\<lambda>_.
     and_then (push_str '': '') (\<lambda>_.
     and_then (serialize fe v) (\<lambda>_.
     and_then (push_str ''\<newline>'') (\<lambda>_. ser_fields fe fs))))"
  by pat_completeness auto
termination
  by (relation "measure (case_sum (size \<circ> snd)
        (case_sum (size_list (size_prod size size) \<circ> snd)
                  (size_list (size_prod (\<lambda>_. 0) size) \<circ> snd)))") simp_all

text \<open>
  The other \<open>Serialize*\<close> impls of \<open>&mut Serializer\<close>: every call is refused. They are never reached,
  as no \<open>serialize_*\<close> function hands out such a serializer (\<open>compound_start\<close> is what those answer).
\<close>

datatype compound = As_Seq | As_Tuple | As_Tuple_Struct | As_Tuple_Variant | As_Struct_Variant

fun compound_start :: "compound \<Rightarrow> (serializer, manifest_error, unit) comp" where
  "compound_start As_Tuple_Variant = throw (Unsupported ''Tuple variant'')"
| "compound_start As_Struct_Variant = throw (Unsupported ''Struct variant'')"
| "compound_start c = throw (Unsupported ''Sequence'')"

fun compound_element :: "compound \<Rightarrow> sval \<Rightarrow> (serializer, manifest_error, unit) comp" where
  "compound_element As_Seq v = throw (Unsupported ''Sequence'')"
| "compound_element As_Tuple v = throw (Unsupported ''Tuple'')"
| "compound_element As_Tuple_Struct v = throw (Unsupported ''Tuple struct'')"
| "compound_element As_Tuple_Variant v = throw (Unsupported ''Tuple variant'')"
| "compound_element As_Struct_Variant v = throw (Unsupported ''Struct variant'')"

fun compound_end :: "compound \<Rightarrow> (serializer, manifest_error, unit) comp" where
  "compound_end As_Seq = throw (Unsupported ''Sequence'')"
| "compound_end As_Tuple = throw (Unsupported ''Tuple'')"
| "compound_end As_Tuple_Struct = throw (Unsupported ''Tuple struct'')"
| "compound_end As_Tuple_Variant = throw (Unsupported ''Tuple variant'')"
| "compound_end As_Struct_Variant = throw (Unsupported ''Struct variant'')"

text \<open>What a \<open>Serialize\<close> impl does with a compound value: open it, send the elements, close it.\<close>

fun compound_elements :: "compound \<Rightarrow> sval list \<Rightarrow> (serializer, manifest_error, unit) comp" where
  "compound_elements c [] = return_ok ()"
| "compound_elements c (v # vs) = and_then (compound_element c v) (\<lambda>_. compound_elements c vs)"

definition serialize_compound :: "compound \<Rightarrow> sval list \<Rightarrow> (serializer, manifest_error, unit) comp" where
  "serialize_compound c vs =
     and_then (compound_start c) (\<lambda>_. and_then (compound_elements c vs) (\<lambda>_. compound_end c))"

lemma serialize_compound_eq:
  "serialize fe (VSeq vs) = serialize_compound As_Seq vs"
  "serialize fe (VTuple vs) = serialize_compound As_Tuple vs"
  "serialize fe (VTupleStruct n vs) = serialize_compound As_Tuple_Struct vs"
  "serialize fe (VTupleVariant n variant vs) = serialize_compound As_Tuple_Variant vs"
  "serialize fe (VStructVariant n variant fs) = serialize_compound As_Struct_Variant (map snd fs)"
  by (simp_all add: fun_eq_iff serialize_compound_def and_then_def)

text \<open>The \<open>Display\<close> text of an error, with its quotation marks as the code has them.\<close>

fun manifest_error_text :: "manifest_error \<Rightarrow> string" where
  "manifest_error_text (Unsupported s) = [CHR 0x22] @ s @ [CHR 0x22] @ '' values are unsupported.''"
| "manifest_error_text NoneUnsupported =
     [CHR 0x22] @ ''None is unsupported. Add #[serde(skip_serializing_if = '' @ [CHR 0x22] @ ''Option::is_none''
       @ [CHR 0x22] @ '')]'' @ [CHR 0x22]"
| "manifest_error_text NestedMapUnsupported = ''Nexted maps are unsupported.''"
| "manifest_error_text (Custom s) = ''Custom error: '' @ s"

text \<open>\<open>nix_manifest::to_string\<close>: a serialization error is a panic of the \<open>expect\<close>.\<close>

definition manifest_to_string :: "fmt_env \<Rightarrow> sval \<Rightarrow> (manifest_error, string) result" where
  "manifest_to_string fe v =
     (case serialize fe v new_serializer of
        (Ok _, s) \<Rightarrow> Ok (out s)
      | (_, s) \<Rightarrow> Panic ''failed to convert path into to nar info'')"

section \<open>The serializer only appends\<close>

text \<open>What every call of the serializer does to its state.\<close>

definition extends_output :: "serializer \<Rightarrow> serializer \<Rightarrow> bool" where
  "extends_output s t \<longleftrightarrow> (\<exists>v. out t = out s @ v) \<and> (seen_map s \<longrightarrow> seen_map t)"

interpretation ser: evolution extends_output
  by unfold_locales (auto simp: extends_output_def)

lemma keeps_push_str: "keeps extends_output (push_str v)"
  unfolding push_str_def by (rule ser.modify) (simp add: extends_output_def)

lemma keeps_serialize_map: "keeps extends_output serialize_map"
  by (rule keepsI) (simp add: serialize_map_def extends_output_def)

lemmas scalar_defs = serialize_bool_def serialize_i64_def serialize_u64_def serialize_f64_def
  serialize_str_def

lemma serialize_appends:
  "keeps extends_output (serialize fe v)"
  "keeps extends_output (ser_entries fe es)"
  "keeps extends_output (ser_fields fe fs)"
  by (induction fe v and fe es and fe fs rule: serialize_ser_entries_ser_fields.induct)
     (auto simp: scalar_defs intro!: ser.and_then ser.pair_result
        keeps_push_str keeps_serialize_map)

section \<open>Plain values and the flat format\<close>

text \<open>
  The values that fit the format: scalars and strings, and options, newtypes and unit variants of
  them. \<open>plain_text\<close> is the text of such a value.
\<close>

fun plain_text :: "fmt_env \<Rightarrow> sval \<Rightarrow> string option" where
  "plain_text fe (VBool v) = Some (if v then ''1'' else ''0'')"
| "plain_text fe (VI8 v) = Some (itoa_i64 fe (scast v))"
| "plain_text fe (VI16 v) = Some (itoa_i64 fe (scast v))"
| "plain_text fe (VI32 v) = Some (itoa_i64 fe (scast v))"
| "plain_text fe (VI64 v) = Some (itoa_i64 fe v)"
| "plain_text fe (VU8 v) = Some (itoa_u64 fe (ucast v))"
| "plain_text fe (VU16 v) = Some (itoa_u64 fe (ucast v))"
| "plain_text fe (VU32 v) = Some (itoa_u64 fe (ucast v))"
| "plain_text fe (VU64 v) = Some (itoa_u64 fe v)"
| "plain_text fe (VF32 v) = Some (ryu_f64 fe (f64_from_f32 fe v))"
| "plain_text fe (VF64 v) = Some (ryu_f64 fe v)"
| "plain_text fe (VChar v) = Some v"
| "plain_text fe (VStr v) = Some v"
| "plain_text fe (VUnitVariant n v) = Some v"
| "plain_text fe (VSome v) = plain_text fe v"
| "plain_text fe (VNewtypeStruct n v) = plain_text fe v"
| "plain_text fe _ = None"

lemma serialize_plain:
  "plain_text fe v = Some t \<Longrightarrow> serialize fe v s = (Ok (), s\<lparr>out := out s @ t\<rparr>)"
  by (induction fe v arbitrary: t rule: plain_text.induct) (auto simp: scalar_defs push_str_def)

text \<open>
  The format itself, as a list of lines: \<open>render\<close> prints a key-value list, \<open>parse_lines\<close> reads a
  document back, one line per entry, cut at the first \<open>": "\<close>.
\<close>

fun render :: "(string \<times> string) list \<Rightarrow> string" where
  "render [] = ''''"
| "render ((k, t) # es) = k @ '': '' @ t @ ''\<newline>'' @ render es"

fun read_line :: "string \<Rightarrow> (string \<times> string) option" where
  "read_line [] = None"
| "read_line (c # cs) =
     (if c = CHR '':''
      then (if take 1 cs = '' '' then Some ([], drop 1 cs) else None)
      else map_option (\<lambda>(k, v). (c # k, v)) (read_line cs))"

function parse_lines :: "string \<Rightarrow> (string \<times> string) list option" where
  "parse_lines s =
     (if s = [] then Some []
      else case splitn2 (CHR ''\<newline>'') s of
             [l, rest] \<Rightarrow>
               (case read_line l of
                  None \<Rightarrow> None
                | Some kv \<Rightarrow> map_option (\<lambda>es. kv # es) (parse_lines rest))
           | _ \<Rightarrow> None)"
  by pat_completeness auto
termination
  by (relation "measure length") (auto dest: splitn2_Cons2)

declare parse_lines.simps [simp del]

lemma parse_lines_Nil [simp]: "parse_lines [] = Some []"
  by (simp add: parse_lines.simps)

lemma parse_lines_Cons:
  "CHR ''\<newline>'' \<notin> set l \<Longrightarrow>
   parse_lines (l @ CHR ''\<newline>'' # rest) =
     (case read_line l of None \<Rightarrow> None | Some kv \<Rightarrow> map_option (\<lambda>es. kv # es) (parse_lines rest))"
  by (subst parse_lines.simps) (simp add: splitn2_append)

lemma read_line_key: "CHR '':'' \<notin> set k \<Longrightarrow> read_line (k @ '': '' @ t) = Some (k, t)"
  by (induction k) auto

text \<open>Entries whose text survives the format: no colon in the key, no newline anywhere.\<close>

definition line_safe :: "string \<times> string \<Rightarrow> bool" where
  "line_safe e \<longleftrightarrow> CHR '':'' \<notin> set (fst e) \<and> CHR ''\<newline>'' \<notin> set (fst e) \<and> CHR ''\<newline>'' \<notin> set (snd e)"

lemma parse_render: "\<forall>e \<in> set es. line_safe e \<Longrightarrow> parse_lines (render es) = Some es"
proof (induction es rule: render.induct)
  case 1
  show ?case by simp
next
  case (2 k t es)
  then have "parse_lines ((k @ '': '' @ t) @ CHR ''\<newline>'' # render es) = Some ((k, t) # es)"
    by (subst parse_lines_Cons) (auto simp: line_safe_def read_line_key [simplified])
  then show ?case by simp
qed

lemma ser_fields_plain:
  assumes "list_all2 (\<lambda>(k, v) (k', t). k' = k \<and> plain_text fe v = Some t) fs es"
  shows "ser_fields fe fs s = (Ok (), s\<lparr>out := out s @ render es\<rparr>)"
  using assms
proof (induction fs arbitrary: es s)
  case Nil
  then show ?case by simp
next
  case (Cons f fs)
  obtain k v where f: "f = (k, v)" by fastforce
  with Cons.prems obtain t es' where es: "es = (k, t) # es'" and t: "plain_text fe v = Some t"
    and rest: "list_all2 (\<lambda>(k, v) (k', t). k' = k \<and> plain_text fe v = Some t) fs es'"
    by (auto simp: list_all2_Cons1)
  show ?case
    by (simp add: f es serialize_str_def push_str_def and_then_def serialize_plain [OF t]
        Cons.IH [OF rest])
qed

text \<open>A struct of plain fields prints as the flat document of its entries, and never panics.\<close>

lemma manifest_of_plain_struct:
  assumes "list_all2 (\<lambda>(k, v) (k', t). k' = k \<and> plain_text fe v = Some t) fs es"
  shows "manifest_to_string fe (VStruct n fs) = Ok (render es)"
  by (simp add: manifest_to_string_def serialize_map_def new_serializer_def and_then_def
      ser_fields_plain [OF assms])

end
