(* ===== verification/NarInfo.thy ===== *)
theory NarInfo
  imports Manifest
begin

text \<open>
  \<open>magic-nix-cache/src/narinfo/mod.rs\<close>: the \<open>NarInfo\<close> structure and its text form. \<open>narinfo_value\<close>
  is the derived \<open>Serialize\<close> impl: one field per struct field in declaration order, under its
  \<open>rename\<close>, with the \<open>skip_serializing_if\<close> fields left out when they are \<open>None\<close>. What the derive
  takes from other crates is in \<open>nar_env\<close>: the text of an \<open>attic\<close> hash and the space-separated
  list of \<open>serde_with\<close>.
\<close>

datatype compression = None_Compression | Xz | Bzip2 | Brotli | Zstd

text \<open>The \<open>serde(rename)\<close> of each variant, and \<open>as_str\<close>, which the source writes separately.\<close>

fun compression_rename :: "compression \<Rightarrow> string" where
  "compression_rename None_Compression = ''none''"
| "compression_rename Xz = ''xz''"
| "compression_rename Bzip2 = ''bzip2''"
| "compression_rename Brotli = ''br''"
| "compression_rename Zstd = ''zstd''"

fun compression_as_str :: "compression \<Rightarrow> string" where
  "compression_as_str None_Compression = ''none''"
| "compression_as_str Xz = ''xz''"
| "compression_as_str Bzip2 = ''bzip2''"
| "compression_as_str Brotli = ''br''"
| "compression_as_str Zstd = ''zstd''"

type_synonym attic_hash = bytes

record nar_info =
  store_path :: bytes
  url :: string
  compression :: compression
  file_hash :: "attic_hash option"
  file_size :: "usize option"
  nar_hash :: attic_hash
  nar_size :: usize
  references :: "string list"
  system :: "string option"
  deriver :: "string option"
  signature :: "string option"
  ca :: "string option"
  provenance :: "string option"

record nar_env = fmt_env +
  hash_text :: "attic_hash \<Rightarrow> string"
  space_delimited :: "string list \<Rightarrow> string"

text \<open>The \<open>Serialize\<close> impl of \<open>PathBuf\<close> refuses a path that is not UTF-8.\<close>

definition path_value :: "bytes \<Rightarrow> sval" where
  "path_value p =
     (case to_str p of Some s \<Rightarrow> VStr s
      | None \<Rightarrow> VCustomError ''path contains invalid UTF-8 characters'')"

definition opt_field :: "string \<Rightarrow> ('a \<Rightarrow> sval) \<Rightarrow> 'a option \<Rightarrow> (string \<times> sval) list" where
  "opt_field k f x = (case x of None \<Rightarrow> [] | Some a \<Rightarrow> [(k, VSome (f a))])"

definition narinfo_fields :: "('e) nar_env_scheme \<Rightarrow> nar_info \<Rightarrow> (string \<times> sval) list" where
  "narinfo_fields ne n =
     [(''StorePath'', path_value (store_path n)),
      (''URL'', VStr (url n)),
      (''Compression'', VUnitVariant ''Compression'' (compression_rename (compression n)))]
     @ opt_field ''FileHash'' (\<lambda>h. VStr (hash_text ne h)) (file_hash n)
     @ opt_field ''FileSize'' VU64 (file_size n)
     @ [(''NarHash'', VStr (hash_text ne (nar_hash n))),
        (''NarSize'', VU64 (nar_size n)),
        (''References'', VStr (space_delimited ne (references n)))]
     @ opt_field ''System'' VStr (system n)
     @ opt_field ''Deriver'' VStr (deriver n)
     @ opt_field ''Sig'' VStr (signature n)
     @ opt_field ''CA'' VStr (ca n)
     @ opt_field ''Provenance'' VStr (provenance n)"

definition narinfo_value :: "('e) nar_env_scheme \<Rightarrow> nar_info \<Rightarrow> sval" where
  "narinfo_value ne n = VStruct ''NarInfo'' (narinfo_fields ne n)"

definition narinfo_to_string :: "('e) nar_env_scheme \<Rightarrow> nar_info \<Rightarrow> (manifest_error, string) result" where
  "narinfo_to_string ne n = manifest_to_string (fmt_env.truncate ne) (narinfo_value ne n)"

section \<open>The document of a narinfo\<close>

text \<open>The lines a narinfo has, as text, in order.\<close>

definition opt_line :: "string \<Rightarrow> ('a \<Rightarrow> string) \<Rightarrow> 'a option \<Rightarrow> (string \<times> string) list" where
  "opt_line k f x = (case x of None \<Rightarrow> [] | Some a \<Rightarrow> [(k, f a)])"

definition narinfo_lines :: "('e) nar_env_scheme \<Rightarrow> nar_info \<Rightarrow> (string \<times> string) list" where
  "narinfo_lines ne n =
     [(''StorePath'', store_path n),
      (''URL'', url n),
      (''Compression'', compression_as_str (compression n))]
     @ opt_line ''FileHash'' (hash_text ne) (file_hash n)
     @ opt_line ''FileSize'' (itoa_u64 ne) (file_size n)
     @ [(''NarHash'', hash_text ne (nar_hash n)),
        (''NarSize'', itoa_u64 ne (nar_size n)),
        (''References'', space_delimited ne (references n))]
     @ opt_line ''System'' id (system n)
     @ opt_line ''Deriver'' id (deriver n)
     @ opt_line ''Sig'' id (signature n)
     @ opt_line ''CA'' id (ca n)
     @ opt_line ''Provenance'' id (provenance n)"

lemma compression_rename_as_str: "compression_rename c = compression_as_str c"
  by (cases c) simp_all

lemma list_all2_opt_field:
  assumes "\<And>a. plain_text fe (f a) = Some (g a)"
  shows "list_all2 (\<lambda>(k, v) (k', t). k' = k \<and> plain_text fe v = Some t)
           (opt_field k f x) (opt_line k g x)"
  using assms by (simp add: opt_field_def opt_line_def split: option.split)

lemma narinfo_fields_plain:
  assumes "utf8_valid (store_path n)"
  shows "list_all2 (\<lambda>(k, v) (k', t). k' = k \<and> plain_text (fmt_env.truncate ne) v = Some t)
           (narinfo_fields ne n) (narinfo_lines ne n)"
  unfolding narinfo_fields_def narinfo_lines_def
  using assms
  by (intro list_all2_appendI list_all2_opt_field)
     (simp_all add: path_value_def to_str_def compression_rename_as_str fmt_env.truncate_def)

lemma narinfo_to_string_Ok:
  "utf8_valid (store_path n) \<Longrightarrow> narinfo_to_string ne n = Ok (render (narinfo_lines ne n))"
  unfolding narinfo_to_string_def narinfo_value_def
  by (intro manifest_of_plain_struct narinfo_fields_plain)

lemma narinfo_to_string_bad_path:
  assumes "\<not> utf8_valid (store_path n)"
  shows "narinfo_to_string ne n = Panic ''failed to convert path into to nar info''"
  using assms
  by (simp add: narinfo_to_string_def narinfo_value_def manifest_to_string_def narinfo_fields_def
      path_value_def to_str_def serialize_map_def new_serializer_def and_then_def
      serialize_str_def push_str_def)

text \<open>
  When the values have no newline, the document can be read back: \<open>narinfo_lines\<close> is what a reader
  of the flat format recovers. The keys are constants of the source and contain no colon.
\<close>

definition narinfo_no_newline :: "('e) nar_env_scheme \<Rightarrow> nar_info \<Rightarrow> bool" where
  "narinfo_no_newline ne n \<longleftrightarrow> (\<forall>e \<in> set (narinfo_lines ne n). CHR ''\<newline>'' \<notin> set (snd e))"

lemma narinfo_lines_safe:
  "narinfo_no_newline ne n \<Longrightarrow> \<forall>e \<in> set (narinfo_lines ne n). line_safe e"
  by (auto simp: narinfo_no_newline_def narinfo_lines_def line_safe_def opt_line_def
      split: option.splits)

end
