(* ===== verification/Streams.thy ===== *)
theory Streams
  imports Effects
begin

text \<open>
  Byte sources and \<open>gha-cache/src/util.rs\<close>. \<open>read_chunk_async\<close> reads greedily from any \<open>AsyncRead\<close>:
  \<open>read_chunk\<close> is its loop, over any \<open>read_buf\<close>. The locale \<open>async_read\<close> is the \<open>AsyncRead\<close>
  contract in terms of the bytes still to come and of how the source ends, and proves the loop
  once for every source. The program reads from two kinds of source, both \<open>reader\<close>s: a byte slice
  (\<open>narinfo.as_bytes()\<close>) and a stream of buffers that may fail (a request body through
  \<open>StreamReader\<close>, the compressed NAR). A stream is finite: it is the list of what polling it yields.
\<close>

type_synonym io_error = string

section \<open>The greedy read loop\<close>

text \<open>
  \<open>chunk\<close> is the buffer, \<open>cap\<close> its capacity. Every round adds at least one byte or leaves the loop,
  so it ends whatever the source does.
\<close>

function read_chunk ::
  "(nat \<Rightarrow> 's \<Rightarrow> (io_error, bytes) result \<times> 's) \<Rightarrow> nat \<Rightarrow> bytes \<Rightarrow> 's \<Rightarrow> (io_error, bytes) result \<times> 's"
where
  "read_chunk rd cap chunk s =
     (if length chunk < cap then
        (case rd (cap - length chunk) s of
           (Ok d, s') \<Rightarrow> if d = [] then (Ok chunk, s') else read_chunk rd cap (chunk @ d) s'
         | (Err e, s') \<Rightarrow> (Err e, s')
         | (Panic p, s') \<Rightarrow> (Panic p, s'))
      else (Ok chunk, s))"
  by pat_completeness auto
termination
  by (relation "measure (\<lambda>(rd, cap, chunk, s). cap - length chunk)")
     (auto simp: diff_less_mono2)

declare read_chunk.simps [simp del]

locale async_read =
  fixes rd :: "nat \<Rightarrow> 's \<Rightarrow> (io_error, bytes) result \<times> 's"
    and content :: "'s \<Rightarrow> bytes"
    and ending :: "'s \<Rightarrow> io_error option"
  assumes rd_data: "rd n s = (Ok d, s') \<Longrightarrow>
      length d \<le> n \<and> content s = d @ content s' \<and> ending s' = ending s"
    and rd_eof: "0 < n \<Longrightarrow> rd n s = (Ok [], s') \<Longrightarrow> content s = [] \<and> ending s = None"
    and rd_error: "rd n s = (Err e, s') \<Longrightarrow> content s = [] \<and> ending s = Some e"
    and rd_no_panic: "rd n s \<noteq> (Panic p, s')"
begin

text \<open>
  What one call returns: the buffer grows by a prefix \<open>x\<close> of what is still to come, and a buffer that
  is not full means that the source has ended well.
\<close>

lemma read_chunk_Ok:
  "read_chunk rd cap chunk s = (Ok d, s') \<Longrightarrow> length chunk \<le> cap \<Longrightarrow>
   \<exists>x. d = chunk @ x \<and> content s = x @ content s' \<and> ending s' = ending s \<and> length d \<le> cap
     \<and> (length d < cap \<longrightarrow> content s' = [] \<and> ending s' = None)"
proof (induction "cap - length chunk" arbitrary: chunk s rule: less_induct)
  case less
  show ?case
  proof (cases "length chunk < cap")
    case False
    with less.prems show ?thesis by (simp add: read_chunk.simps)
  next
    case True
    obtain r t where rd: "rd (cap - length chunk) s = (r, t)" by fastforce
    show ?thesis
    proof (cases r)
      case (Ok x)
      with rd have x: "length x \<le> cap - length chunk" "content s = x @ content t" "ending t = ending s"
        by (auto dest: rd_data)
      show ?thesis
      proof (cases "x = []")
        case True
        with less.prems Ok rd \<open>length chunk < cap\<close> have "d = chunk" "s' = t"
          by (auto simp: read_chunk.simps)
        moreover have "content s = [] \<and> ending s = None"
          using rd Ok True \<open>length chunk < cap\<close> rd_eof [of "cap - length chunk" s t] by simp
        ultimately show ?thesis using x True less.prems by auto
      next
        case False
        with less.prems Ok rd True have rest: "read_chunk rd cap (chunk @ x) t = (Ok d, s')"
          by (subst (asm) read_chunk.simps) simp
        have "cap - length (chunk @ x) < cap - length chunk" and "length (chunk @ x) \<le> cap"
          using False True x(1) by (auto simp: diff_less_mono2)
        from less.hyps [OF this(1) rest this(2)] x show ?thesis by auto
      qed
    next
      case (Err e)
      with less.prems rd True show ?thesis by (simp add: read_chunk.simps)
    next
      case (Panic p)
      with less.prems rd True show ?thesis by (simp add: read_chunk.simps)
    qed
  qed
qed

lemma read_chunk_Err:
  "read_chunk rd cap chunk s = (Err e, s') \<Longrightarrow> length chunk \<le> cap \<Longrightarrow>
   ending s = Some e \<and> length chunk + length (content s) < cap"
proof (induction "cap - length chunk" arbitrary: chunk s rule: less_induct)
  case less
  from less.prems have lt: "length chunk < cap"
    by (auto simp: read_chunk.simps split: if_splits)
  obtain r t where rd: "rd (cap - length chunk) s = (r, t)" by fastforce
  show ?case
  proof (cases r)
    case (Ok x)
    with rd have x: "length x \<le> cap - length chunk" "content s = x @ content t" "ending t = ending s"
      by (auto dest: rd_data)
    from less.prems Ok rd lt have "x \<noteq> []" and rest: "read_chunk rd cap (chunk @ x) t = (Err e, s')"
      by (auto simp: read_chunk.simps [of rd cap chunk s] split: if_splits)
    then have "cap - length (chunk @ x) < cap - length chunk" and "length (chunk @ x) \<le> cap"
      using lt x(1) by (auto simp: diff_less_mono2)
    from less.hyps [OF this(1) rest this(2)] x show ?thesis by simp
  next
    case (Err e')
    with less.prems rd lt have "e' = e" by (simp add: read_chunk.simps)
    with Err rd lt show ?thesis by (auto dest: rd_error)
  next
    case (Panic p)
    with rd rd_no_panic show ?thesis by simp
  qed
qed

lemma read_chunk_no_panic: "read_chunk rd cap chunk s \<noteq> (Panic p, s')"
proof (induction "cap - length chunk" arbitrary: chunk s rule: less_induct)
  case less
  show ?case
  proof
    assume panic: "read_chunk rd cap chunk s = (Panic p, s')"
    then have lt: "length chunk < cap"
      by (auto simp: read_chunk.simps split: if_splits)
    obtain r t where rd: "rd (cap - length chunk) s = (r, t)" by fastforce
    show False
    proof (cases r)
      case (Ok x)
      with panic rd lt have "x \<noteq> []" and rest: "read_chunk rd cap (chunk @ x) t = (Panic p, s')"
        by (auto simp: read_chunk.simps [of rd cap chunk s] split: if_splits)
      then have "cap - length (chunk @ x) < cap - length chunk"
        using lt by (auto simp: diff_less_mono2)
      from less.hyps [OF this] rest show False by simp
    qed (use panic rd lt rd_no_panic in \<open>auto simp: read_chunk.simps\<close>)
  qed
qed

text \<open>A source that ends well with less than a buffer's worth is read whole by one call.\<close>

lemma read_chunk_short:
  assumes "ending s = None" and "length (content s) < cap"
  shows "\<exists>s'. read_chunk rd cap [] s = (Ok (content s), s') \<and> content s' = [] \<and> ending s' = None"
proof -
  obtain r s' where eq: "read_chunk rd cap [] s = (r, s')" by fastforce
  show ?thesis
  proof (cases r)
    case (Ok d)
    with eq read_chunk_Ok [of cap "[]" s d s'] assms show ?thesis
      by (cases "length d < cap") auto
  qed (use eq assms read_chunk_Err read_chunk_no_panic in auto)
qed

end

section \<open>The program's sources\<close>

datatype read_event = Buf bytes | Read_Error io_error

datatype reader = Slice bytes | Body "read_event list"

text \<open>
  \<open>StreamReader\<close> skips empty buffers, hands out at most \<open>n\<close> bytes of the current one and keeps the
  rest; a read of 0 bytes is the end of the source.
\<close>

fun read_events :: "nat \<Rightarrow> read_event list \<Rightarrow> (io_error, bytes) result \<times> read_event list" where
  "read_events n [] = (Ok [], [])"
| "read_events n (Buf d # es) =
     (if d = [] then read_events n es
      else if length d \<le> n then (Ok d, es)
      else (Ok (take n d), Buf (drop n d) # es))"
| "read_events n (Read_Error e # es) = (Err e, es)"

fun read_buf :: "nat \<Rightarrow> reader \<Rightarrow> (io_error, bytes) result \<times> reader" where
  "read_buf n (Slice d) = (Ok (take n d), Slice (drop n d))"
| "read_buf n (Body es) = (case read_events n es of (r, es') \<Rightarrow> (r, Body es'))"

fun events_content :: "read_event list \<Rightarrow> bytes" where
  "events_content [] = []"
| "events_content (Buf d # es) = d @ events_content es"
| "events_content (Read_Error e # es) = []"

fun events_ending :: "read_event list \<Rightarrow> io_error option" where
  "events_ending [] = None"
| "events_ending (Buf d # es) = events_ending es"
| "events_ending (Read_Error e # es) = Some e"

fun reader_content :: "reader \<Rightarrow> bytes" where
  "reader_content (Slice d) = d"
| "reader_content (Body es) = events_content es"

fun reader_ending :: "reader \<Rightarrow> io_error option" where
  "reader_ending (Slice d) = None"
| "reader_ending (Body es) = events_ending es"

lemma read_events_data:
  "read_events n es = (Ok d, es') \<Longrightarrow>
   length d \<le> n \<and> events_content es = d @ events_content es' \<and> events_ending es' = events_ending es"
  by (induction n es rule: read_events.induct) (auto split: if_splits)

lemma read_events_eof:
  "0 < n \<Longrightarrow> read_events n es = (Ok [], es') \<Longrightarrow> events_content es = [] \<and> events_ending es = None"
  by (induction n es rule: read_events.induct) (auto split: if_splits)

lemma read_events_error:
  "read_events n es = (Err e, es') \<Longrightarrow> events_content es = [] \<and> events_ending es = Some e"
  by (induction n es rule: read_events.induct) (auto split: if_splits)

lemma read_events_no_panic: "read_events n es \<noteq> (Panic p, es')"
  by (induction n es rule: read_events.induct) auto

interpretation src: async_read read_buf reader_content reader_ending
proof
  fix n s d s' e p
  show "read_buf n s = (Ok d, s') \<Longrightarrow> length d \<le> n \<and> reader_content s = d @ reader_content s'
      \<and> reader_ending s' = reader_ending s"
    by (cases s) (auto dest: read_events_data split: prod.splits)
  show "0 < n \<Longrightarrow> read_buf n s = (Ok [], s') \<Longrightarrow> reader_content s = [] \<and> reader_ending s = None"
    by (cases s) (auto dest: read_events_eof split: prod.splits)
  show "read_buf n s = (Err e, s') \<Longrightarrow> reader_content s = [] \<and> reader_ending s = Some e"
    by (cases s) (auto dest: read_events_error split: prod.splits)
  show "read_buf n s \<noteq> (Panic p, s')"
    by (cases s) (auto simp: read_events_no_panic split: prod.splits)
qed

end
