(* ===== verification/GhaTypes.thy ===== *)
theory GhaTypes
  imports Streams
begin

text \<open>
  The data of \<open>gha-cache\<close>: credentials (\<open>credentials.rs\<close>), the error type and the request and
  response structures of \<open>api.rs\<close>, the messages of the v2 service (\<open>proto/\<close>), and \<open>gha_env\<close>, the code
  the crate calls but does not contain: the HTTP and Twirp clients (and with them the cache
  service), URL and header parsing, JSON decoding, SHA-256, hex, the byte-order-mark crate and the
  random generator. \<open>'w\<close> is the outside world these act on.
\<close>

section \<open>Credentials\<close>

record credentials =
  cache_url :: string
  results_url :: string
  runtime_token :: string
  service_v2 :: string

text \<open>\<open>Credentials::load_from_env\<close>: all four variables must be set.\<close>

definition load_from_env :: "(string \<rightharpoonup> string) \<Rightarrow> credentials option" where
  "load_from_env var =
     (case var ''ACTIONS_CACHE_URL'' of None \<Rightarrow> None | Some c \<Rightarrow>
     (case var ''ACTIONS_RESULTS_URL'' of None \<Rightarrow> None | Some r \<Rightarrow>
     (case var ''ACTIONS_RUNTIME_TOKEN'' of None \<Rightarrow> None | Some t \<Rightarrow>
     (case var ''ACTIONS_CACHE_SERVICE_V2'' of None \<Rightarrow> None | Some v \<Rightarrow>
        Some \<lparr>cache_url = c, results_url = r, runtime_token = t, service_v2 = v\<rparr>))))"

section \<open>Errors\<close>

type_synonym status_code = nat

datatype api_error_info = Unstructured bytes | Structured string

text \<open>
  \<open>twirp::ClientError\<close>, as far as \<open>check_err\<close> looks into it: a Twirp error response with its code, an
  HTTP error with its status, or any other variant.
\<close>

datatype twirp_error_code = ResourceExhausted | Other_Twirp_Code string

datatype twirp_client_error =
    Twirp_Response twirp_error_code string
  | Twirp_Http status_code string
  | Twirp_Other string

datatype gha_error =
    InitError string
  | CircuitBreakerTripped
  | RequestError string
  | DecodeError status_code bytes string
  | ApiError status_code api_error_info
  | ApiErrorNotOk
  | TwirpError twirp_client_error
  | IoError io_error string
  | TooManyCollisions

section \<open>Requests and responses\<close>

type_synonym i64 = "64 word"
type_synonym cache_id = i64

record signed_url =
  signed_url :: string
  su_key :: string

datatype file_allocation = V1 cache_id | V2 signed_url

record reserve_cache_request =
  rr_key :: string
  rr_version :: string
  rr_cache_size :: "usize option"

record commit_cache_request =
  cm_size :: usize

record artifact_cache_entry =
  cache_key :: "string option"
  scope :: "string option"
  cache_version :: "string option"
  creation_time :: "string option"
  archive_location :: string

datatype http_method = GET | POST | PUT | PATCH

datatype request_body =
    No_Body
  | Octets bytes
  | Json_Reserve reserve_cache_request
  | Json_Commit commit_cache_request

record http_request =
  rq_method :: http_method
  rq_url :: string
  rq_query :: "(string \<times> string) list"
  rq_headers :: "(string \<times> string) list"
  rq_body :: request_body

text \<open>A \<open>reqwest::Client\<close> is the configuration it was built from.\<close>

record http_client =
  user_agent :: string
  default_headers :: "(string \<times> string) list"

text \<open>A response: reading its body is a second step that may fail.\<close>

record http_response =
  rs_status :: status_code
  rs_body :: "string + bytes"

section \<open>Messages of the v2 service\<close>

record cache_scope =
  cs_scope :: string
  cs_permission :: i64

record cache_metadata =
  repository_id :: i64
  scopes :: "cache_scope list"

record create_cache_entry_request =
  ce_metadata :: "cache_metadata option"
  ce_key :: string
  ce_version :: string

record create_cache_entry_response =
  ce_ok :: bool
  signed_upload_url :: string

record finalize_cache_entry_upload_request =
  fe_metadata :: "cache_metadata option"
  fe_key :: string
  fe_size_bytes :: i64
  fe_version :: string

record finalize_cache_entry_upload_response =
  fe_ok :: bool
  entry_id :: i64

record get_cache_entry_download_url_request =
  ge_metadata :: "cache_metadata option"
  ge_key :: string
  restore_keys :: "string list"
  ge_version :: string

record get_cache_entry_download_url_response =
  ge_ok :: bool
  signed_download_url :: string
  matched_key :: string

record twirp_client =
  tw_base_url :: string
  tw_http :: http_client

section \<open>Code outside the repository\<close>

record 'w gha_env =
  http_send :: "http_client \<Rightarrow> http_request \<Rightarrow> 'w \<Rightarrow> (string + http_response) \<times> 'w"
  twirp_create_cache_entry ::
    "twirp_client \<Rightarrow> create_cache_entry_request \<Rightarrow> 'w
       \<Rightarrow> (twirp_client_error + create_cache_entry_response) \<times> 'w"
  twirp_finalize_cache_entry_upload ::
    "twirp_client \<Rightarrow> finalize_cache_entry_upload_request \<Rightarrow> 'w
       \<Rightarrow> (twirp_client_error + finalize_cache_entry_upload_response) \<times> 'w"
  twirp_get_cache_entry_download_url ::
    "twirp_client \<Rightarrow> get_cache_entry_download_url_request \<Rightarrow> 'w
       \<Rightarrow> (twirp_client_error + get_cache_entry_download_url_response) \<times> 'w"
  rand_alphanumeric :: "'w \<Rightarrow> char \<times> 'w"
  header_value :: "string \<Rightarrow> string + string"
  client_build :: "http_client \<Rightarrow> string + http_client"
  twirp_new :: "string \<Rightarrow> http_client \<Rightarrow> string + twirp_client"
  url_parse :: "string \<Rightarrow> string + string"
  url_append_pair :: "string \<Rightarrow> string \<Rightarrow> string \<Rightarrow> string"
  sha256 :: "bytes \<Rightarrow> bytes"
  hex_encode :: "bytes \<Rightarrow> string"
  bom_len :: "bytes \<Rightarrow> nat"
  json_cache_entry :: "bytes \<Rightarrow> string + artifact_cache_entry"
  json_cache_id :: "bytes \<Rightarrow> string + cache_id"
  json_error_message :: "bytes \<Rightarrow> string + string"

section \<open>The API client\<close>

text \<open>
  \<open>Api\<close>: what never changes after construction (the version changes only through
  \<open>mutate_version\<close>, before the client is shared). The streaming hasher is the bytes fed to it.
\<close>

record 'c api =
  api_credentials :: credentials
  api_version :: string
  version_hasher :: bytes
  client :: http_client
  twirp :: twirp_client
  breaker_callback :: "'c \<Rightarrow> 'c"

text \<open>
  What its operations change: the circuit breaker's flag, the state the callback writes, and the
  outside world. The server's state extends this record.
\<close>

record ('c, 'w) api_world =
  tripped :: bool
  cb_state :: 'c
  ext :: 'w

end
