(* ===== verification/GhaApi.thy ===== *)
theory GhaApi
  imports GhaTypes
begin

text \<open>
  The operations of \<open>gha-cache/src/api.rs\<close>: building the client, the circuit breaker, checking
  responses, reserving, uploading and looking up cache files, over both versions of the service.
  The release profile is modelled: \<open>#[cfg(debug_assertions)]\<close> items (the request statistics) are
  not part of it, and \<open>usize\<close> arithmetic wraps. Log output is not modelled.
\<close>

section \<open>Constants\<close>

definition API_VERSION :: string where
  "API_VERSION = ''6.0-preview.1''"

definition USER_AGENT :: string where
  "USER_AGENT = ''gha-cache/0.1.0''"

definition DEFAULT_VERSION :: string where
  "DEFAULT_VERSION = ''gha-cache/0.1.0''"

definition CHUNK_SIZE :: nat where
  "CHUNK_SIZE = 32 * 1024 * 1024"

definition MAX_CONCURRENCY :: nat where
  "MAX_CONCURRENCY = 4"

definition TOO_MANY_REQUESTS :: status_code where
  "TOO_MANY_REQUESTS = 429"

definition BAD_GATEWAY :: status_code where
  "BAD_GATEWAY = 502"

definition NO_CONTENT :: status_code where
  "NO_CONTENT = 204"

definition is_success :: "status_code \<Rightarrow> bool" where
  "is_success s \<longleftrightarrow> 200 \<le> s \<and> s < 300"

section \<open>Building the client\<close>

definition compute_version :: "'w gha_env \<Rightarrow> bytes \<Rightarrow> string" where
  "compute_version env hasher = hex_encode env (sha256 env hasher)"

definition service_url :: "credentials \<Rightarrow> string" where
  "service_url c = results_url c @ ''twirp/''"

definition api_new ::
  "'w gha_env \<Rightarrow> credentials \<Rightarrow> ('c \<Rightarrow> 'c) \<Rightarrow> (gha_error, 'c api) result" where
  "api_new env c callback =
     (case header_value env (''Bearer '' @ runtime_token c) of
        Inl e \<Rightarrow> Err (InitError e)
      | Inr auth \<Rightarrow>
     (case header_value env (''application/json;api-version='' @ API_VERSION) of
        Inl e \<Rightarrow> Err (InitError e)
      | Inr accept \<Rightarrow>
     (case client_build env \<lparr>user_agent = USER_AGENT,
             default_headers = [(''Authorization'', auth), (''Accept'', accept)]\<rparr> of
        Inl e \<Rightarrow> Err (InitError e)
      | Inr cl \<Rightarrow>
     (case url_parse env (service_url c) of
        Inl e \<Rightarrow> Err (InitError e)
      | Inr u \<Rightarrow>
     (case twirp_new env u cl of
        Inl e \<Rightarrow> Err (InitError e)
      | Inr tw \<Rightarrow>
          Ok \<lparr>api_credentials = c,
              api_version = compute_version env DEFAULT_VERSION,
              version_hasher = DEFAULT_VERSION,
              client = cl, twirp = tw, breaker_callback = callback\<rparr>)))))"

definition mutate_version :: "'w gha_env \<Rightarrow> bytes \<Rightarrow> 'c api \<Rightarrow> 'c api" where
  "mutate_version env data a =
     (let h = version_hasher a @ data
      in a\<lparr>version_hasher := h, api_version := compute_version env h\<rparr>)"

definition construct_url :: "'c api \<Rightarrow> string \<Rightarrow> string" where
  "construct_url a resource =
     (let url = cache_url (api_credentials a);
          url' = (if ends_with_char url (CHR ''/'') then url else url @ ''/'')
      in url' @ ''_apis/artifactcache/'' @ resource)"

section \<open>The circuit breaker\<close>

text \<open>\<open>AtomicCircuitBreaker for AtomicBool\<close>. The causes that trip it:\<close>

fun exhausts_resources :: "gha_error \<Rightarrow> bool" where
  "exhausts_resources (ApiError status info) = (status = TOO_MANY_REQUESTS)"
| "exhausts_resources (TwirpError (Twirp_Response ResourceExhausted msg)) = True"
| "exhausts_resources (TwirpError (Twirp_Http status msg)) = (status = BAD_GATEWAY)"
| "exhausts_resources _ = False"

definition check_err :: "'c api \<Rightarrow> gha_error \<Rightarrow> ('c, 'w, 'z) api_world_scheme \<Rightarrow> ('c, 'w, 'z) api_world_scheme" where
  "check_err a e s =
     (if exhausts_resources e
      then s\<lparr>tripped := True, cb_state := breaker_callback a (cb_state s)\<rparr>
      else s)"

fun check_result ::
  "'c api \<Rightarrow> (gha_error, 'a) result \<Rightarrow> ('c, 'w, 'z) api_world_scheme \<Rightarrow> ('c, 'w, 'z) api_world_scheme"
where
  "check_result a (Err e) s = check_err a e s"
| "check_result a r s = s"

section \<open>Sending and checking\<close>

definition send ::
  "'w gha_env \<Rightarrow> http_client \<Rightarrow> http_request \<Rightarrow> (('c, 'w, 'z) api_world_scheme, gha_error, http_response) comp"
where
  "send env cl rq s =
     (case http_send env cl rq (ext s) of
        (Inl e, w) \<Rightarrow> (Err (RequestError e), s\<lparr>ext := w\<rparr>)
      | (Inr res, w) \<Rightarrow> (Ok res, s\<lparr>ext := w\<rparr>))"

definition call_twirp ::
  "('rq \<Rightarrow> 'w \<Rightarrow> (twirp_client_error + 'rs) \<times> 'w) \<Rightarrow> 'rq \<Rightarrow> (('c, 'w, 'z) api_world_scheme, gha_error, 'rs) comp"
where
  "call_twirp f rq s =
     (case f rq (ext s) of
        (Inl e, w) \<Rightarrow> (Err (TwirpError e), s\<lparr>ext := w\<rparr>)
      | (Inr res, w) \<Rightarrow> (Ok res, s\<lparr>ext := w\<rparr>))"

definition handle_error :: "'w gha_env \<Rightarrow> http_response \<Rightarrow> gha_error" where
  "handle_error env res =
     (case rs_body res of
        Inl e \<Rightarrow> RequestError e
      | Inr raw \<Rightarrow>
          (let bytes = drop (bom_len env raw) raw
           in case json_error_message env bytes of
                Inr m \<Rightarrow> ApiError (rs_status res) (Structured m)
              | Inl e \<Rightarrow> ApiError (rs_status res) (Unstructured bytes)))"

definition check :: "'w gha_env \<Rightarrow> http_response \<Rightarrow> (gha_error, unit) result" where
  "check env res =
     (if \<not> is_success (rs_status res) then Err (handle_error env res) else Ok ())"

definition check_json ::
  "'w gha_env \<Rightarrow> (bytes \<Rightarrow> string + 'a) \<Rightarrow> http_response \<Rightarrow> (gha_error, 'a) result" where
  "check_json env decode res =
     (if \<not> is_success (rs_status res) then Err (handle_error env res)
      else case rs_body res of
             Inl e \<Rightarrow> Err (RequestError e)
           | Inr raw \<Rightarrow>
               (case decode raw of
                  Inr x \<Rightarrow> Ok x
                | Inl e \<Rightarrow> Err (DecodeError (rs_status res) raw e)))"

section \<open>Allocating a file\<close>

definition uses_v1 :: "'c api \<Rightarrow> bool" where
  "uses_v1 a \<longleftrightarrow> service_v2 (api_credentials a) = []"

definition reserve_v1 ::
  "'w gha_env \<Rightarrow> 'c api \<Rightarrow> string \<Rightarrow> usize option
     \<Rightarrow> (('c, 'w, 'z) api_world_scheme, gha_error, file_allocation) comp" where
  "reserve_v1 env a key cache_size =
     and_then
       (send env (client a)
          \<lparr>rq_method = POST, rq_url = construct_url a ''caches'', rq_query = [], rq_headers = [],
           rq_body = Json_Reserve
             \<lparr>rr_key = key, rr_version = api_version a, rr_cache_size = cache_size\<rparr>\<rparr>)
       (\<lambda>res s.
          let r = check_json env (json_cache_id env) res
          in and_then (lift_result r) (\<lambda>cid. return_ok (V1 cid)) (check_result a r s))"

definition reserve_v2 ::
  "'w gha_env \<Rightarrow> 'c api \<Rightarrow> string \<Rightarrow> (('c, 'w, 'z) api_world_scheme, gha_error, file_allocation) comp" where
  "reserve_v2 env a key =
     and_then
       (inspect_err (check_err a)
          (and_then
             (call_twirp (twirp_create_cache_entry env (twirp a))
                \<lparr>ce_metadata = None, ce_key = key, ce_version = api_version a\<rparr>)
             (\<lambda>response. if ce_ok response then return_ok response else throw ApiErrorNotOk)))
       (\<lambda>res. return_ok (V2 \<lparr>signed_url = signed_upload_url res, su_key = key\<rparr>))"

definition reserve_cache ::
  "'w gha_env \<Rightarrow> 'c api \<Rightarrow> string \<Rightarrow> usize option
     \<Rightarrow> (('c, 'w, 'z) api_world_scheme, gha_error, file_allocation) comp" where
  "reserve_cache env a key cache_size s =
     (if tripped s then (Err CircuitBreakerTripped, s)
      else if uses_v1 a then reserve_v1 env a key cache_size s
      else reserve_v2 env a key s)"

definition allocate_file ::
  "'w gha_env \<Rightarrow> 'c api \<Rightarrow> string \<Rightarrow> (('c, 'w, 'z) api_world_scheme, gha_error, file_allocation) comp" where
  "allocate_file env a key = reserve_cache env a key None"

text \<open>A nonce of \<open>n\<close> alphanumeric characters, drawn one at a time.\<close>

fun draw_nonce :: "'w gha_env \<Rightarrow> nat \<Rightarrow> ('c, 'w, 'z) api_world_scheme \<Rightarrow> string \<times> ('c, 'w, 'z) api_world_scheme" where
  "draw_nonce env 0 s = ([], s)"
| "draw_nonce env (Suc n) s =
     (case rand_alphanumeric env (ext s) of (c, w) \<Rightarrow>
      case draw_nonce env n (s\<lparr>ext := w\<rparr>) of (cs, s') \<Rightarrow> (c # cs, s'))"

fun is_collision :: "gha_error \<Rightarrow> bool" where
  "is_collision (ApiError status (Structured message)) = contains_str message ''Cache already exists''"
| "is_collision _ = False"

fun_cases collisionE: "is_collision e"

fun allocate_attempts ::
  "'w gha_env \<Rightarrow> 'c api \<Rightarrow> nat \<Rightarrow> string \<Rightarrow> (('c, 'w, 'z) api_world_scheme, gha_error, file_allocation) comp"
where
  "allocate_attempts env a 0 key s = (Err TooManyCollisions, s)"
| "allocate_attempts env a (Suc n) key s =
     (case draw_nonce env 4 s of (nonce, s0) \<Rightarrow>
        (case allocate_file env a (key @ ''-'' @ nonce) s0 of
           (Ok allocation, s1) \<Rightarrow> (Ok allocation, s1)
         | (Err e, s1) \<Rightarrow> if is_collision e then allocate_attempts env a n key s1 else (Err e, s1)
         | (Panic p, s1) \<Rightarrow> (Panic p, s1)))"

definition allocate_file_with_random_suffix ::
  "'w gha_env \<Rightarrow> 'c api \<Rightarrow> string \<Rightarrow> (('c, 'w, 'z) api_world_scheme, gha_error, file_allocation) comp" where
  "allocate_file_with_random_suffix env a key = allocate_attempts env a 5 key"

section \<open>Looking a file up\<close>

definition get_entry_v1 ::
  "'w gha_env \<Rightarrow> 'c api \<Rightarrow> string list \<Rightarrow> (('c, 'w, 'z) api_world_scheme, gha_error, string option) comp" where
  "get_entry_v1 env a keys =
     and_then
       (send env (client a)
          \<lparr>rq_method = GET, rq_url = construct_url a ''cache'',
           rq_query = [(''version'', api_version a), (''keys'', join '','' keys)],
           rq_headers = [], rq_body = No_Body\<rparr>)
       (\<lambda>res s.
          let r = check_json env (json_cache_entry env) res
          in (case r of
                Ok entry \<Rightarrow> Ok (Some (archive_location entry))
              | Err (DecodeError status b e) \<Rightarrow>
                  if status = NO_CONTENT then Ok None else Err (DecodeError status b e)
              | Err e \<Rightarrow> Err e
              | Panic p \<Rightarrow> Panic p, check_result a r s))"

definition get_entry_v2 ::
  "'w gha_env \<Rightarrow> 'c api \<Rightarrow> string list \<Rightarrow> (('c, 'w, 'z) api_world_scheme, gha_error, string option) comp" where
  "get_entry_v2 env a keys =
     (case keys of
        [] \<Rightarrow> lift_result (Panic ''index out of bounds: the len is 0 but the index is 0'')
      | k # ks \<Rightarrow>
          inspect_err (check_err a)
            (and_then
               (call_twirp (twirp_get_cache_entry_download_url env (twirp a))
                  \<lparr>ge_metadata = None, ge_key = k, restore_keys = keys, ge_version = api_version a\<rparr>)
               (\<lambda>entry. return_ok (if ge_ok entry then Some (signed_download_url entry) else None))))"

definition get_cache_entry ::
  "'w gha_env \<Rightarrow> 'c api \<Rightarrow> string list \<Rightarrow> (('c, 'w, 'z) api_world_scheme, gha_error, string option) comp" where
  "get_cache_entry env a keys s =
     (if tripped s then (Err CircuitBreakerTripped, s)
      else if uses_v1 a then get_entry_v1 env a keys s
      else get_entry_v2 env a keys s)"

definition get_file_url ::
  "'w gha_env \<Rightarrow> 'c api \<Rightarrow> string list \<Rightarrow> (('c, 'w, 'z) api_world_scheme, gha_error, string option) comp" where
  "get_file_url env a keys s =
     (if tripped s then (Err CircuitBreakerTripped, s) else get_cache_entry env a keys s)"

section \<open>Uploading a file\<close>

definition next_chunk :: "reader \<Rightarrow> (gha_error, bytes) result \<times> reader" where
  "next_chunk r =
     (case read_chunk read_buf CHUNK_SIZE [] r of
        (res, r') \<Rightarrow> (map_err (\<lambda>e. IoError e ''Reading a chunk during upload'') res, r'))"

lemma next_chunk_Ok:
  assumes "next_chunk r = (Ok d, r')"
  shows "reader_content r = d @ reader_content r'" "reader_ending r' = reader_ending r"
    "length d \<le> CHUNK_SIZE"
    "length d < CHUNK_SIZE \<Longrightarrow> reader_content r' = [] \<and> reader_ending r' = None"
proof -
  from assms have "read_chunk read_buf CHUNK_SIZE [] r = (Ok d, r')"
    by (auto simp: next_chunk_def split: prod.splits)
  from src.read_chunk_Ok [OF this]
  show "reader_content r = d @ reader_content r'" "reader_ending r' = reader_ending r"
    "length d \<le> CHUNK_SIZE"
    "length d < CHUNK_SIZE \<Longrightarrow> reader_content r' = [] \<and> reader_ending r' = None"
    by auto
qed

lemma next_chunk_shrinks:
  "next_chunk r = (Ok d, r') \<Longrightarrow> d \<noteq> [] \<Longrightarrow> length (reader_content r') < length (reader_content r)"
  by (drule next_chunk_Ok(1)) simp

lemma next_chunk_Err:
  assumes "next_chunk r = (Err e, r')"
  shows "\<exists>io. reader_ending r = Some io \<and> e = IoError io ''Reading a chunk during upload''"
    and "length (reader_content r) < CHUNK_SIZE"
  using assms src.read_chunk_Err [of CHUNK_SIZE "[]" r]
  by (auto simp: next_chunk_def split: prod.splits)

lemma next_chunk_no_panic: "next_chunk r \<noteq> (Panic p, r')"
  using src.read_chunk_no_panic [of CHUNK_SIZE "[]" r]
  by (auto simp: next_chunk_def split: prod.splits)

text \<open>
  Version 1: the loop that reads the source and spawns one task per chunk. A task is the chunk and
  its offset; the loop's own outcome is the total size or the read error it stopped at.
\<close>

type_synonym chunk_task = "usize \<times> bytes"

function spawn_chunks :: "usize \<Rightarrow> reader \<Rightarrow> chunk_task list \<times> (gha_error, usize) result" where
  "spawn_chunks offset r =
     (case next_chunk r of
        (Err e, _) \<Rightarrow> ([], Err e)
      | (Panic p, _) \<Rightarrow> ([], Panic p)
      | (Ok chunk, r') \<Rightarrow>
          if chunk = [] then ([], Ok (offset + of_nat (length chunk)))
          else (case spawn_chunks (offset + of_nat (length chunk)) r' of
                  (tasks, res) \<Rightarrow> ((offset, chunk) # tasks, res)))"
  by pat_completeness auto
termination
  by (relation "measure (\<lambda>(offset, r). length (reader_content r))")
     (auto intro: next_chunk_shrinks dest: sym)

declare spawn_chunks.simps [simp del]

definition content_range :: "usize \<Rightarrow> usize \<Rightarrow> string" where
  "content_range lo hi = ''bytes '' @ dec_usize lo @ ''-'' @ dec_usize hi @ ''/*''"

definition patch_request :: "'c api \<Rightarrow> cache_id \<Rightarrow> chunk_task \<Rightarrow> http_request" where
  "patch_request a cid task =
     (case task of (offset, chunk) \<Rightarrow>
        \<lparr>rq_method = PATCH, rq_url = construct_url a (''caches/'' @ dec_i64 cid), rq_query = [],
         rq_headers = [(''Content-Type'', ''application/octet-stream''),
                       (''Content-Range'', content_range offset (offset + of_nat (length chunk) - 1))],
         rq_body = Octets chunk\<rparr>)"

text \<open>The body of one spawned task. A failed \<open>send\<close> leaves it before the breaker is consulted.\<close>

definition run_chunk ::
  "'w gha_env \<Rightarrow> 'c api \<Rightarrow> cache_id \<Rightarrow> chunk_task \<Rightarrow> (('c, 'w, 'z) api_world_scheme, gha_error, unit) comp" where
  "run_chunk env a cid task =
     and_then (send env (client a) (patch_request a cid task))
       (\<lambda>res s. let r = check env res in (r, check_result a r s))"

text \<open>
  One schedule of the spawned tasks: in spawn order, each to its end. \<open>ChunkPool\<close> has all of them.
  The results are those \<open>join_all\<close> collects, in the order of the tasks.
\<close>

fun run_chunks ::
  "'w gha_env \<Rightarrow> 'c api \<Rightarrow> cache_id \<Rightarrow> chunk_task list \<Rightarrow> ('c, 'w, 'z) api_world_scheme
     \<Rightarrow> (gha_error, unit) result list \<times> ('c, 'w, 'z) api_world_scheme" where
  "run_chunks env a cid [] s = ([], s)"
| "run_chunks env a cid (t # ts) s =
     (case run_chunk env a cid t s of (r, s1) \<Rightarrow>
      case run_chunks env a cid ts s1 of (rs, s2) \<Rightarrow> (r # rs, s2))"

text \<open>\<open>try_for_each\<close>: the first failure in task order.\<close>

fun first_failure :: "('e, unit) result list \<Rightarrow> ('e, unit) result" where
  "first_failure [] = Ok ()"
| "first_failure (Ok _ # rs) = first_failure rs"
| "first_failure (r # rs) = r"

definition commit_v1 ::
  "'w gha_env \<Rightarrow> 'c api \<Rightarrow> cache_id \<Rightarrow> usize \<Rightarrow> (('c, 'w, 'z) api_world_scheme, gha_error, usize) comp" where
  "commit_v1 env a cid offset =
     and_then
       (send env (client a)
          \<lparr>rq_method = POST, rq_url = construct_url a (''caches/'' @ dec_i64 cid), rq_query = [],
           rq_headers = [], rq_body = Json_Commit \<lparr>cm_size = offset\<rparr>\<rparr>)
       (\<lambda>res. and_then (inspect_err (check_err a) (lift_result (check env res)))
          (\<lambda>_. return_ok offset))"

definition upload_v1 ::
  "'w gha_env \<Rightarrow> 'c api \<Rightarrow> cache_id \<Rightarrow> reader \<Rightarrow> (('c, 'w, 'z) api_world_scheme, gha_error, usize) comp" where
  "upload_v1 env a cid r s =
     (case spawn_chunks 0 r of (tasks, read_result) \<Rightarrow>
      case run_chunks env a cid tasks s of (rs, s1) \<Rightarrow>
        and_then (lift_result read_result)
          (\<lambda>offset. and_then (lift_result (first_failure rs))
             (\<lambda>_. commit_v1 env a cid offset)) s1)"

text \<open>Version 2: an append blob, one request after the other, through a client without credentials.\<close>

definition blob_client :: http_client where
  "blob_client = \<lparr>user_agent = USER_AGENT, default_headers = []\<rparr>"

definition blob_put :: "string \<Rightarrow> nat \<Rightarrow> request_body \<Rightarrow> http_request" where
  "blob_put url len body =
     \<lparr>rq_method = PUT, rq_url = url, rq_query = [],
      rq_headers = [(''Content-Type'', ''application/octet-stream''),
                    (''Content-Length'', dec_nat len), (''x-ms-blob-type'', ''AppendBlob'')],
      rq_body = body\<rparr>"

definition append_chunk ::
  "'w gha_env \<Rightarrow> 'c api \<Rightarrow> http_client \<Rightarrow> string \<Rightarrow> bytes \<Rightarrow> (('c, 'w, 'z) api_world_scheme, gha_error, unit) comp" where
  "append_chunk env a cl url chunk =
     and_then (send env cl (blob_put url (length chunk) (Octets chunk)))
       (\<lambda>res. inspect_err (check_err a) (lift_result (check env res)))"

function append_chunks ::
  "'w gha_env \<Rightarrow> 'c api \<Rightarrow> http_client \<Rightarrow> string \<Rightarrow> usize \<Rightarrow> reader
     \<Rightarrow> (('c, 'w, 'z) api_world_scheme, gha_error, usize) comp" where
  "append_chunks env a cl url offset r s =
     (case next_chunk r of
        (Err e, _) \<Rightarrow> (Err e, s)
      | (Panic p, _) \<Rightarrow> (Panic p, s)
      | (Ok chunk, r') \<Rightarrow>
          if chunk = [] then (Ok (offset + of_nat (length chunk)), s)
          else (case append_chunk env a cl url chunk s of
                  (Ok _, s1) \<Rightarrow> append_chunks env a cl url (offset + of_nat (length chunk)) r' s1
                | (Err e, s1) \<Rightarrow> (Err e, s1)
                | (Panic p, s1) \<Rightarrow> (Panic p, s1)))"
  by pat_completeness auto
termination
  by (relation "measure (\<lambda>(env, a, cl, url, offset, r, s). length (reader_content r))")
     (auto intro: next_chunk_shrinks dest: sym)

declare append_chunks.simps [simp del]

definition finalize_v2 ::
  "'w gha_env \<Rightarrow> 'c api \<Rightarrow> string \<Rightarrow> usize \<Rightarrow> (('c, 'w, 'z) api_world_scheme, gha_error, usize) comp" where
  "finalize_v2 env a key offset =
     inspect_err (check_err a)
       (and_then
          (call_twirp (twirp_finalize_cache_entry_upload env (twirp a))
             \<lparr>fe_metadata = None, fe_key = key, fe_size_bytes = offset, fe_version = api_version a\<rparr>)
          (\<lambda>response. if fe_ok response then return_ok offset else throw ApiErrorNotOk))"

definition upload_v2 ::
  "'w gha_env \<Rightarrow> 'c api \<Rightarrow> signed_url \<Rightarrow> reader \<Rightarrow> (('c, 'w, 'z) api_world_scheme, gha_error, usize) comp" where
  "upload_v2 env a su r =
     and_then (lift_result (map_err InitError (result_of_sum (url_parse env (signed_url su)))))
       (\<lambda>url. and_then (lift_result (map_err InitError (result_of_sum (client_build env blob_client))))
       (\<lambda>cl. and_then (send env cl (blob_put url 0 No_Body))
       (\<lambda>res. and_then (lift_result (check env res))
       (\<lambda>_. and_then (append_chunks env a cl (url_append_pair env url ''comp'' ''appendblock'') 0 r)
       (\<lambda>offset. and_then (send env cl (blob_put (url_append_pair env url ''comp'' ''seal'') 0 No_Body))
       (\<lambda>res'. and_then (inspect_err (check_err a) (lift_result (check env res')))
       (\<lambda>_. finalize_v2 env a (su_key su) offset)))))))"

definition upload_file ::
  "'w gha_env \<Rightarrow> 'c api \<Rightarrow> file_allocation \<Rightarrow> reader \<Rightarrow> (('c, 'w, 'z) api_world_scheme, gha_error, usize) comp" where
  "upload_file env a allocation r s =
     (if tripped s then (Err CircuitBreakerTripped, s)
      else case allocation of
             V1 cid \<Rightarrow> upload_v1 env a cid r s
           | V2 su \<Rightarrow> upload_v2 env a su r s)"

end
