(* ===== verification/GhaFacts.thy ===== *)
theory GhaFacts
  imports GhaApi
begin

text \<open>
  What the operations of \<open>GhaApi\<close> guarantee. First the contract all of them share: each moves the
  state along \<open>api_evolves\<close> (the breaker only ever trips, the callback runs exactly when it does, and
  nothing outside the client's own state is touched) and refuses to work once the breaker has
  tripped. The locale \<open>guarded_op\<close> is that interface; it is interpreted for every public operation.
  Then the functional facts: when the breaker trips, how names are allocated, and how a source is
  cut into chunks.
\<close>

section \<open>How an operation may change the state\<close>

definition api_evolves ::
  "('c \<Rightarrow> 'c) \<Rightarrow> ('c, 'w, 'z) api_world_scheme \<Rightarrow> ('c, 'w, 'z) api_world_scheme \<Rightarrow> bool" where
  "api_evolves cb s t \<longleftrightarrow>
     api_world.more t = api_world.more s
     \<and> (\<exists>n. cb_state t = (cb ^^ n) (cb_state s) \<and> tripped t = (tripped s \<or> 0 < n))"

lemma api_evolves_refl: "api_evolves cb s s"
  unfolding api_evolves_def by (auto intro: exI [of _ 0])

lemma api_evolves_trans:
  assumes "api_evolves cb s t" and "api_evolves cb t u"
  shows "api_evolves cb s u"
proof -
  from assms obtain m n where
    "cb_state t = (cb ^^ m) (cb_state s)" "tripped t = (tripped s \<or> 0 < m)"
    "cb_state u = (cb ^^ n) (cb_state t)" "tripped u = (tripped t \<or> 0 < n)"
    unfolding api_evolves_def by blast
  then have "cb_state u = (cb ^^ (n + m)) (cb_state s)" "tripped u = (tripped s \<or> 0 < n + m)"
    by (auto simp: funpow_add)
  moreover have "api_world.more u = api_world.more s"
    using assms by (simp add: api_evolves_def)
  ultimately show ?thesis unfolding api_evolves_def by blast
qed

interpretation gha: evolution "api_evolves cb" for cb
  by unfold_locales (auto intro: api_evolves_refl api_evolves_trans)

lemma api_evolves_monotone: "api_evolves cb s t \<Longrightarrow> tripped s \<Longrightarrow> tripped t"
  by (auto simp: api_evolves_def)

lemma api_evolves_more: "api_evolves cb s t \<Longrightarrow> api_world.more t = api_world.more s"
  by (simp add: api_evolves_def)

text \<open>A callback that is idempotent, as setting a flag is, has run once or not at all.\<close>

lemma funpow_idempotent:
  assumes "\<And>x. f (f x) = f x"
  shows "0 < n \<Longrightarrow> (f ^^ n) x = f x"
proof (induction n)
  case (Suc n)
  then show ?case using assms by (cases n) auto
qed simp

lemma api_evolves_idempotent:
  assumes "api_evolves cb s t" and "\<And>x. cb (cb x) = cb x"
  shows "cb_state t = cb_state s \<and> tripped t = tripped s \<or> cb_state t = cb (cb_state s) \<and> tripped t"
proof -
  from assms(1) obtain n where n: "cb_state t = (cb ^^ n) (cb_state s)" "tripped t = (tripped s \<or> 0 < n)"
    by (auto simp: api_evolves_def)
  then show ?thesis
    using funpow_idempotent [of cb n "cb_state s"] assms(2) by (cases "n = 0") auto
qed

section \<open>Every operation evolves the state\<close>

named_theorems evolves \<open>operations that keep \<open>api_evolves\<close>\<close>

lemma evolves_ext: "api_evolves cb s (s\<lparr>ext := w\<rparr>)"
  unfolding api_evolves_def by (auto intro: exI [of _ 0])

lemma evolves_check_err: "api_evolves (breaker_callback a) s (check_err a e s)"
  unfolding api_evolves_def check_err_def by (auto intro: exI [of _ 0] exI [of _ 1])

lemma evolves_check_result: "api_evolves (breaker_callback a) s (check_result a r s)"
  by (cases r) (simp_all add: evolves_check_err api_evolves_refl)

lemma send_evolves [evolves]: "keeps (api_evolves cb) (send env cl rq)"
  by (rule keepsI) (auto simp: send_def evolves_ext split: prod.split sum.split)

lemma call_twirp_evolves [evolves]: "keeps (api_evolves cb) (call_twirp f rq)"
  by (rule keepsI) (auto simp: call_twirp_def evolves_ext split: prod.split sum.split)

lemma inspect_check_evolves [evolves]:
  "keeps (api_evolves (breaker_callback a)) m \<Longrightarrow>
   keeps (api_evolves (breaker_callback a)) (inspect_err (check_err a) m)"
  by (rule gha.inspect_err) (simp_all add: evolves_check_err)

text \<open>A step that consults the breaker with its result and then goes on.\<close>

lemma checked_evolves:
  assumes "\<And>x. keeps (api_evolves (breaker_callback a)) (m x)"
  shows "keeps (api_evolves (breaker_callback a)) (\<lambda>s. m x (check_result a r s))"
  by (rule keepsI) (blast intro: api_evolves_trans evolves_check_result keeps_snd [OF assms])

lemmas evolution_steps = gha.and_then gha.return_ok gha.throw gha.lift_result gha.pair_result

lemma reserve_v1_evolves [evolves]:
  "keeps (api_evolves (breaker_callback a)) (reserve_v1 env a key cs)"
  unfolding reserve_v1_def Let_def
  by (intro gha.and_then send_evolves checked_evolves gha.lift_result gha.return_ok)

lemma reserve_v2_evolves [evolves]:
  "keeps (api_evolves (breaker_callback a)) (reserve_v2 env a key)"
  unfolding reserve_v2_def
  by (intro evolution_steps evolves) (auto intro!: evolution_steps evolves)

lemma reserve_cache_evolves [evolves]:
  "keeps (api_evolves (breaker_callback a)) (reserve_cache env a key cs)"
  by (rule keepsI)
     (simp add: reserve_cache_def api_evolves_refl keeps_snd [OF reserve_v1_evolves]
        keeps_snd [OF reserve_v2_evolves])

lemma allocate_file_evolves [evolves]:
  "keeps (api_evolves (breaker_callback a)) (allocate_file env a key)"
  unfolding allocate_file_def by (rule reserve_cache_evolves)

lemma draw_nonce_evolves: "draw_nonce env n s = (nonce, t) \<Longrightarrow> api_evolves cb s t"
  by (induction env n s arbitrary: nonce t rule: draw_nonce.induct)
     (auto simp: api_evolves_refl split: prod.splits intro: api_evolves_trans [OF evolves_ext])

lemma allocate_attempts_evolves [evolves]:
  "keeps (api_evolves (breaker_callback a)) (allocate_attempts env a n key)"
proof (rule keepsI)
  show "api_evolves (breaker_callback a) s (snd (allocate_attempts env a n key s))" for s
  proof (induction n arbitrary: s)
    case 0
    show ?case by (simp add: api_evolves_refl)
  next
    case (Suc n)
    obtain nonce s0 where n: "draw_nonce env 4 s = (nonce, s0)" by fastforce
    obtain r s1 where al: "allocate_file env a (key @ ''-'' @ nonce) s0 = (r, s1)" by fastforce
    have "api_evolves (breaker_callback a) s s1"
      using draw_nonce_evolves [OF n] keepsD [OF allocate_file_evolves al]
      by (rule api_evolves_trans)
    then show ?case
      using n al Suc.IH by (cases r) (auto intro: api_evolves_trans)
  qed
qed

lemma allocate_evolves [evolves]:
  "keeps (api_evolves (breaker_callback a)) (allocate_file_with_random_suffix env a key)"
  unfolding allocate_file_with_random_suffix_def by (rule allocate_attempts_evolves)

lemma get_entry_v1_evolves [evolves]:
  "keeps (api_evolves (breaker_callback a)) (get_entry_v1 env a keys)"
  unfolding get_entry_v1_def Let_def
  by (intro gha.and_then send_evolves) (simp add: keeps_def evolves_check_result)

lemma get_entry_v2_evolves [evolves]:
  "keeps (api_evolves (breaker_callback a)) (get_entry_v2 env a keys)"
  unfolding get_entry_v2_def
  by (cases keys) (auto simp del: lift_result_simp return_ok_simp intro!: evolution_steps evolves)

lemma get_cache_entry_evolves [evolves]:
  "keeps (api_evolves (breaker_callback a)) (get_cache_entry env a keys)"
  by (rule keepsI)
     (simp add: get_cache_entry_def api_evolves_refl keeps_snd [OF get_entry_v1_evolves]
        keeps_snd [OF get_entry_v2_evolves])

lemma get_file_url_evolves [evolves]:
  "keeps (api_evolves (breaker_callback a)) (get_file_url env a keys)"
  by (rule keepsI)
     (simp add: get_file_url_def api_evolves_refl keeps_snd [OF get_cache_entry_evolves])

lemma run_chunk_evolves [evolves]:
  "keeps (api_evolves (breaker_callback a)) (run_chunk env a cid task)"
  unfolding run_chunk_def Let_def
  by (intro gha.and_then send_evolves) (simp add: keeps_def evolves_check_result)

lemma run_chunks_evolves:
  "run_chunks env a cid ts s = (rs, t) \<Longrightarrow> api_evolves (breaker_callback a) s t"
  by (induction ts arbitrary: s rs)
     (auto simp: api_evolves_refl split: prod.splits
        intro: api_evolves_trans keepsD [OF run_chunk_evolves])

lemma commit_v1_evolves [evolves]:
  "keeps (api_evolves (breaker_callback a)) (commit_v1 env a cid offset)"
  unfolding commit_v1_def by (intro evolution_steps evolves)

lemma upload_v1_evolves [evolves]:
  "keeps (api_evolves (breaker_callback a)) (upload_v1 env a cid r)"
proof (rule keepsI)
  fix s
  obtain ts rr where sp: "spawn_chunks 0 r = (ts, rr)" by fastforce
  obtain rs s1 where rc: "run_chunks env a cid ts s = (rs, s1)" by fastforce
  have "keeps (api_evolves (breaker_callback a))
      (and_then (lift_result rr) (\<lambda>offset. and_then (lift_result (first_failure rs))
             (\<lambda>_. commit_v1 env a cid offset)))"
    by (intro evolution_steps evolves)
  then show "api_evolves (breaker_callback a) s (snd (upload_v1 env a cid r s))"
    using sp rc run_chunks_evolves [OF rc]
    by (auto simp: upload_v1_def intro: api_evolves_trans keeps_snd)
qed

lemma append_chunk_evolves [evolves]:
  "keeps (api_evolves (breaker_callback a)) (append_chunk env a cl url chunk)"
  unfolding append_chunk_def by (intro evolution_steps evolves)

lemma append_chunks_evolves [evolves]:
  "keeps (api_evolves (breaker_callback a)) (append_chunks env a cl url offset r)"
proof (rule keepsI)
  show "api_evolves (breaker_callback a) s (snd (append_chunks env a cl url offset r s))" for s
  proof (induction env a cl url offset r s rule: append_chunks.induct)
    case (1 env a cl url offset r s)
    obtain res r' where nc: "next_chunk r = (res, r')" by fastforce
    show ?case
    proof (cases "res")
      case (Ok chunk)
      obtain res1 s1 where ac: "append_chunk env a cl url chunk s = (res1, s1)" by fastforce
      from append_chunk_evolves ac have "api_evolves (breaker_callback a) s s1" by (rule keepsD)
      then show ?thesis
        using "1.IH" [OF nc [symmetric] Ok _ ac [symmetric]] nc Ok ac
        by (cases res1)
           (auto simp: append_chunks.simps [of env a cl url offset r s] api_evolves_refl
              intro: api_evolves_trans)
    qed (use nc in \<open>auto simp: append_chunks.simps [of env a cl url offset r s] api_evolves_refl\<close>)
  qed
qed

lemma finalize_v2_evolves [evolves]:
  "keeps (api_evolves (breaker_callback a)) (finalize_v2 env a key offset)"
  unfolding finalize_v2_def by (intro evolution_steps evolves) (auto intro!: evolution_steps evolves)

lemma upload_v2_evolves [evolves]:
  "keeps (api_evolves (breaker_callback a)) (upload_v2 env a su r)"
  unfolding upload_v2_def by (intro evolution_steps evolves)

lemma upload_file_evolves [evolves]:
  "keeps (api_evolves (breaker_callback a)) (upload_file env a al r)"
  by (rule keepsI)
     (simp add: upload_file_def api_evolves_refl keeps_snd [OF upload_v1_evolves]
        keeps_snd [OF upload_v2_evolves] split: file_allocation.split)

section \<open>The shared contract of the public operations\<close>

text \<open>
  An operation guarded by the breaker. \<open>refused\<close> says what it does when the breaker has tripped: it
  fails with \<open>CircuitBreakerTripped\<close>, and the state stays within \<open>quiet\<close> (unchanged, or changed
  only by drawing a nonce).
\<close>

locale guarded_op =
  fixes cb :: "'c \<Rightarrow> 'c"
    and quiet :: "('c, 'w, 'z) api_world_scheme \<Rightarrow> ('c, 'w, 'z) api_world_scheme"
    and oper :: "(('c, 'w, 'z) api_world_scheme, gha_error, 'a) comp"
  assumes refused: "tripped s \<Longrightarrow> oper s = (Err CircuitBreakerTripped, quiet s)"
    and evolves_oper: "keeps (api_evolves cb) oper"
begin

lemma monotone: "oper s = (r, t) \<Longrightarrow> tripped s \<Longrightarrow> tripped t"
  using keepsD [OF evolves_oper] by (rule api_evolves_monotone)

lemma frame: "oper s = (r, t) \<Longrightarrow> api_world.more t = api_world.more s"
  using keepsD [OF evolves_oper] by (rule api_evolves_more)

text \<open>The run that trips the breaker is the last one that does anything.\<close>

lemma then_refused:
  "oper s = (r, t) \<Longrightarrow> tripped t \<Longrightarrow> oper t = (Err CircuitBreakerTripped, quiet t)"
  by (rule refused)

lemma Ok_not_tripped: "oper s = (Ok x, t) \<Longrightarrow> \<not> tripped s"
  using refused by force

end

interpretation reserve: guarded_op "breaker_callback a" id "reserve_cache env a key cs"
  for env a key cs
  by unfold_locales (simp_all add: reserve_cache_def reserve_cache_evolves)

interpretation upload: guarded_op "breaker_callback a" id "upload_file env a al r"
  for env a al r
  by unfold_locales (simp_all add: upload_file_def upload_file_evolves)

interpretation lookup: guarded_op "breaker_callback a" id "get_file_url env a keys"
  for env a keys
  by unfold_locales (simp_all add: get_file_url_def get_file_url_evolves)

text \<open>
  Allocation draws its nonce before it asks for the file, so a refused allocation has advanced the
  random generator and nothing else.
\<close>

lemma draw_nonce_tripped [simp]: "tripped (snd (draw_nonce env n s)) = tripped s"
  by (induction env n s rule: draw_nonce.induct) (auto split: prod.splits)

lemma allocate_refused:
  "tripped s \<Longrightarrow> allocate_file_with_random_suffix env a key s =
     (Err CircuitBreakerTripped, snd (draw_nonce env 4 s))"
  using draw_nonce_tripped [of env 4 s]
  by (auto simp: allocate_file_with_random_suffix_def numeral_eq_Suc allocate_file_def
      reserve_cache_def split: prod.splits)

interpretation allocate:
  guarded_op "breaker_callback a" "\<lambda>s. snd (draw_nonce env 4 s)"
    "allocate_file_with_random_suffix env a key"
  for env a key
  by unfold_locales (simp_all add: allocate_refused allocate_evolves)

end
