(* ===== verification/Uploads.thy ===== *)
theory Uploads
  imports GhaFacts
begin

text \<open>
  Uploading: how a source is cut into chunks, why the order in which the chunks of a version 1
  upload reach the service does not matter, and what a successful upload of either version says
  about the source. \<open>offsets\<close> and \<open>write_chunk\<close> are the specification: where each chunk belongs, and
  what a ranged write does to a file.
\<close>

section \<open>Cutting a source into chunks\<close>

fun offsets :: "usize \<Rightarrow> bytes list \<Rightarrow> usize list" where
  "offsets off [] = []"
| "offsets off (c # cs) = off # offsets (off + of_nat (length c)) cs"

definition read_error :: "io_error \<Rightarrow> gha_error" where
  "read_error e = IoError e ''Reading a chunk during upload''"

text \<open>
  What the reading loop spawns: nonempty chunks of at most \<open>CHUNK_SIZE\<close> bytes at their running
  offsets, covering the whole source when it ends well, and a prefix of it otherwise.
\<close>

definition cuts_source :: "usize \<Rightarrow> reader \<Rightarrow> chunk_task list \<Rightarrow> (gha_error, usize) result \<Rightarrow> bool" where
  "cuts_source off r ts res \<longleftrightarrow>
     (\<forall>c \<in> set (map snd ts). c \<noteq> [] \<and> length c \<le> CHUNK_SIZE)
     \<and> map fst ts = offsets off (map snd ts)
     \<and> (case reader_ending r of
          None \<Rightarrow> concat (map snd ts) = reader_content r
                  \<and> res = Ok (off + of_nat (length (reader_content r)))
        | Some e \<Rightarrow> (\<exists>rest. reader_content r = concat (map snd ts) @ rest \<and> length rest < CHUNK_SIZE)
                    \<and> res = Err (read_error e))"

lemma CHUNK_SIZE_pos: "0 < CHUNK_SIZE"
  by (simp add: CHUNK_SIZE_def)

lemma spawn_chunks_cuts: "spawn_chunks off r = (ts, res) \<Longrightarrow> cuts_source off r ts res"
proof (induction off r arbitrary: ts res rule: spawn_chunks.induct)
  case (1 off r)
  obtain nr r' where nc: "next_chunk r = (nr, r')" by fastforce
  show ?case
  proof (cases nr)
    case (Ok chunk)
    note data = next_chunk_Ok [OF nc [unfolded Ok]]
    show ?thesis
    proof (cases "chunk = []")
      case True
      with nc Ok "1.prems" data CHUNK_SIZE_pos show ?thesis
        by (simp add: spawn_chunks.simps [of off r] cuts_source_def)
    next
      case False
      obtain ts' res' where rest: "spawn_chunks (off + of_nat (length chunk)) r' = (ts', res')"
        by fastforce
      with nc Ok False "1.prems" have ts: "ts = (off, chunk) # ts'" "res = res'"
        by (simp_all add: spawn_chunks.simps [of off r])
      from "1.IH" [OF nc [symmetric] Ok False rest]
      have "cuts_source (off + of_nat (length chunk)) r' ts' res'" .
      with ts data False show ?thesis
        by (auto simp: cuts_source_def ac_simps split: option.splits)
    qed
  next
    case (Err e)
    with nc "1.prems" have "ts = []" "res = Err e"
      by (simp_all add: spawn_chunks.simps [of off r])
    moreover from nc Err obtain io where "reader_ending r = Some io" "e = read_error io"
      by (auto simp: read_error_def dest: next_chunk_Err(1))
    moreover from nc Err have "length (reader_content r) < CHUNK_SIZE"
      by (auto dest: next_chunk_Err(2))
    ultimately show ?thesis by (simp add: cuts_source_def)
  next
    case (Panic p)
    with nc next_chunk_no_panic show ?thesis by simp
  qed
qed

lemma spawn_chunks_complete:
  assumes "spawn_chunks 0 r = (ts, res)" and "reader_ending r = None"
  shows "concat (map snd ts) = reader_content r"
    and "map fst ts = offsets 0 (map snd ts)"
    and "res = Ok (of_nat (length (reader_content r)))"
  using spawn_chunks_cuts [OF assms(1)] assms(2) by (simp_all add: cuts_source_def)

text \<open>A source of less than one chunk is sent as one chunk (or none, when it is empty).\<close>

lemma next_chunk_short:
  assumes "reader_ending r = None" and "length (reader_content r) < CHUNK_SIZE"
  shows "\<exists>r'. next_chunk r = (Ok (reader_content r), r') \<and> reader_content r' = [] \<and> reader_ending r' = None"
  using src.read_chunk_short [OF assms] by (auto simp: next_chunk_def)

lemma spawn_chunks_short:
  assumes "reader_ending r = None" and "length (reader_content r) < CHUNK_SIZE"
  shows "spawn_chunks off r =
     ((if reader_content r = [] then [] else [(off, reader_content r)]),
      Ok (off + of_nat (length (reader_content r))))"
proof -
  from next_chunk_short [OF assms] obtain r' where
    r': "next_chunk r = (Ok (reader_content r), r')" "reader_content r' = []" "reader_ending r' = None"
    by auto
  from next_chunk_short [OF r'(3)] r'(2) CHUNK_SIZE_pos obtain r'' where
    "next_chunk r' = (Ok [], r'')" by auto
  then have "spawn_chunks off' r' = ([], Ok off')" for off'
    by (simp add: spawn_chunks.simps [of off' r'])
  with r' show ?thesis by (simp add: spawn_chunks.simps [of off r])
qed

section \<open>Ranged writes commute\<close>

text \<open>A file under construction: the bytes known so far, by position.\<close>

type_synonym partial_file = "nat \<Rightarrow> char option"

definition write_chunk :: "chunk_task \<Rightarrow> partial_file \<Rightarrow> partial_file" where
  "write_chunk t f =
     (\<lambda>i. if unat (fst t) \<le> i \<and> i < unat (fst t) + length (snd t)
          then Some (snd t ! (i - unat (fst t))) else f i)"

definition covers :: "chunk_task \<Rightarrow> nat \<Rightarrow> bool" where
  "covers t i \<longleftrightarrow> unat (fst t) \<le> i \<and> i < unat (fst t) + length (snd t)"

definition slice_of :: "bytes \<Rightarrow> chunk_task \<Rightarrow> bool" where
  "slice_of d t \<longleftrightarrow>
     (\<forall>j < length (snd t). unat (fst t) + j < length d \<and> d ! (unat (fst t) + j) = snd t ! j)"

definition file_of :: "bytes \<Rightarrow> partial_file" where
  "file_of d = (\<lambda>i. if i < length d then Some (d ! i) else None)"

text \<open>
  Writing slices of one file in any order, and any number of times, leaves exactly the covered
  part of it.
\<close>

lemma fold_write_chunk:
  assumes "\<forall>t \<in> set ts. slice_of d t"
    and "\<And>i. f i = (if P i then Some (d ! i) else None)"
  shows "fold write_chunk ts f i = (if P i \<or> (\<exists>t \<in> set ts. covers t i) then Some (d ! i) else None)"
  using assms
proof (induction ts arbitrary: f P)
  case Nil
  then show ?case by simp
next
  case (Cons t ts)
  have "write_chunk t f i = (if P i \<or> covers t i then Some (d ! i) else None)" for i
  proof (cases "covers t i")
    case True
    then have "unat (fst t) + (i - unat (fst t)) = i" "i - unat (fst t) < length (snd t)"
      by (auto simp: covers_def)
    with Cons.prems(1) have "d ! i = snd t ! (i - unat (fst t))"
      by (metis list.set_intros(1) slice_of_def)
    with True show ?thesis by (simp add: write_chunk_def covers_def)
  next
    case False
    then have "write_chunk t f i = f i" by (auto simp: write_chunk_def covers_def)
    with False show ?thesis using Cons.prems(2) [of i] by simp
  qed
  from Cons.IH [OF _ this] Cons.prems(1) show ?case by auto
qed

lemma offsets_slices:
  assumes "unat off + length (concat cs) = length d" and "drop (unat off) d = concat cs"
    and "length d < 2 ^ 64"
  shows "(\<forall>t \<in> set (zip (offsets off cs) cs). slice_of d t)
    \<and> (\<forall>i. unat off \<le> i \<and> i < length d \<longrightarrow> (\<exists>t \<in> set (zip (offsets off cs) cs). covers t i))"
  using assms
proof (induction cs arbitrary: off)
  case Nil
  then show ?case by simp
next
  case (Cons c cs)
  define off' where "off' = off + of_nat (length c)"
  have "unat off + length c < 2 ^ 64" using Cons.prems by simp
  then have u: "unat off' = unat off + length c"
    by (simp add: off'_def unat_word_ariths unat_of_nat take_bit_eq_mod)
  have dr: "drop (unat off') d = concat cs"
    using Cons.prems(2) by (metis append_eq_conv_conj concat.simps(2) drop_drop add.commute u)
  with u Cons.prems have IH: "\<forall>t \<in> set (zip (offsets off' cs) cs). slice_of d t"
    "\<forall>i. unat off' \<le> i \<and> i < length d \<longrightarrow> (\<exists>t \<in> set (zip (offsets off' cs) cs). covers t i)"
    using Cons.IH [of off'] by simp_all
  have "slice_of d (off, c)"
    unfolding slice_of_def
  proof (intro allI impI conjI)
    fix j assume j: "j < length (snd (off, c))"
    then show "unat (fst (off, c)) + j < length d" using Cons.prems(1) by simp
    then have "d ! (unat off + j) = drop (unat off) d ! j" by simp
    also have "\<dots> = c ! j" using Cons.prems(2) j by (simp add: nth_append)
    finally show "d ! (unat (fst (off, c)) + j) = snd (off, c) ! j" by simp
  qed
  moreover have "covers (off, c) i" if "unat off \<le> i" "\<not> unat off' \<le> i" for i
    using that u by (simp add: covers_def)
  ultimately show ?case
    using IH by (auto simp: off'_def [symmetric])
qed

lemma zip_fst_snd: "map fst ts = xs \<Longrightarrow> zip xs (map snd ts) = ts"
  by (metis zip_map_fst_snd)

text \<open>
  The chunks of a source that ends well rebuild it whatever the order in which they are written
  (and even when a chunk is written more than once).
\<close>

lemma chunks_rebuild_source:
  assumes "spawn_chunks 0 r = (ts, res)" and "reader_ending r = None"
    and "length (reader_content r) < 2 ^ 64" and "set ts' = set ts"
  shows "fold write_chunk ts' (\<lambda>_. None) = file_of (reader_content r)"
proof
  fix i
  note c = spawn_chunks_complete [OF assms(1,2)]
  have ts: "ts = zip (offsets 0 (map snd ts)) (map snd ts)"
    using c(2) by (simp add: zip_fst_snd)
  have "\<forall>t \<in> set ts. slice_of (reader_content r) t"
    and cov: "\<forall>i. i < length (reader_content r) \<longrightarrow> (\<exists>t \<in> set ts. covers t i)"
    using offsets_slices [of 0 "map snd ts" "reader_content r"] c(1) assms(3) ts by auto
  then have "fold write_chunk ts' (\<lambda>_. None) i =
      (if \<exists>t \<in> set ts. covers t i then Some (reader_content r ! i) else None)"
    using fold_write_chunk [of ts' "reader_content r" "\<lambda>_. None" "\<lambda>_. False" i] assms(4) by simp
  moreover have "(\<exists>t \<in> set ts. covers t i) \<longleftrightarrow> i < length (reader_content r)"
  proof
    assume "\<exists>t \<in> set ts. covers t i"
    then obtain t where "t \<in> set ts" and t: "covers t i" by blast
    then have "slice_of (reader_content r) t"
      using \<open>\<forall>t \<in> set ts. slice_of (reader_content r) t\<close> by blast
    with t show "i < length (reader_content r)"
      unfolding slice_of_def covers_def
      by (metis add_diff_inverse_nat linorder_not_less nat_add_left_cancel_less)
  qed (use cov in blast)
  ultimately show "fold write_chunk ts' (\<lambda>_. None) i = file_of (reader_content r) i"
    by (simp add: file_of_def)
qed

section \<open>What a successful upload has sent\<close>

lemma first_failure_Ok: "first_failure rs = Ok () \<longleftrightarrow> (\<forall>r \<in> set rs. r = Ok ())"
  by (induction rs rule: first_failure.induct) auto

lemma first_failure_Err: "first_failure rs = Err e \<Longrightarrow> Err e \<in> set rs"
  by (induction rs rule: first_failure.induct) auto

text \<open>
  The version 2 loop sends the chunks that version 1 would spawn, in order, stopping at the first
  one that fails: \<open>append_all\<close> is that reference loop over a list.
\<close>

fun append_all ::
  "'w gha_env \<Rightarrow> 'c api \<Rightarrow> http_client \<Rightarrow> string \<Rightarrow> bytes list \<Rightarrow> (('c, 'w, 'z) api_world_scheme, gha_error, unit) comp"
where
  "append_all env a cl url [] s = (Ok (), s)"
| "append_all env a cl url (c # cs) s =
     and_then (append_chunk env a cl url c) (\<lambda>_. append_all env a cl url cs) s"

lemma append_chunks_eq:
  "spawn_chunks off r = (ts, res) \<Longrightarrow>
   append_chunks env a cl url off r s =
     and_then (append_all env a cl url (map snd ts)) (\<lambda>_. lift_result res) s"
proof (induction env a cl url off r s arbitrary: ts res rule: append_chunks.induct)
  case (1 env a cl url off r s)
  obtain nr r' where nc: "next_chunk r = (nr, r')" by fastforce
  show ?case
  proof (cases nr)
    case (Ok chunk)
    show ?thesis
    proof (cases "chunk = []")
      case True
      with nc Ok "1.prems" show ?thesis
        by (auto simp: spawn_chunks.simps [of off r] append_chunks.simps [of env a cl url off r s]
            and_then_def)
    next
      case False
      obtain ts' res' where rest: "spawn_chunks (off + of_nat (length chunk)) r' = (ts', res')"
        by fastforce
      with nc Ok False "1.prems" have ts: "ts = (off, chunk) # ts'" "res = res'"
        by (simp_all add: spawn_chunks.simps [of off r])
      obtain r1 s1 where ac: "append_chunk env a cl url chunk s = (r1, s1)" by fastforce
      from "1.IH" [OF nc [symmetric] Ok False ac [symmetric] _ rest] nc Ok False ac ts
      show ?thesis
        by (cases r1) (simp_all add: append_chunks.simps [of env a cl url off r s] and_then_def)
    qed
  qed (use nc "1.prems" in \<open>auto simp: spawn_chunks.simps [of off r]
        append_chunks.simps [of env a cl url off r s] and_then_def\<close>)
qed

lemma append_chunks_OkD:
  assumes "append_chunks env a cl url off r s = (Ok n, t)"
  shows "reader_ending r = None \<and> n = off + of_nat (length (reader_content r))"
proof -
  obtain ts res where sp: "spawn_chunks off r = (ts, res)" by fastforce
  from assms [unfolded append_chunks_eq [OF sp]] have "res = Ok n"
    by (auto dest!: and_then_OkD)
  with spawn_chunks_cuts [OF sp] show ?thesis
    by (auto simp: cuts_source_def split: option.splits)
qed

lemma finalize_v2_OkD: "finalize_v2 env a key off s = (Ok n, t) \<Longrightarrow> n = off"
  by (auto simp: finalize_v2_def inspect_err_def and_then_def
      split: prod.splits result.splits if_splits)

lemma commit_v1_OkD: "commit_v1 env a cid off s = (Ok n, t) \<Longrightarrow> n = off"
  by (auto simp: commit_v1_def dest!: and_then_OkD)

lemma upload_v2_OkD:
  assumes "upload_v2 env a su r s = (Ok n, t)"
  shows "reader_ending r = None \<and> n = of_nat (length (reader_content r))"
  using assms unfolding upload_v2_def
  by (auto simp del: lift_result_simp dest!: and_then_OkD append_chunks_OkD finalize_v2_OkD)

lemma upload_v1_OkD:
  assumes "upload_v1 env a cid r s = (Ok n, t)"
  shows "reader_ending r = None \<and> n = of_nat (length (reader_content r))"
proof -
  obtain ts res where sp: "spawn_chunks 0 r = (ts, res)" by fastforce
  obtain rs s1 where rc: "run_chunks env a cid ts s = (rs, s1)" by fastforce
  from assms sp rc have "res = Ok n"
    by (auto simp: upload_v1_def dest!: and_then_OkD commit_v1_OkD)
  with spawn_chunks_cuts [OF sp] show ?thesis
    by (auto simp: cuts_source_def split: option.splits)
qed

lemma upload_file_OkD:
  "upload_file env a al r s = (Ok n, t) \<Longrightarrow>
   reader_ending r = None \<and> n = of_nat (length (reader_content r))"
  by (auto simp: upload_file_def dest: upload_v1_OkD upload_v2_OkD
      split: if_splits file_allocation.splits)

section \<open>Allocated keys\<close>

lemma draw_nonce_length: "length (fst (draw_nonce env n s)) = n"
  by (induction env n s rule: draw_nonce.induct) (auto split: prod.splits)

lemma reserve_v2_OkD:
  "reserve_v2 env a key s = (Ok al, t) \<Longrightarrow> \<exists>su. al = V2 su \<and> su_key su = key"
  by (auto simp: reserve_v2_def dest!: and_then_OkD)

lemma reserve_v1_OkD: "reserve_v1 env a key cs s = (Ok al, t) \<Longrightarrow> \<exists>cid. al = V1 cid"
  by (auto simp: reserve_v1_def Let_def dest!: and_then_OkD)

lemma allocate_attempts_key:
  "allocate_attempts env a n key s = (Ok (V2 su), t) \<Longrightarrow>
   \<exists>nonce. length nonce = 4 \<and> su_key su = key @ ''-'' @ nonce"
proof (induction n arbitrary: s)
  case (Suc n)
  obtain nonce s0 where n: "draw_nonce env 4 s = (nonce, s0)" by fastforce
  obtain r s1 where r: "reserve_cache env a (key @ ''-'' @ nonce) None s0 = (r, s1)" by fastforce
  show ?case
  proof (cases r)
    case (Ok al)
    with n r Suc.prems have "reserve_cache env a (key @ ''-'' @ nonce) None s0 = (Ok (V2 su), s1)"
      by (simp add: allocate_file_def)
    then have "su_key su = key @ ''-'' @ nonce"
      by (auto simp: reserve_cache_def split: if_splits dest: reserve_v1_OkD reserve_v2_OkD)
    moreover have "length nonce = 4" using n draw_nonce_length [of env 4 s] by simp
    ultimately show ?thesis by blast
  qed (use n r Suc in \<open>auto simp: allocate_file_def split: if_splits\<close>)
qed simp

text \<open>A version 2 reservation never fails with the error that is taken for a collision.\<close>

lemma reserve_v2_no_collision: "reserve_v2 env a key s = (Err e, t) \<Longrightarrow> \<not> is_collision e"
  by (auto simp: reserve_v2_def inspect_err_def call_twirp_def
      split: prod.splits sum.splits if_splits result.splits elim!: and_then_cases collisionE)

lemma allocate_v2_once:
  assumes "\<not> uses_v1 a"
  shows "allocate_file_with_random_suffix env a key s =
     (case draw_nonce env 4 s of (nonce, s') \<Rightarrow> allocate_file env a (key @ ''-'' @ nonce) s')"
proof -
  obtain nonce s0 where n: "draw_nonce env 4 s = (nonce, s0)" by fastforce
  obtain r s1 where r: "allocate_file env a (key @ ''-'' @ nonce) s0 = (r, s1)" by fastforce
  have "\<not> is_collision e" if "r = Err e" for e
    using r that assms
    by (auto simp: allocate_file_def reserve_cache_def split: if_splits dest: reserve_v2_no_collision)
  then have "allocate_attempts env a (Suc k) key s =
     (case draw_nonce env 4 s of (nonce, s') \<Rightarrow> allocate_file env a (key @ ''-'' @ nonce) s')" for k
    using n r by (cases r) simp_all
  from this [of 4] show ?thesis by (simp add: allocate_file_with_random_suffix_def)
qed

section \<open>Which errors trip the breaker\<close>

text \<open>
  An operation \<open>reports\<close> exhaustion when every error of that kind that it returns has tripped the
  breaker.
\<close>

definition reports_exhaustion :: "(('c, 'w, 'z) api_world_scheme, gha_error, 'a) comp \<Rightarrow> bool" where
  "reports_exhaustion m \<longleftrightarrow> (\<forall>s e t. m s = (Err e, t) \<longrightarrow> exhausts_resources e \<longrightarrow> tripped t)"

named_theorems reporting \<open>operations that report exhaustion\<close>

lemma reporting_and_then [reporting]:
  "reports_exhaustion m \<Longrightarrow> (\<And>x. reports_exhaustion (f x)) \<Longrightarrow> reports_exhaustion (and_then m f)"
  unfolding reports_exhaustion_def by (blast elim: and_then_cases dest: sym)

lemma reporting_return_ok [reporting]: "reports_exhaustion (return_ok x)"
  by (simp add: reports_exhaustion_def return_ok_def)

lemma reporting_inspect [reporting]: "reports_exhaustion (inspect_err (check_err a) m)"
  by (auto simp: reports_exhaustion_def inspect_err_def check_err_def
      split: prod.splits result.splits if_splits)

lemma reporting_send [reporting]: "reports_exhaustion (send env cl rq)"
  by (auto simp: reports_exhaustion_def send_def split: prod.splits sum.splits)

lemma reportsD:
  "reports_exhaustion m \<Longrightarrow> m s = (Err e, t) \<Longrightarrow> exhausts_resources e \<Longrightarrow> tripped t"
  by (simp add: reports_exhaustion_def)

lemma reportsI:
  "(\<And>s e t. m s = (Err e, t) \<Longrightarrow> exhausts_resources e \<Longrightarrow> tripped t) \<Longrightarrow> reports_exhaustion m"
  by (simp add: reports_exhaustion_def)

lemma reporting_lift_read [reporting]:
  "(\<And>e. res = Err e \<Longrightarrow> \<not> exhausts_resources e) \<Longrightarrow> reports_exhaustion (lift_result res)"
  by (auto simp: reports_exhaustion_def lift_result_def)

lemma reporting_reserve_v1 [reporting]: "reports_exhaustion (reserve_v1 env a key cs)"
  unfolding reserve_v1_def Let_def
proof (rule reporting_and_then [OF reporting_send])
  fix res
  show "reports_exhaustion (\<lambda>s. and_then (lift_result (check_json env (json_cache_id env) res))
      (\<lambda>cid. return_ok (V1 cid)) (check_result a (check_json env (json_cache_id env) res) s))"
    by (auto simp: reports_exhaustion_def and_then_def check_err_def split: result.splits if_splits)
qed

lemma reporting_reserve_v2 [reporting]: "reports_exhaustion (reserve_v2 env a key)"
  unfolding reserve_v2_def by (intro reporting)

lemma reporting_reserve [reporting]: "reports_exhaustion (reserve_cache env a key cs)"
  by (rule reportsI)
     (auto simp: reserve_cache_def split: if_splits
        intro: reportsD [OF reporting_reserve_v1] reportsD [OF reporting_reserve_v2])

lemma reporting_allocate_attempts: "reports_exhaustion (allocate_attempts env a n key)"
proof (induction n)
  case 0
  show ?case by (simp add: reports_exhaustion_def)
next
  case (Suc n)
  show ?case
  proof (rule reportsI)
    fix s :: "('a, 'b, 'c) api_world_scheme" and e t
    assume run: "allocate_attempts env a (Suc n) key s = (Err e, t)" and ex: "exhausts_resources e"
    obtain nonce s0 where n: "draw_nonce env 4 s = (nonce, s0)" by fastforce
    obtain r s1 where r: "reserve_cache env a (key @ ''-'' @ nonce) None s0 = (r, s1)" by fastforce
    show "tripped t"
    proof (cases r)
      case (Err e')
      then show ?thesis
        using run n r reportsD [OF reporting_reserve r [unfolded Err]] reportsD [OF Suc.IH] ex
        by (auto simp: allocate_file_def split: if_splits)
    qed (use run n r in \<open>auto simp: allocate_file_def\<close>)
  qed
qed

lemma reporting_allocate [reporting]:
  "reports_exhaustion (allocate_file_with_random_suffix env a key)"
  unfolding allocate_file_with_random_suffix_def by (rule reporting_allocate_attempts)

lemma reporting_get_entry_v1 [reporting]: "reports_exhaustion (get_entry_v1 env a keys)"
  unfolding get_entry_v1_def Let_def
proof (rule reporting_and_then [OF reporting_send])
  fix res
  show "reports_exhaustion (\<lambda>s.
      (case check_json env (json_cache_entry env) res of
         Ok entry \<Rightarrow> Ok (Some (archive_location entry))
       | Err (DecodeError status b e) \<Rightarrow>
           if status = NO_CONTENT then Ok None else Err (DecodeError status b e)
       | Err e \<Rightarrow> Err e
       | Panic p \<Rightarrow> Panic p, check_result a (check_json env (json_cache_entry env) res) s))"
    by (auto simp: reports_exhaustion_def check_err_def
        split: result.splits if_splits gha_error.splits)
qed

lemma reporting_get_entry_v2 [reporting]: "reports_exhaustion (get_entry_v2 env a keys)"
  unfolding get_entry_v2_def by (cases keys) (auto simp del: lift_result_simp intro: reporting)

lemma reporting_lookup [reporting]: "reports_exhaustion (get_file_url env a keys)"
  by (rule reportsI)
     (auto simp: get_file_url_def get_cache_entry_def split: if_splits
        intro: reportsD [OF reporting_get_entry_v1] reportsD [OF reporting_get_entry_v2])

text \<open>Uploading over version 1: a chunk that fails with exhaustion trips the breaker for good.\<close>

lemma reporting_run_chunk: "reports_exhaustion (run_chunk env a cid task)"
  unfolding run_chunk_def Let_def
proof (rule reporting_and_then [OF reporting_send])
  fix res
  show "reports_exhaustion (\<lambda>s. (check env res, check_result a (check env res) s))"
    by (auto simp: reports_exhaustion_def check_err_def)
qed

lemma run_chunks_reports:
  "run_chunks env a cid ts s = (rs, t) \<Longrightarrow> Err e \<in> set rs \<Longrightarrow> exhausts_resources e \<Longrightarrow> tripped t"
proof (induction ts arbitrary: s rs)
  case Nil
  then show ?case by simp
next
  case (Cons task ts)
  obtain r s1 where r: "run_chunk env a cid task s = (r, s1)" by fastforce
  obtain rs' where rs: "run_chunks env a cid ts s1 = (rs', t)" "rs = r # rs'"
    using Cons.prems(1) r by (auto split: prod.splits)
  show ?case
  proof (cases "r = Err e")
    case True
    with r Cons.prems(3) have "tripped s1" by (auto intro: reportsD [OF reporting_run_chunk])
    with run_chunks_evolves [OF rs(1)] show ?thesis by (rule api_evolves_monotone)
  next
    case False
    with rs Cons.prems Cons.IH show ?thesis by auto
  qed
qed

lemma reporting_commit [reporting]: "reports_exhaustion (commit_v1 env a cid off)"
  unfolding commit_v1_def by (intro reporting)

lemma reporting_upload_v1: "reports_exhaustion (upload_v1 env a cid r)"
proof (rule reportsI)
  fix s :: "('a, 'b, 'c) api_world_scheme" and e t
  assume run: "upload_v1 env a cid r s = (Err e, t)" and ex: "exhausts_resources e"
  obtain ts res where sp: "spawn_chunks 0 r = (ts, res)" by fastforce
  obtain rs s1 where rc: "run_chunks env a cid ts s = (rs, s1)" by fastforce
  from spawn_chunks_cuts [OF sp] have res: "res = Err e' \<Longrightarrow> \<not> exhausts_resources e'" for e'
    by (auto simp: cuts_source_def read_error_def split: option.splits)
  from run sp rc have "and_then (lift_result res) (\<lambda>offset. and_then (lift_result (first_failure rs))
      (\<lambda>_. commit_v1 env a cid offset)) s1 = (Err e, t)"
    by (simp add: upload_v1_def)
  then show "tripped t"
    using res ex run_chunks_reports [OF rc first_failure_Err]
    by (auto simp del: lift_result_simp simp: lift_result_def elim!: and_then_cases
        intro: reportsD [OF reporting_commit])
qed

end
