(* ===== verification/Server.thy ===== *)
theory Server
  imports Telemetry NarInfo Uploads
begin

text \<open>
  The server's shared state (\<open>StateInner\<close> of \<open>magic-nix-cache/src/main.rs\<close>, \<open>GhaCache\<close> of \<open>gha.rs\<close>),
  its error type and the status an error is answered with (\<open>error.rs\<close>), and \<open>server_env\<close>: what the
  server takes from the Nix store library (\<open>attic\<close>), the file system and axum, on top of \<open>gha_env\<close>.

  The state extends \<open>api_world\<close> with the telemetry report as the state the breaker's callback
  writes, so every operation of the API client runs on it directly. Locks and atomics do not
  appear: a handler runs as one step here (\<open>ChunkPool\<close> has the interleavings inside an upload).
\<close>

section \<open>Errors\<close>

datatype server_error =
    Api gha_error
  | NotFound
  | BadRequest
  | Io io_error string
  | GHADisabled
  | FlakeHub string
  | FlakeHubHttp string
  | GetCacheName status_code string
  | Netrc string
  | MissingCreds string
  | Attic string
  | BadUrl string
  | Config string
  | Internal string

definition IM_A_TEAPOT :: status_code where "IM_A_TEAPOT = 418"
definition NOT_FOUND :: status_code where "NOT_FOUND = 404"
definition BAD_REQUEST :: status_code where "BAD_REQUEST = 400"
definition INTERNAL_SERVER_ERROR :: status_code where "INTERNAL_SERVER_ERROR = 500"

text \<open>The status of \<open>into_response\<close>; the arms overlap as in the source, the first match wins.\<close>

fun response_status :: "server_error \<Rightarrow> status_code" where
  "response_status (Api (ApiError status info)) =
     (if status = TOO_MANY_REQUESTS then TOO_MANY_REQUESTS else IM_A_TEAPOT)"
| "response_status (Api _) = IM_A_TEAPOT"
| "response_status NotFound = NOT_FOUND"
| "response_status BadRequest = BAD_REQUEST"
| "response_status _ = INTERNAL_SERVER_ERROR"

section \<open>State\<close>

type_synonym store_path_name = string

text \<open>
  \<open>worker_handle\<close> says whether \<open>shutdown\<close> has still to take the worker's handle, \<open>worker_result\<close> what
  the worker ended with (a panic included) once it has: from then on its receiver is dropped.
\<close>

datatype gha_request = Shutdown | Upload store_path_name

record 'w server = "(telemetry_report, 'w) api_world" +
  narinfo_negative_cache :: "string set"
  channel :: "gha_request list"
  worker_result :: "(server_error, unit) result option"
  worker_handle :: bool
  worker_done :: "store_path_name set"
  original_paths :: "bytes set"
  flakehub_on :: bool
  shutdown_cancelled :: bool

text \<open>
  The parts of the state that are fixed at startup: the API client when the GitHub cache is on, the
  upstream cache, whether the store is diffed (\<open>original_paths.is_some()\<close>), the debug log file.
\<close>

record server_config =
  gha_api :: "telemetry_report api option"
  upstream :: "string option"
  diff_store :: bool
  logfile :: "bytes option"

text \<open>\<open>attic\<close>'s \<open>ValidPathInfo\<close>, as far as it is used; the provenance is a JSON value.\<close>

type_synonym json = string

record path_info =
  pi_path :: store_path_name
  pi_nar_hash :: attic_hash
  pi_nar_size :: "64 word"
  pi_references :: "bytes list"
  pi_ca :: "string option"
  pi_provenance :: "json option"

text \<open>
  What the server takes from outside. \<open>hash_order\<close> is the order a \<open>HashSet\<close> is iterated in, which the
  standard library leaves open; \<open>nar_from_path_zstd\<close> is the compressed NAR stream of a path.
\<close>

record 'w server_env = "'w gha_env" +
  nar_format :: nar_env
  query_path_info :: "store_path_name \<Rightarrow> 'w \<Rightarrow> (string + path_info) \<times> 'w"
  nar_from_path_zstd :: "store_path_name \<Rightarrow> 'w \<Rightarrow> reader \<times> 'w"
  get_full_path :: "store_path_name \<Rightarrow> bytes"
  store_path_hash :: "store_path_name \<Rightarrow> string"
  hash_base32 :: "attic_hash \<Rightarrow> string"
  compute_fs_closure_multi :: "store_path_name list \<Rightarrow> 'w \<Rightarrow> (string + store_path_name list) \<times> 'w"
  follow_store_path :: "bytes \<Rightarrow> 'w \<Rightarrow> (string + store_path_name) \<times> 'w"
  json_to_string :: "json \<Rightarrow> string option"
  store_dir :: bytes
  read_store_dir :: "'w \<Rightarrow> (io_error + (io_error + bytes) list) \<times> 'w"
  hash_order :: "bytes set \<Rightarrow> bytes list"
  push_queue_many :: "store_path_name list \<Rightarrow> 'w \<Rightarrow> (string + unit) \<times> 'w"
  push_session_wait :: "'w \<Rightarrow> (string + store_path_name list) \<times> 'w"
  json_built_path :: "bytes \<Rightarrow> string + bytes \<times> bytes list"
  read_logfile :: "bytes \<Rightarrow> 'w \<Rightarrow> (io_error + bytes) \<times> 'w"

text \<open>An effect of the outside world on the server's state, with its error injected.\<close>

definition outside ::
  "('w \<Rightarrow> ('x + 'a) \<times> 'w) \<Rightarrow> ('x \<Rightarrow> server_error) \<Rightarrow> ('w server, server_error, 'a) comp" where
  "outside f wrap s =
     (case f (ext s) of
        (Inl e, w) \<Rightarrow> (Err (wrap e), s\<lparr>ext := w\<rparr>)
      | (Inr x, w) \<Rightarrow> (Ok x, s\<lparr>ext := w\<rparr>))"

text \<open>\<open>metrics.<counter>.incr()\<close> and \<open>.set(n)\<close>, by the counter's update function.\<close>

definition bump :: "((metric \<Rightarrow> metric) \<Rightarrow> telemetry_report \<Rightarrow> telemetry_report) \<Rightarrow> ('w server, 'e, unit) comp" where
  "bump upd = modify (\<lambda>s. s\<lparr>cb_state := upd incr (cb_state s)\<rparr>)"

definition record_count ::
  "((metric \<Rightarrow> metric) \<Rightarrow> telemetry_report \<Rightarrow> telemetry_report) \<Rightarrow> nat \<Rightarrow> ('w server, 'e, unit) comp" where
  "record_count upd n = modify (\<lambda>s. s\<lparr>cb_state := upd (set_metric n) (cb_state s)\<rparr>)"

text \<open>The callback that \<open>GhaCache::new\<close> gives to the API client.\<close>

definition mark_tripped :: "telemetry_report \<Rightarrow> telemetry_report" where
  "mark_tripped m = m\<lparr>tripped_429 := True\<rparr>"

text \<open>\<open>gha_cache.api.<operation>.await?\<close>: the client's error becomes \<open>Error::Api\<close>.\<close>

definition api_call :: "('w server, gha_error, 'a) comp \<Rightarrow> ('w server, server_error, 'a) comp" where
  "api_call m = map_err_comp Api m"

section \<open>Storing a file\<close>

text \<open>
  Every upload of the server is an allocation followed by an upload of a source under it:
  \<open>put_narinfo\<close>, \<open>put_nar\<close> and both halves of \<open>upload_path\<close>.
\<close>

definition store_file ::
  "('w gha_env) \<Rightarrow> telemetry_report api \<Rightarrow> string \<Rightarrow> reader \<Rightarrow> ('w server, server_error, usize) comp" where
  "store_file env a key r =
     and_then (api_call (allocate_file_with_random_suffix env a key))
       (\<lambda>allocation. api_call (upload_file env a allocation r))"

section \<open>Frames\<close>

text \<open>
  The server's own fields, for lemmas about operations that leave all of them alone. An operation
  of the API client does, because it keeps \<open>more\<close>.
\<close>

lemma server_more_eq:
  assumes "api_world.more s = api_world.more (t :: 'w server)"
  shows "narinfo_negative_cache s = narinfo_negative_cache t"
    "channel s = channel t" "worker_result s = worker_result t" "worker_handle s = worker_handle t"
    "worker_done s = worker_done t" "original_paths s = original_paths t"
    "flakehub_on s = flakehub_on t" "shutdown_cancelled s = shutdown_cancelled t"
  using assms by (cases s; cases t; simp)+

definition client_evolves :: "telemetry_report api \<Rightarrow> 'w server \<Rightarrow> 'w server \<Rightarrow> bool" where
  "client_evolves a = api_evolves (breaker_callback a)"

interpretation cl: evolution "client_evolves a" for a
  unfolding client_evolves_def by (rule gha.evolution_axioms)

lemma api_call_evolves:
  "keeps (api_evolves (breaker_callback a)) m \<Longrightarrow> keeps (client_evolves a) (api_call m)"
  unfolding api_call_def client_evolves_def by (rule gha.map_err_comp)

lemma store_file_evolves: "keeps (client_evolves a) (store_file env a key r)"
  unfolding store_file_def
  by (intro cl.and_then api_call_evolves allocate_evolves upload_file_evolves)

lemma client_evolves_more: "client_evolves a s t \<Longrightarrow> api_world.more t = api_world.more s"
  by (simp add: client_evolves_def api_evolves_more)

lemmas client_frame = client_evolves_more [THEN server_more_eq(1)]
  client_evolves_more [THEN server_more_eq(2)] client_evolves_more [THEN server_more_eq(3)]
  client_evolves_more [THEN server_more_eq(4)] client_evolves_more [THEN server_more_eq(5)]
  client_evolves_more [THEN server_more_eq(6)] client_evolves_more [THEN server_more_eq(7)]
  client_evolves_more [THEN server_more_eq(8)]

lemma api_call_Ok [simp]: "api_call m s = (Ok x, t) \<longleftrightarrow> m s = (Ok x, t)"
  by (simp add: api_call_def map_err_comp_def split: prod.splits)

lemma api_call_ErrD: "api_call m s = (Err e, t) \<Longrightarrow> \<exists>g. m s = (Err g, t) \<and> e = Api g"
  by (auto simp: api_call_def map_err_comp_def split: prod.splits)

lemma api_call_Err: "m s = (Err g, t) \<Longrightarrow> api_call m s = (Err (Api g), t)"
  by (simp add: api_call_def map_err_comp_def)

text \<open>A tripped breaker refuses to store anything: no request leaves the client.\<close>

lemma store_file_refused:
  "tripped s \<Longrightarrow> store_file env a key r s = (Err (Api CircuitBreakerTripped), snd (draw_nonce env 4 s))"
  unfolding store_file_def
  by (rule and_then_Err, rule api_call_Err, rule allocate.refused)

lemma store_file_OkD:
  "store_file env a key r s = (Ok n, t) \<Longrightarrow>
   reader_ending r = None \<and> n = of_nat (length (reader_content r)) \<and> \<not> tripped s"
  unfolding store_file_def
  by (auto dest!: and_then_OkD dest: upload_file_OkD allocate.Ok_not_tripped)

text \<open>
  With the callback of \<open>GhaCache::new\<close>, the flag in the report says whether the breaker has tripped
  since the report and the breaker last agreed; the counters are untouched by the client.
\<close>

definition tripped_agrees :: "'w server \<Rightarrow> bool" where
  "tripped_agrees s \<longleftrightarrow> (tripped_429 (cb_state s) \<longleftrightarrow> tripped s)"

lemma mark_tripped_idem: "mark_tripped (mark_tripped m) = mark_tripped m"
  by (simp add: mark_tripped_def)

lemma client_evolves_mark_tripped:
  assumes "client_evolves a s t" and "breaker_callback a = mark_tripped"
  shows "cb_state t = cb_state s \<and> tripped t = tripped s \<or> cb_state t = mark_tripped (cb_state s) \<and> tripped t"
  using api_evolves_idempotent [of mark_tripped s t] assms
  by (auto simp: client_evolves_def mark_tripped_idem)

lemma client_evolves_agrees:
  assumes "client_evolves a s t" and "breaker_callback a = mark_tripped" and "tripped_agrees s"
  shows "tripped_agrees t"
  using client_evolves_mark_tripped [OF assms(1,2)] assms(3)
  by (auto simp: tripped_agrees_def mark_tripped_def)

end
