(* ===== verification/StorePaths.thy ===== *)
theory StorePaths
  imports Server
begin

text \<open>
  \<open>magic-nix-cache/src/util.rs\<close>: listing the Nix store. First the parts of \<open>std::path\<close> the server
  uses (Unix): \<open>Path::display\<close>, \<open>Path::file_name\<close>, \<open>Path::extension\<close> and \<open>Path::join\<close>; then
  \<open>get_store_paths\<close>, whose directory stream is the list of entries \<open>read_store_dir\<close> yields.
\<close>

section \<open>Displaying a path\<close>

text \<open>\<open>display\<close> replaces every maximal ill-formed part of a path by U+FFFD, as \<open>Utf8Chunks\<close> finds them.\<close>

definition utf8_second :: "nat \<Rightarrow> nat \<Rightarrow> bool" where
  "utf8_second a b =
     ((if a = 224 then 160 else if a = 240 then 144 else 128) \<le> b
      \<and> b \<le> (if a = 237 then 159 else if a = 244 then 143 else 191))"

definition replacement :: "nat list" where
  "replacement = [239, 191, 189]"

fun utf8_lossy :: "nat list \<Rightarrow> nat list" where
  "utf8_lossy [] = []"
| "utf8_lossy (a # bs) =
     (if a < 128 then a # utf8_lossy bs
      else if 194 \<le> a \<and> a \<le> 223 then
        (case bs of
           b # r \<Rightarrow> if utf8_cont b then a # b # utf8_lossy r else replacement @ utf8_lossy bs
         | [] \<Rightarrow> replacement)
      else if 224 \<le> a \<and> a \<le> 239 then
        (case bs of
           b # r \<Rightarrow>
             if utf8_second a b then
               (case r of
                  c # q \<Rightarrow> if utf8_cont c then a # b # c # utf8_lossy q else replacement @ utf8_lossy r
                | [] \<Rightarrow> replacement)
             else replacement @ utf8_lossy bs
         | [] \<Rightarrow> replacement)
      else if 240 \<le> a \<and> a \<le> 244 then
        (case bs of
           b # r \<Rightarrow>
             if utf8_second a b then
               (case r of
                  c # q \<Rightarrow>
                    if utf8_cont c then
                      (case q of
                         d # p \<Rightarrow>
                           if utf8_cont d then a # b # c # d # utf8_lossy p
                           else replacement @ utf8_lossy q
                       | [] \<Rightarrow> replacement)
                    else replacement @ utf8_lossy r
                | [] \<Rightarrow> replacement)
             else replacement @ utf8_lossy bs
         | [] \<Rightarrow> replacement)
      else replacement @ utf8_lossy bs)"

definition display :: "bytes \<Rightarrow> string" where
  "display p = map char_of (utf8_lossy (map of_char p))"

lemma utf8_second_cases:
  "224 \<le> a \<Longrightarrow> a \<le> 239 \<Longrightarrow>
     utf8_second a b = ((if a = 224 then 160 else 128) \<le> b \<and> b \<le> (if a = 237 then 159 else 191))"
  "240 \<le> a \<Longrightarrow> a \<le> 244 \<Longrightarrow>
     utf8_second a b = ((if a = 240 then 144 else 128) \<le> b \<and> b \<le> (if a = 244 then 143 else 191))"
  by (simp_all add: utf8_second_def)

text \<open>The well-formed sequences of each length, by their first byte.\<close>

lemma utf8_ok_ConsE:
  assumes "utf8_ok (a # bs)"
  obtains (one) "a < 128" "utf8_ok bs"
  | (two) b r where "194 \<le> a" "a \<le> 223" "bs = b # r" "utf8_cont b" "utf8_ok r"
  | (three) b c r where "224 \<le> a" "a \<le> 239" "bs = b # c # r" "utf8_second a b" "utf8_cont c" "utf8_ok r"
  | (four) b c d r where "240 \<le> a" "a \<le> 244" "bs = b # c # d # r" "utf8_second a b"
      "utf8_cont c" "utf8_cont d" "utf8_ok r"
proof -
  consider "a < 128" | "194 \<le> a" "a \<le> 223" | "224 \<le> a" "a \<le> 239" | "240 \<le> a" "a \<le> 244"
    | "128 \<le> a" "a < 194" | "244 < a"
    by linarith
  then show thesis
  proof cases
    case 3
    then show thesis using assms utf8_second_cases(1) [OF 3]
      by (cases bs; cases "tl bs") (simp_all add: three del: if_split)
  next
    case 4
    then show thesis using assms utf8_second_cases(2) [OF 4]
      by (cases bs; cases "tl bs"; cases "tl (tl bs)") (simp_all add: four del: if_split)
  qed (use assms in \<open>simp_all add: one two split: list.splits\<close>)
qed

lemma utf8_lossy_ok: "utf8_ok bs \<Longrightarrow> utf8_lossy bs = bs"
proof (induction bs rule: measure_induct_rule [of length])
  case (less bs)
  show ?case
  proof (cases bs)
    case (Cons a r)
    with less.prems have "utf8_ok (a # r)" by simp
    then show ?thesis using less.IH Cons
      by (cases rule: utf8_ok_ConsE) simp_all
  qed simp
qed

lemma display_utf8: "utf8_valid p \<Longrightarrow> display p = p"
  by (simp add: display_def utf8_lossy_ok utf8_valid_def comp_def)

section \<open>File names\<close>

text \<open>
  \<open>Path::file_name\<close>: the last component, when it is a normal one. Empty components and \<open>.\<close> are no
  components (a leading \<open>.\<close> is one, but not a normal one, so it gives no file name either).
\<close>

fun split_on :: "'a \<Rightarrow> 'a list \<Rightarrow> 'a list list" where
  "split_on c [] = [[]]"
| "split_on c (x # xs) =
     (if x = c then [] # split_on c xs
      else case split_on c xs of p # ps \<Rightarrow> (x # p) # ps | [] \<Rightarrow> [[x]])"

definition path_file_name :: "bytes \<Rightarrow> bytes option" where
  "path_file_name p =
     (let cs = filter (\<lambda>c. c \<noteq> '''' \<and> c \<noteq> ''.'') (split_on (CHR ''/'') p)
      in if cs = [] \<or> last cs = ''..'' then None else Some (last cs))"

text \<open>\<open>Path::extension\<close>: what follows the last dot of the file name, unless the name begins with it.\<close>

definition name_extension :: "bytes \<Rightarrow> bytes option" where
  "name_extension f =
     (let after = rev (takeWhile (\<lambda>c. c \<noteq> CHR ''.'') (rev f))
      in if f = ''..'' \<or> CHR ''.'' \<notin> set f \<or> length after + 1 = length f then None else Some after)"

definition path_extension :: "bytes \<Rightarrow> bytes option" where
  "path_extension p = (case path_file_name p of None \<Rightarrow> None | Some f \<Rightarrow> name_extension f)"

definition path_join :: "bytes \<Rightarrow> bytes \<Rightarrow> bytes" where
  "path_join p q =
     (if q \<noteq> [] \<and> hd q = CHR ''/'' then q
      else if p = [] \<or> last p = CHR ''/'' then p @ q
      else p @ ''/'' @ q)"

lemma split_on_no_sep: "c \<notin> set s \<Longrightarrow> split_on c s = [s]"
  by (induction s) auto

lemma split_on_not_Nil [simp]: "split_on c s \<noteq> []"
  by (cases s) (auto split: list.split)

lemma split_on_no_sep_member: "p \<in> set (split_on c s) \<Longrightarrow> c \<notin> set p"
  by (induction s arbitrary: p) (auto split: list.splits if_splits)

lemma split_on_append: "split_on c (a @ c # b) = split_on c a @ split_on c b"
  by (induction a) (auto split: list.split)

lemma path_file_name_no_slash:
  "path_file_name p = Some f \<Longrightarrow> CHR ''/'' \<notin> set f \<and> f \<noteq> [] \<and> f \<noteq> ''.'' \<and> f \<noteq> ''..''"
  using last_in_set [of "filter (\<lambda>c. c \<noteq> '''' \<and> c \<noteq> ''.'') (split_on (CHR ''/'') p)"]
  by (auto simp: path_file_name_def Let_def split: if_splits dest: split_on_no_sep_member)

lemma path_file_name_join:
  assumes "CHR ''/'' \<notin> set f" and "f \<noteq> []" and "f \<noteq> ''.''" and "f \<noteq> ''..''"
  shows "path_file_name (d @ ''/'' @ f) = Some f"
  using assms
  by (simp add: path_file_name_def split_on_append split_on_no_sep [OF assms(1)])

lemma path_file_name_plain:
  assumes "CHR ''/'' \<notin> set f" and "f \<noteq> []" and "f \<noteq> ''.''" and "f \<noteq> ''..''"
  shows "path_file_name f = Some f"
  using assms by (simp add: path_file_name_def split_on_no_sep [OF assms(1)])

section \<open>Listing the store\<close>

text \<open>Whether the loop body goes on to \<open>paths.insert\<close>: the two \<open>continue\<close>s, in order.\<close>

definition listed :: "bytes \<Rightarrow> bool" where
  "listed file_name =
     (case path_extension file_name of
        Some e \<Rightarrow>
          (case to_str e of
             None \<Rightarrow> False
           | Some x \<Rightarrow> x \<noteq> ''drv'' \<and> x \<noteq> ''chroot'' \<and> to_str file_name \<noteq> Some ''.links'')
      | None \<Rightarrow> to_str file_name \<noteq> Some ''.links'')"

fun collect_paths :: "bytes \<Rightarrow> (io_error + bytes) list \<Rightarrow> bytes set \<Rightarrow> (server_error, bytes set) result" where
  "collect_paths dir [] paths = Ok paths"
| "collect_paths dir (Inl e # es) paths =
     Err (Io e (''Reading existing store paths from '' @ display dir))"
| "collect_paths dir (Inr file_name # es) paths =
     collect_paths dir es (if listed file_name then insert (path_join dir file_name) paths else paths)"

definition get_store_paths :: "'w server_env \<Rightarrow> ('w server, server_error, bytes set) comp" where
  "get_store_paths env =
     and_then
       (outside (read_store_dir env)
          (\<lambda>e. Io e (''Enumerating store paths in '' @ display (store_dir env))))
       (\<lambda>entries. lift_result (collect_paths (store_dir env) entries {}))"

lemma collect_paths_Ok_iff:
  "collect_paths dir es acc = Ok ps \<longleftrightarrow>
     (\<forall>e. Inl e \<notin> set es) \<and> ps = acc \<union> {path_join dir f |f. Inr f \<in> set es \<and> listed f}"
  by (induction dir es acc rule: collect_paths.induct) auto

lemma collect_paths_no_panic: "collect_paths dir es acc \<noteq> Panic p"
  by (induction dir es acc rule: collect_paths.induct) auto

lemma collect_paths_finite: "collect_paths dir es acc = Ok ps \<Longrightarrow> finite acc \<Longrightarrow> finite ps"
  by (induction dir es acc rule: collect_paths.induct) (auto split: if_splits)

lemma outside_eq:
  "outside f wrap s =
     (case fst (f (ext s)) of Inl e \<Rightarrow> Err (wrap e) | Inr x \<Rightarrow> Ok x, s\<lparr>ext := snd (f (ext s))\<rparr>)"
  by (simp add: outside_def split: prod.split sum.split)

lemma outside_state [simp]: "snd (outside f wrap s) = s\<lparr>ext := snd (f (ext s))\<rparr>"
  by (simp add: outside_eq)

lemma outside_OkD: "outside f wrap s = (Ok x, t) \<Longrightarrow> fst (f (ext s)) = Inr x"
  by (simp add: outside_eq split: sum.splits)

text \<open>Operations that change nothing but the outside world.\<close>

definition only_ext :: "'w server \<Rightarrow> 'w server \<Rightarrow> bool" where
  "only_ext s t \<longleftrightarrow> (\<exists>w. t = s\<lparr>ext := w\<rparr>)"

interpretation outer: evolution only_ext
proof
  show "only_ext s s" for s :: "'w server"
    unfolding only_ext_def by (intro exI [of _ "ext s"]) simp
qed (auto simp: only_ext_def)

lemma only_extD:
  assumes "only_ext s t"
  shows "t = s\<lparr>ext := ext t\<rparr>" "channel t = channel s" "worker_result t = worker_result s"
    "worker_handle t = worker_handle s" "worker_done t = worker_done s"
    "original_paths t = original_paths s" "flakehub_on t = flakehub_on s"
    "shutdown_cancelled t = shutdown_cancelled s" "tripped t = tripped s" "cb_state t = cb_state s"
    "narinfo_negative_cache t = narinfo_negative_cache s"
  using assms by (auto simp: only_ext_def)

lemma outside_only_ext: "keeps only_ext (outside f wrap)"
  by (rule keepsI) (auto simp: only_ext_def)

lemma get_store_paths_only_ext: "keeps only_ext (get_store_paths env)"
  unfolding get_store_paths_def by (intro outer.and_then outer.lift_result outside_only_ext)

lemma get_store_paths_no_panic: "get_store_paths env s \<noteq> (Panic p, t)"
  by (auto simp: get_store_paths_def and_then_def outside_eq collect_paths_no_panic split: sum.splits)

lemma get_store_paths_OkD:
  assumes "get_store_paths env s = (Ok ps, t)"
  obtains es where "fst (read_store_dir env (ext s)) = Inr es" and "\<forall>e. Inl e \<notin> set es"
    and "ps = {path_join (store_dir env) f |f. Inr f \<in> set es \<and> listed f}"
  using assms
  by (auto simp: get_store_paths_def and_then_def outside_eq collect_paths_Ok_iff split: sum.splits)

lemma get_store_paths_finite: "get_store_paths env s = (Ok ps, t) \<Longrightarrow> finite ps"
  by (auto simp: get_store_paths_def and_then_def outside_eq split: sum.splits dest: collect_paths_finite)

lemma listed_no_dot:
  assumes "CHR ''.'' \<notin> set f" and "CHR ''/'' \<notin> set f" and "f \<noteq> []"
  shows "listed f"
proof -
  from assms have "path_file_name f = Some f" by (intro path_file_name_plain) auto
  with assms show ?thesis
    by (auto simp: listed_def path_extension_def name_extension_def to_str_def)
qed

lemma name_extension_append:
  assumes "b \<noteq> []" and "CHR ''.'' \<notin> set e" and "e \<noteq> []"
  shows "name_extension (b @ CHR ''.'' # e) = Some e"
proof -
  have "takeWhile (\<lambda>c. c \<noteq> CHR ''.'') (rev (b @ CHR ''.'' # e)) = rev e"
    using assms(2) by (simp add: takeWhile_append)
  moreover have "b @ CHR ''.'' # e \<noteq> ''..''"
    using assms by (cases b; cases "tl b") auto
  ultimately show ?thesis using assms(1) by (simp add: name_extension_def Let_def)
qed

text \<open>Names with one of the two extensions that are skipped.\<close>

lemma listed_extension:
  assumes "CHR ''/'' \<notin> set b" and "b \<noteq> []" and "e = ''drv'' \<or> e = ''chroot''"
  shows "\<not> listed (b @ CHR ''.'' # e)"
proof -
  have "path_file_name (b @ CHR ''.'' # e) = Some (b @ CHR ''.'' # e)"
    using assms by (intro path_file_name_plain) (cases b; cases "tl b"; auto)+
  then have "path_extension (b @ CHR ''.'' # e) = Some e"
    using assms by (auto simp: path_extension_def intro: name_extension_append)
  then show ?thesis
    using assms(3) by (auto simp: listed_def to_str_def)
qed

lemma not_listed_links: "\<not> listed ''.links''"
  by code_simp

end
