(* ===== verification/BinaryCache.thy ===== *)
theory BinaryCache
  imports Server
begin

text \<open>
  \<open>magic-nix-cache/src/binary_cache.rs\<close>: the binary cache that Nix talks to. A handler takes the
  decoded path component of the URL. \<open>redirect_temporary\<close> is axum's \<open>Redirect::temporary\<close>, which
  panics on a target that is not a valid header value. A request body is a \<open>Body\<close> source.
\<close>

datatype redirect = Redirect_Temporary string

definition redirect_temporary :: "'w gha_env \<Rightarrow> string \<Rightarrow> ('w server, server_error, redirect) comp" where
  "redirect_temporary env uri =
     lift_result (case header_value env uri of
                    Inr _ \<Rightarrow> Ok (Redirect_Temporary uri)
                  | Inl _ \<Rightarrow> Panic ''URI isn't a valid header value'')"

definition get_nix_cache_info :: string where
  "get_nix_cache_info = ''WantMassQuery: 1\<newline>StoreDir: /nix/store\<newline>Priority: 41\<newline>''"

definition pull_through :: "'w gha_env \<Rightarrow> server_config \<Rightarrow> string \<Rightarrow> ('w server, server_error, redirect) comp" where
  "pull_through env cfg path =
     (case upstream cfg of
        Some up \<Rightarrow> redirect_temporary env (up @ ''/'' @ path)
      | None \<Rightarrow> throw NotFound)"

text \<open>The first two conditions of both narinfo handlers: \<open><hash>.narinfo\<close>, cut at the first dot.\<close>

definition narinfo_hash :: "string \<Rightarrow> string option" where
  "narinfo_hash path =
     (case splitn2 (CHR ''.'') path of
        [h, e] \<Rightarrow> if e = ''narinfo'' then Some h else None
      | _ \<Rightarrow> None)"

definition narinfo_key :: "string \<Rightarrow> string" where
  "narinfo_key hash = hash @ ''.narinfo''"

definition query_cache :: "'w gha_env \<Rightarrow> server_config \<Rightarrow> string \<Rightarrow> ('w server, server_error, string option) comp" where
  "query_cache env cfg key =
     (case gha_api cfg of
        Some a \<Rightarrow> api_call (get_file_url env a [key])
      | None \<Rightarrow> return_ok None)"

definition get_narinfo :: "'w gha_env \<Rightarrow> server_config \<Rightarrow> string \<Rightarrow> ('w server, server_error, redirect) comp" where
  "get_narinfo env cfg path s =
     (case narinfo_hash path of
        None \<Rightarrow> (Err NotFound, s)
      | Some hash \<Rightarrow>
          if hash \<in> narinfo_negative_cache s then
            and_then (bump narinfos_sent_upstream_update)
              (\<lambda>_. and_then (bump narinfos_negative_cache_hits_update)
              (\<lambda>_. pull_through env cfg path)) s
          else
            and_then (query_cache env cfg (narinfo_key hash))
              (\<lambda>found. case found of
                 Some u \<Rightarrow>
                   and_then (bump narinfos_served_update) (\<lambda>_. redirect_temporary env u)
               | None \<Rightarrow>
                   and_then (modify (\<lambda>s. s\<lparr>narinfo_negative_cache := insert hash (narinfo_negative_cache s)\<rparr>))
                     (\<lambda>_. and_then (bump narinfos_sent_upstream_update)
                     (\<lambda>_. and_then (bump narinfos_negative_cache_misses_update)
                     (\<lambda>_. pull_through env cfg path)))) s)"

definition put_narinfo :: "'w gha_env \<Rightarrow> server_config \<Rightarrow> string \<Rightarrow> reader \<Rightarrow> ('w server, server_error, unit) comp" where
  "put_narinfo env cfg path body s =
     (case narinfo_hash path of
        None \<Rightarrow> (Err BadRequest, s)
      | Some hash \<Rightarrow>
          (case gha_api cfg of
             None \<Rightarrow> (Err GHADisabled, s)
           | Some a \<Rightarrow>
               and_then (store_file env a (narinfo_key hash) body)
                 (\<lambda>_. and_then (bump narinfos_uploaded_update)
                 (\<lambda>_. modify (\<lambda>s. s\<lparr>narinfo_negative_cache := narinfo_negative_cache s - {hash}\<rparr>))) s))"

definition get_nar :: "'w gha_env \<Rightarrow> server_config \<Rightarrow> string \<Rightarrow> ('w server, server_error, redirect) comp" where
  "get_nar env cfg path =
     (case gha_api cfg of
        None \<Rightarrow> throw GHADisabled
      | Some a \<Rightarrow>
          and_then (api_call (get_file_url env a [path]))
            (\<lambda>found. case found of
               Some u \<Rightarrow> and_then (bump nars_served_update) (\<lambda>_. redirect_temporary env u)
             | None \<Rightarrow>
                 (case upstream cfg of
                    Some up \<Rightarrow>
                      and_then (bump nars_sent_upstream_update)
                        (\<lambda>_. redirect_temporary env (up @ ''/nar/'' @ path))
                  | None \<Rightarrow> throw NotFound)))"

definition put_nar :: "'w gha_env \<Rightarrow> server_config \<Rightarrow> string \<Rightarrow> reader \<Rightarrow> ('w server, server_error, unit) comp" where
  "put_nar env cfg path body =
     (case gha_api cfg of
        None \<Rightarrow> throw GHADisabled
      | Some a \<Rightarrow>
          and_then (store_file env a path body) (\<lambda>_. bump nars_uploaded_update))"

section \<open>Paths\<close>

lemma narinfo_hash_iff:
  "narinfo_hash path = Some h \<longleftrightarrow> path = narinfo_key h \<and> CHR ''.'' \<notin> set h"
proof
  assume "narinfo_hash path = Some h"
  then have "splitn2 (CHR ''.'') path = [h, ''narinfo'']"
    by (auto simp: narinfo_hash_def split: list.splits if_splits)
  from splitn2_Cons2 [OF this] show "path = narinfo_key h \<and> CHR ''.'' \<notin> set h"
    by (simp add: narinfo_key_def)
next
  assume "path = narinfo_key h \<and> CHR ''.'' \<notin> set h"
  then show "narinfo_hash path = Some h"
    using splitn2_append [of "CHR ''.''" h "''narinfo''"]
    by (simp add: narinfo_hash_def narinfo_key_def)
qed

lemma narinfo_hash_key [simp]: "CHR ''.'' \<notin> set h \<Longrightarrow> narinfo_hash (narinfo_key h) = Some h"
  by (simp add: narinfo_hash_iff)

section \<open>Steps of a handler\<close>

lemma bump_run: "bump upd s = (Ok (), s\<lparr>cb_state := upd incr (cb_state s)\<rparr>)"
  by (simp add: bump_def)

lemma redirect_temporary_state [simp]: "snd (redirect_temporary env u s) = s"
  by (simp add: redirect_temporary_def)

lemma pull_through_state [simp]: "snd (pull_through env cfg path s) = s"
  by (simp add: pull_through_def split: option.split)

lemma redirect_temporary_OkD: "redirect_temporary env u s = (Ok x, t) \<Longrightarrow> x = Redirect_Temporary u \<and> t = s"
  by (auto simp: redirect_temporary_def split: sum.splits)

lemma query_cache_evolves:
  "query_cache env cfg key s = (r, t) \<Longrightarrow>
   (case gha_api cfg of Some a \<Rightarrow> client_evolves a s t | None \<Rightarrow> t = s)"
  by (auto simp: query_cache_def split: option.splits
      intro: keepsD [OF api_call_evolves [OF get_file_url_evolves]])

lemma query_cache_frame:
  assumes "query_cache env cfg key s = (r, t)"
  shows "narinfo_negative_cache t = narinfo_negative_cache s"
  using query_cache_evolves [OF assms] by (auto split: option.splits dest: client_frame(1))

text \<open>The five ways a narinfo lookup can go.\<close>

lemma get_narinfo_cases:
  assumes "get_narinfo env cfg p s = (r, t)"
  obtains (malformed) "narinfo_hash p = None" "t = s"
  | (negative) h where "narinfo_hash p = Some h" "h \<in> narinfo_negative_cache s"
      "t = s\<lparr>cb_state := narinfos_negative_cache_hits_update incr (narinfos_sent_upstream_update incr (cb_state s))\<rparr>"
      "(r, t) = pull_through env cfg p t"
  | (failed) h q where "narinfo_hash p = Some h" "h \<notin> narinfo_negative_cache s"
      "query_cache env cfg (narinfo_key h) s = (q, t)" "\<not> is_ok q" "\<not> is_ok r"
  | (found) h u s1 where "narinfo_hash p = Some h" "h \<notin> narinfo_negative_cache s"
      "query_cache env cfg (narinfo_key h) s = (Ok (Some u), s1)"
      "t = s1\<lparr>cb_state := narinfos_served_update incr (cb_state s1)\<rparr>"
      "(r, t) = redirect_temporary env u t"
  | (absent) h s1 where "narinfo_hash p = Some h" "h \<notin> narinfo_negative_cache s"
      "query_cache env cfg (narinfo_key h) s = (Ok None, s1)"
      "t = s1\<lparr>narinfo_negative_cache := insert h (narinfo_negative_cache s1),
             cb_state := narinfos_negative_cache_misses_update incr (narinfos_sent_upstream_update incr (cb_state s1))\<rparr>"
      "(r, t) = pull_through env cfg p t"
proof (cases "narinfo_hash p")
  case None
  with assms show thesis by (intro malformed) (simp_all add: get_narinfo_def)
next
  case (Some h)
  have redirect: "(r', t') = redirect_temporary env u t \<Longrightarrow> t' = t" for u t r' t'
    by (metis redirect_temporary_state snd_conv)
  have pull: "(r', t') = pull_through env cfg p t \<Longrightarrow> t' = t" for t r' t'
    by (metis pull_through_state snd_conv)
  obtain q s1 where q: "query_cache env cfg (narinfo_key h) s = (q, s1)" by fastforce
  consider "h \<in> narinfo_negative_cache s" | "h \<notin> narinfo_negative_cache s" by blast
  then show thesis
  proof cases
    case 1
    with Some assms have "(r, t) = pull_through env cfg p
        (s\<lparr>cb_state := narinfos_negative_cache_hits_update incr (narinfos_sent_upstream_update incr (cb_state s))\<rparr>)"
      by (simp add: get_narinfo_def bump_run)
    from 1 Some this pull [OF this] show thesis by (intro negative) simp_all
  next
    case 2
    show thesis
    proof (cases "\<exists>found. q = Ok found")
      case False
      with 2 Some q assms show thesis
        by (cases q) (auto simp: get_narinfo_def intro!: failed)
    next
      case True
      then consider u where "q = Ok (Some u)" | "q = Ok None" by (metis option.exhaust)
      then show thesis
      proof cases
        case (1 u)
        with 2 Some q assms have "(r, t) = redirect_temporary env u
            (s1\<lparr>cb_state := narinfos_served_update incr (cb_state s1)\<rparr>)"
          by (simp add: get_narinfo_def bump_run)
        from 1 2 Some q this redirect [OF this] show thesis by (intro found) simp_all
      next
        case q': 2
        with 2 Some q assms have "(r, t) = pull_through env cfg p
            (s1\<lparr>narinfo_negative_cache := insert h (narinfo_negative_cache s1),
             cb_state := narinfos_negative_cache_misses_update incr (narinfos_sent_upstream_update incr (cb_state s1))\<rparr>)"
          by (simp add: get_narinfo_def bump_run)
        from q' 2 Some q this pull [OF this] show thesis by (intro absent) simp_all
      qed
    qed
  qed
qed

section \<open>Counting\<close>

text \<open>
  Every narinfo request sent upstream is a hit or a miss of the negative cache. The client's
  operations may set \<open>tripped_429\<close> but never a counter; \<open>counters\<close> is the report without that flag.
\<close>

definition counts_balanced :: "telemetry_report \<Rightarrow> bool" where
  "counts_balanced m \<longleftrightarrow>
     narinfos_sent_upstream m = narinfos_negative_cache_hits m + narinfos_negative_cache_misses m"

definition counters :: "telemetry_report \<Rightarrow> telemetry_report" where
  "counters m = m\<lparr>tripped_429 := False\<rparr>"

definition flags_only :: "server_config \<Rightarrow> bool" where
  "flags_only cfg \<longleftrightarrow> (\<forall>a. gha_api cfg = Some a \<longrightarrow> breaker_callback a = mark_tripped)"

lemma counters_mark_tripped [simp]: "counters (mark_tripped m) = counters m"
  by (simp add: counters_def mark_tripped_def)

lemma counts_balanced_counters [simp]: "counts_balanced (counters m) = counts_balanced m"
  by (simp add: counts_balanced_def counters_def)

lemma client_evolves_counters:
  "client_evolves a s t \<Longrightarrow> breaker_callback a = mark_tripped \<Longrightarrow> counters (cb_state t) = counters (cb_state s)"
  by (drule (1) client_evolves_mark_tripped) auto

lemma client_evolves_balanced:
  assumes "client_evolves a s t" and "breaker_callback a = mark_tripped"
  shows "counts_balanced (cb_state t) = counts_balanced (cb_state s)"
proof -
  have "counts_balanced (cb_state t) = counts_balanced (counters (cb_state t))" by simp
  also have "\<dots> = counts_balanced (counters (cb_state s))"
    by (simp only: client_evolves_counters [OF assms])
  finally show ?thesis by simp
qed

lemma query_cache_balanced:
  assumes "query_cache env cfg key s = (r, t)" and "flags_only cfg"
  shows "counts_balanced (cb_state t) = counts_balanced (cb_state s)"
  using query_cache_evolves [OF assms(1)] assms(2)
  by (auto simp: flags_only_def split: option.splits dest: client_evolves_balanced)

lemma store_file_balanced:
  assumes "store_file env a key r s = (x, t)" and "breaker_callback a = mark_tripped"
  shows "counts_balanced (cb_state t) = counts_balanced (cb_state s)"
  using client_evolves_balanced [OF keepsD [OF store_file_evolves assms(1)] assms(2)] .

text \<open>The requests of the binary cache, and one step of serving one.\<close>

datatype cache_request =
    Get_Narinfo string
  | Put_Narinfo string reader
  | Get_Nar string
  | Put_Nar string reader

fun serve :: "'w gha_env \<Rightarrow> server_config \<Rightarrow> cache_request \<Rightarrow> 'w server \<Rightarrow> 'w server" where
  "serve env cfg (Get_Narinfo p) s = snd (get_narinfo env cfg p s)"
| "serve env cfg (Put_Narinfo p b) s = snd (put_narinfo env cfg p b s)"
| "serve env cfg (Get_Nar p) s = snd (get_nar env cfg p s)"
| "serve env cfg (Put_Nar p b) s = snd (put_nar env cfg p b s)"

lemma get_narinfo_balanced:
  assumes "flags_only cfg" and "counts_balanced (cb_state s)"
  shows "counts_balanced (cb_state (snd (get_narinfo env cfg p s)))"
proof (cases "narinfo_hash p")
  case None
  with assms show ?thesis by (simp add: get_narinfo_def)
next
  case (Some h)
  show ?thesis
  proof (cases "h \<in> narinfo_negative_cache s")
    case True
    with Some assms show ?thesis
      by (simp add: get_narinfo_def bump_run and_then_def counts_balanced_def incr_def)
  next
    case False
    obtain r t where q: "query_cache env cfg (narinfo_key h) s = (r, t)" by fastforce
    with assms have "counts_balanced (cb_state t)" by (simp add: query_cache_balanced)
    with Some False q show ?thesis
      by (cases r)
         (auto simp: get_narinfo_def bump_run and_then_def counts_balanced_def incr_def
            split: option.split)
  qed
qed

lemma put_narinfo_balanced:
  assumes "flags_only cfg" and "counts_balanced (cb_state s)"
  shows "counts_balanced (cb_state (snd (put_narinfo env cfg p b s)))"
proof (cases "narinfo_hash p = None \<or> gha_api cfg = None")
  case True
  with assms show ?thesis by (auto simp: put_narinfo_def split: option.split)
next
  case False
  then obtain h a where ha: "narinfo_hash p = Some h" "gha_api cfg = Some a" by auto
  obtain r t where st: "store_file env a (narinfo_key h) b s = (r, t)" by fastforce
  with assms ha have "counts_balanced (cb_state t)" by (simp add: store_file_balanced flags_only_def)
  with ha st show ?thesis
    by (cases r) (simp_all add: put_narinfo_def bump_run and_then_def counts_balanced_def)
qed

lemma get_nar_balanced:
  assumes "flags_only cfg" and "counts_balanced (cb_state s)"
  shows "counts_balanced (cb_state (snd (get_nar env cfg p s)))"
proof (cases "gha_api cfg")
  case None
  with assms show ?thesis by (simp add: get_nar_def)
next
  case (Some a)
  obtain r t where q: "api_call (get_file_url env a [p]) s = (r, t)" by fastforce
  with Some assms have "counts_balanced (cb_state t)"
    using query_cache_balanced [of env cfg p s r t] by (simp add: query_cache_def)
  with Some q show ?thesis
    by (cases r)
       (auto simp: get_nar_def bump_run and_then_def counts_balanced_def simp del: api_call_Ok split: option.split)
qed

lemma put_nar_balanced:
  assumes "flags_only cfg" and "counts_balanced (cb_state s)"
  shows "counts_balanced (cb_state (snd (put_nar env cfg p b s)))"
proof (cases "gha_api cfg")
  case None
  with assms show ?thesis by (simp add: put_nar_def)
next
  case (Some a)
  obtain r t where st: "store_file env a p b s = (r, t)" by fastforce
  with assms Some have "counts_balanced (cb_state t)" by (simp add: store_file_balanced flags_only_def)
  with Some st show ?thesis
    by (cases r) (simp_all add: put_nar_def bump_run and_then_def counts_balanced_def)
qed

lemma serve_balanced:
  "flags_only cfg \<Longrightarrow> counts_balanced (cb_state s) \<Longrightarrow> counts_balanced (cb_state (serve env cfg rq s))"
  by (cases rq)
     (simp_all add: get_narinfo_balanced put_narinfo_balanced get_nar_balanced put_nar_balanced)

end
