(* ===== verification/Isolation.thy ===== *)
theory Isolation
  imports Server
begin

text \<open>
  The API client and the rest of the server do not touch each other's state. A \<open>bystander\<close> is a
  change of the state that leaves the client's three fields alone; every operation of the client
  commutes with it. \<open>GhaWorker\<close> uses this for requests that arrive while an upload is running.
\<close>

locale bystander =
  fixes f :: "('c, 'w, 'z) api_world_scheme \<Rightarrow> ('c, 'w, 'z) api_world_scheme"
  assumes f_tripped [simp]: "tripped (f s) = tripped s"
    and f_cb_state [simp]: "cb_state (f s) = cb_state s"
    and f_ext [simp]: "ext (f s) = ext s"
    and f_ext_update: "(f s)\<lparr>ext := w\<rparr> = f (s\<lparr>ext := w\<rparr>)"
    and f_trip: "(f s)\<lparr>tripped := b, cb_state := c\<rparr> = f (s\<lparr>tripped := b, cb_state := c\<rparr>)"
begin

lemma check_err_f: "check_err a e (f s) = f (check_err a e s)"
  by (simp add: check_err_def f_trip)

lemma check_result_f: "check_result a r (f s) = f (check_result a r s)"
  by (cases r) (simp_all add: check_err_f)

lemma send_commutes [commuting]: "commutes f (send env cl rq)"
  by (rule commutesI) (simp add: send_def f_ext_update split: prod.split sum.split)

lemma call_twirp_commutes [commuting]: "commutes f (call_twirp g rq)"
  by (rule commutesI) (simp add: call_twirp_def f_ext_update split: prod.split sum.split)

lemma inspect_check_commutes [commuting]:
  "commutes f m \<Longrightarrow> commutes f (inspect_err (check_err a) m)"
  by (rule commutes_inspect_err) (simp_all add: check_err_f)

lemma checked_commutes [commuting]: "commutes f m \<Longrightarrow> commutes f (\<lambda>s. m (check_result a r s))"
  by (simp add: commutes_def check_result_f)

lemma consulted_commutes [commuting]: "commutes f (\<lambda>s. (x, check_result a r s))"
  by (simp add: commutes_def check_result_f)

lemma reserve_cache_commutes: "commutes f (reserve_cache env a key cs)"
proof -
  have "commutes f (reserve_v1 env a key cs)"
    unfolding reserve_v1_def Let_def by (intro commuting)
  moreover have "commutes f (reserve_v2 env a key)"
    unfolding reserve_v2_def by (intro commuting)
  ultimately show ?thesis
    by (cases "uses_v1 a") (simp_all add: commutes_def reserve_cache_def)
qed

lemma draw_nonce_f: "draw_nonce env n (f s) = (fst (draw_nonce env n s), f (snd (draw_nonce env n s)))"
proof (induction n arbitrary: s)
  case (Suc n)
  obtain c w where "rand_alphanumeric env (ext s) = (c, w)" by fastforce
  then show ?case using Suc [of "s\<lparr>ext := w\<rparr>"] by (simp add: f_ext_update split_beta)
qed simp

lemma allocate_attempts_commutes: "commutes f (allocate_attempts env a n key)"
proof (rule commutesI)
  show "allocate_attempts env a n key (f s) =
    (fst (allocate_attempts env a n key s), f (snd (allocate_attempts env a n key s)))" for s
  proof (induction n arbitrary: s)
    case (Suc n)
    obtain nonce s0 where n: "draw_nonce env 4 s = (nonce, s0)" by fastforce
    obtain r s1 where al: "allocate_file env a (key @ ''-'' @ nonce) s0 = (r, s1)" by fastforce
    then have "allocate_file env a (key @ ''-'' @ nonce) (f s0) = (r, f s1)"
      unfolding allocate_file_def by (rule commutesD [OF reserve_cache_commutes])
    with n al Suc show ?case
      by (cases r) (simp_all add: draw_nonce_f)
  qed simp
qed

lemma allocate_commutes [commuting]:
  "commutes f (allocate_file_with_random_suffix env a key)"
  unfolding allocate_file_with_random_suffix_def by (rule allocate_attempts_commutes)

lemma get_file_url_commutes [commuting]: "commutes f (get_file_url env a keys)"
proof -
  have "commutes f (get_entry_v1 env a keys)"
    unfolding get_entry_v1_def Let_def by (intro commuting)
  moreover have "commutes f (get_entry_v2 env a keys)"
    unfolding get_entry_v2_def by (cases keys) (simp_all only: list.case, (intro commuting)+)
  ultimately show ?thesis
    by (cases "uses_v1 a") (simp_all add: commutes_def get_file_url_def get_cache_entry_def)
qed

lemma run_chunk_commutes [commuting]: "commutes f (run_chunk env a cid task)"
  unfolding run_chunk_def Let_def by (intro commuting)

lemma run_chunks_f:
  "run_chunks env a cid ts (f s) = (fst (run_chunks env a cid ts s), f (snd (run_chunks env a cid ts s)))"
proof (induction ts arbitrary: s)
  case (Cons t ts)
  obtain r s1 where "run_chunk env a cid t s = (r, s1)" by fastforce
  with Cons show ?case
    by (simp add: commutesD [OF run_chunk_commutes] split_beta)
qed simp

lemma commit_v1_commutes [commuting]: "commutes f (commit_v1 env a cid offset)"
  unfolding commit_v1_def by (intro commuting)

lemma upload_v1_commutes: "commutes f (upload_v1 env a cid r)"
proof (rule commutesI)
  fix s :: "('c, 'w, 'z) api_world_scheme"
  obtain ts rr where sp: "spawn_chunks 0 r = (ts, rr)" by fastforce
  obtain rs s1 where rc: "run_chunks env a cid ts s = (rs, s1)" by fastforce
  have "commutes f (and_then (lift_result rr) (\<lambda>offset. and_then (lift_result (first_failure rs))
             (\<lambda>_. commit_v1 env a cid offset)))"
    by (intro commuting)
  then show "upload_v1 env a cid r (f s) = (fst (upload_v1 env a cid r s), f (snd (upload_v1 env a cid r s)))"
    using sp rc run_chunks_f [of env a cid ts s] by (simp add: upload_v1_def commutes_def)
qed

lemma append_chunk_commutes [commuting]: "commutes f (append_chunk env a cl u chunk)"
  unfolding append_chunk_def by (intro commuting)

lemma append_chunks_commutes [commuting]: "commutes f (append_chunks env a cl u offset r)"
proof (rule commutesI)
  show "append_chunks env a cl u offset r (f s) =
      (fst (append_chunks env a cl u offset r s), f (snd (append_chunks env a cl u offset r s)))" for s
  proof (induction env a cl u offset r s rule: append_chunks.induct)
    case (1 env a cl u offset r s)
    obtain res r' where nc: "next_chunk r = (res, r')" by fastforce
    show ?case
    proof (cases "res")
      case (Ok chunk)
      obtain res1 s1 where ac: "append_chunk env a cl u chunk s = (res1, s1)" by fastforce
      then have "append_chunk env a cl u chunk (f s) = (res1, f s1)"
        by (rule commutesD [OF append_chunk_commutes])
      then show ?thesis
        using "1.IH" [OF nc [symmetric] Ok _ ac [symmetric]] nc Ok ac
        by (cases res1) (auto simp: append_chunks.simps [of env a cl u offset r])
    qed (use nc in \<open>auto simp: append_chunks.simps [of env a cl u offset r]\<close>)
  qed
qed

lemma finalize_v2_commutes [commuting]: "commutes f (finalize_v2 env a key offset)"
  unfolding finalize_v2_def by (intro commuting)

lemma upload_v2_commutes: "commutes f (upload_v2 env a su r)"
  unfolding upload_v2_def by (intro commuting)

lemma upload_file_commutes [commuting]: "commutes f (upload_file env a al r)"
  using upload_v1_commutes upload_v2_commutes
  by (cases al) (simp_all add: commutes_def upload_file_def)

end

text \<open>The channel is the server's: the client neither reads nor writes it.\<close>

interpretation queue: bystander "channel_update g" for g
  by unfold_locales simp_all

end
