(* ===== verification/GhaWorker.thy ===== *)
theory GhaWorker
  imports StorePaths BinaryCache Isolation
begin

text \<open>
  \<open>magic-nix-cache/src/gha.rs\<close>: the GitHub Actions cache as an upload target. Store paths go into
  an unbounded channel; one background task takes them out and uploads them. The task and the
  handlers run concurrently: \<open>worker_step\<close> is one turn of the worker's loop, \<open>channel_send\<close> what a
  handler does to the channel, and \<open>run_events\<close> an interleaving of the two.
\<close>

section \<open>Uploading a path\<close>

definition reference_name :: "bytes \<Rightarrow> ('e, string) result" where
  "reference_name r =
     (case Option.bind (path_file_name r) to_str of
        Some n \<Rightarrow> Ok n
      | None \<Rightarrow> Panic (''failed to convert nar_info reference to string: '' @ display r))"

definition path_info_to_nar_info ::
  "'w server_env \<Rightarrow> path_info \<Rightarrow> string \<Rightarrow> ('e, nar_info) result" where
  "path_info_to_nar_info env pi u =
     (case collect_results (map reference_name (pi_references pi)) of
        Ok refs \<Rightarrow> Ok
          \<lparr> store_path = get_full_path env (pi_path pi),
            url = u,
            compression = Zstd,
            file_hash = None,
            file_size = None,
            nar_hash = pi_nar_hash pi,
            nar_size = pi_nar_size pi,
            references = refs,
            system = None,
            deriver = None,
            signature = None,
            ca = pi_ca pi,
            provenance = Option.bind (pi_provenance pi) (json_to_string env) \<rparr>
      | Err e \<Rightarrow> Err e
      | Panic p \<Rightarrow> Panic p)"

text \<open>The name of the NAR, and the text of the narinfo that points to it.\<close>

definition nar_file :: "'w server_env \<Rightarrow> path_info \<Rightarrow> string" where
  "nar_file env pi = hash_base32 env (pi_nar_hash pi) @ ''.nar.zstd''"

definition narinfo_document :: "'w server_env \<Rightarrow> path_info \<Rightarrow> (server_error, string) result" where
  "narinfo_document env pi =
     (case path_info_to_nar_info env pi (''nar/'' @ nar_file env pi) of
        Ok ni \<Rightarrow>
          (case narinfo_to_string (nar_format env) ni of
             Ok text \<Rightarrow> Ok text
           | Err e \<Rightarrow> Panic ''failed to convert path into to nar info''
           | Panic p \<Rightarrow> Panic p)
      | Err e \<Rightarrow> Err e
      | Panic p \<Rightarrow> Panic p)"

definition open_nar :: "'w server_env \<Rightarrow> store_path_name \<Rightarrow> ('w server, server_error, reader) comp" where
  "open_nar env path s = (case nar_from_path_zstd env path (ext s) of (r, w) \<Rightarrow> (Ok r, s\<lparr>ext := w\<rparr>))"

definition upload_nar ::
  "'w server_env \<Rightarrow> telemetry_report api \<Rightarrow> store_path_name \<Rightarrow> path_info
     \<Rightarrow> ('w server, server_error, unit) comp" where
  "upload_nar env a path pi =
     (let ge = gha_env.truncate env in
      and_then (api_call (allocate_file_with_random_suffix ge a (nar_file env pi)))
        (\<lambda>nar_allocation. and_then (open_nar env path)
        (\<lambda>nar_compressor. and_then (api_call (upload_file ge a nar_allocation nar_compressor))
        (\<lambda>_. bump nars_uploaded_update))))"

definition upload_narinfo ::
  "'w server_env \<Rightarrow> telemetry_report api \<Rightarrow> store_path_name \<Rightarrow> path_info
     \<Rightarrow> ('w server, server_error, unit) comp" where
  "upload_narinfo env a path pi =
     (let ge = gha_env.truncate env; hash = store_path_hash env path in
      and_then (api_call (allocate_file_with_random_suffix ge a (narinfo_key hash)))
        (\<lambda>narinfo_allocation. and_then (lift_result (narinfo_document env pi))
        (\<lambda>narinfo. and_then (api_call (upload_file ge a narinfo_allocation (Slice narinfo)))
        (\<lambda>_. and_then (bump narinfos_uploaded_update)
        (\<lambda>_. modify (\<lambda>s. s\<lparr>narinfo_negative_cache := narinfo_negative_cache s - {hash}\<rparr>))))))"

definition upload_path ::
  "'w server_env \<Rightarrow> telemetry_report api \<Rightarrow> store_path_name \<Rightarrow> ('w server, server_error, unit) comp" where
  "upload_path env a path =
     and_then (outside (query_path_info env path) Attic)
       (\<lambda>pi. and_then (upload_nar env a path pi) (\<lambda>_. upload_narinfo env a path pi))"

section \<open>The worker\<close>

text \<open>
  One turn of the loop, for a request taken off the channel. A failed upload is only logged; a
  panic ends the task, which drops its receiver with everything queued (in an unwinding build; one
  that aborts ends there altogether). With an empty channel the
  worker waits (\<open>GhaCache\<close> holds a sender, so \<open>recv\<close> never returns \<open>None\<close>).
\<close>

definition worker_stop :: "(server_error, unit) result \<Rightarrow> 'w server \<Rightarrow> 'w server" where
  "worker_stop r s = s\<lparr>channel := [], worker_result := Some r\<rparr>"

definition worker_upload ::
  "'w server_env \<Rightarrow> telemetry_report api \<Rightarrow> store_path_name \<Rightarrow> 'w server \<Rightarrow> 'w server" where
  "worker_upload env a path s =
     (if tripped s then s
      else if path \<in> worker_done s then s
      else case upload_path env a path (s\<lparr>worker_done := insert path (worker_done s)\<rparr>) of
             (Panic p, t) \<Rightarrow> worker_stop (Panic p) t
           | (_, t) \<Rightarrow> t)"

definition worker_step :: "'w server_env \<Rightarrow> telemetry_report api \<Rightarrow> 'w server \<Rightarrow> 'w server" where
  "worker_step env a s =
     (if worker_result s \<noteq> None then s
      else case channel s of
             [] \<Rightarrow> s
           | Shutdown # q \<Rightarrow> worker_stop (Ok ()) s
           | Upload path # q \<Rightarrow> worker_upload env a path (s\<lparr>channel := q\<rparr>))"

text \<open>\<open>channel_tx.send\<close> fails once the receiver is gone.\<close>

definition channel_send :: "gha_request \<Rightarrow> ('w server, unit, unit) comp" where
  "channel_send rq s =
     (if worker_result s = None then (Ok (), s\<lparr>channel := channel s @ [rq]\<rparr>) else (Err (), s))"

text \<open>Sending \<open>Upload\<close> for every path of a closure: the first failed send ends the loop.\<close>

fun send_uploads :: "store_path_name list \<Rightarrow> ('w server, server_error, unit) comp" where
  "send_uploads [] s = (Ok (), s)"
| "send_uploads (p # ps) s =
     (case channel_send (Upload p) s of
        (Ok _, s1) \<Rightarrow> send_uploads ps s1
      | (Err _, s1) \<Rightarrow> (Err (Internal ''Cannot send upload message''), s1)
      | (Panic q, s1) \<Rightarrow> (Panic q, s1))"

definition gha_enqueue_paths ::
  "'w server_env \<Rightarrow> store_path_name list \<Rightarrow> ('w server, server_error, unit) comp" where
  "gha_enqueue_paths env store_paths =
     and_then (outside (compute_fs_closure_multi env store_paths) Attic) send_uploads"

text \<open>\<open>GhaCache::new\<close>: the client with the breaker's callback, an empty channel, a fresh worker.\<close>

definition gha_new ::
  "'w server_env \<Rightarrow> credentials \<Rightarrow> string option \<Rightarrow> ('w server, server_error, telemetry_report api) comp" where
  "gha_new env c cv =
     and_then (lift_result (map_err Api (api_new (gha_env.truncate env) c mark_tripped)))
       (\<lambda>a. and_then (modify (\<lambda>s. s\<lparr>channel := [], worker_result := None, worker_handle := True,
                                      worker_done := {}\<rparr>))
         (\<lambda>_. return_ok (case cv of
                          Some v \<Rightarrow> mutate_version (gha_env.truncate env) v a
                        | None \<Rightarrow> a)))"

section \<open>What an upload leaves alone\<close>

lemma commutes_outside [commuting]: "commutes (channel_update g) (outside f wrap)"
  by (rule commutesI) (simp add: outside_eq)

lemma commutes_bump [commuting]: "commutes (channel_update g) (bump upd)"
  unfolding bump_def by (rule commutes_modify) simp

lemma commutes_open_nar [commuting]: "commutes (channel_update g) (open_nar env path)"
  by (rule commutesI) (simp add: open_nar_def split: prod.split)

lemma commutes_forget [commuting]:
  "commutes (channel_update g) (modify (\<lambda>s. s\<lparr>narinfo_negative_cache := narinfo_negative_cache s - h\<rparr>))"
  by (rule commutes_modify) simp

lemma api_call_commutes [commuting]: "commutes f m \<Longrightarrow> commutes f (api_call m)"
  unfolding api_call_def by (rule commutes_map_err_comp)

lemma upload_path_commutes: "commutes (channel_update g) (upload_path env a path)"
  unfolding upload_path_def upload_nar_def upload_narinfo_def Let_def
  by (intro commuting queue.allocate_commutes queue.upload_file_commutes)

text \<open>The relation an upload moves the state along: what it never changes, and the breaker.\<close>

definition upload_evolves :: "'w server \<Rightarrow> 'w server \<Rightarrow> bool" where
  "upload_evolves s t \<longleftrightarrow>
     channel t = channel s \<and> worker_result t = worker_result s \<and> worker_handle t = worker_handle s
     \<and> worker_done t = worker_done s \<and> original_paths t = original_paths s
     \<and> flakehub_on t = flakehub_on s \<and> shutdown_cancelled t = shutdown_cancelled s
     \<and> narinfo_negative_cache t \<subseteq> narinfo_negative_cache s \<and> (tripped s \<longrightarrow> tripped t)"

interpretation up: evolution upload_evolves
  by unfold_locales (auto simp: upload_evolves_def)

lemma client_upload_evolves: "client_evolves a s t \<Longrightarrow> upload_evolves s t"
  using client_frame [of a s t]
  by (auto simp: upload_evolves_def client_evolves_def dest: api_evolves_monotone)

lemma api_call_upload_evolves:
  fixes a :: "telemetry_report api"
  shows "keeps (api_evolves (breaker_callback a)) m \<Longrightarrow> keeps upload_evolves (api_call m)"
  by (rule keepsI, rule client_upload_evolves [of a], rule keeps_snd, rule api_call_evolves)

lemma outside_upload_evolves: "keeps upload_evolves (outside f wrap)"
  by (rule keepsI) (simp add: upload_evolves_def)

lemma bump_upload_evolves: "keeps upload_evolves (bump upd)"
  unfolding bump_def by (rule up.modify) (simp add: upload_evolves_def)

lemma open_nar_upload_evolves: "keeps upload_evolves (open_nar env path)"
  by (rule keepsI) (simp add: open_nar_def upload_evolves_def split: prod.split)

lemma forget_upload_evolves:
  "keeps upload_evolves (modify (\<lambda>s. s\<lparr>narinfo_negative_cache := narinfo_negative_cache s - h\<rparr>))"
  by (rule up.modify) (auto simp: upload_evolves_def)

lemmas upload_steps = up.and_then up.lift_result api_call_upload_evolves [OF allocate_evolves]
  api_call_upload_evolves [OF upload_file_evolves] outside_upload_evolves bump_upload_evolves
  open_nar_upload_evolves forget_upload_evolves

lemma upload_nar_evolves: "keeps upload_evolves (upload_nar env a path pi)"
  unfolding upload_nar_def Let_def by (intro upload_steps)

lemma upload_narinfo_evolves: "keeps upload_evolves (upload_narinfo env a path pi)"
  unfolding upload_narinfo_def Let_def by (intro upload_steps)

lemma upload_path_evolves: "keeps upload_evolves (upload_path env a path)"
  unfolding upload_path_def
  by (intro upload_steps upload_nar_evolves upload_narinfo_evolves)

section \<open>The worker takes the queue apart\<close>

lemma upload_path_frame:
  assumes "upload_path env a path s = (r, t)"
  shows "channel t = channel s" "worker_result t = worker_result s" "worker_done t = worker_done s"
    "tripped s \<Longrightarrow> tripped t" "worker_handle t = worker_handle s"
  using keepsD [OF upload_path_evolves assms] by (simp_all add: upload_evolves_def)

lemma worker_stop_simps [simp]:
  "channel (worker_stop r s) = []" "worker_result (worker_stop r s) = Some r"
  "worker_handle (worker_stop r s) = worker_handle s" "worker_done (worker_stop r s) = worker_done s"
  "tripped (worker_stop r s) = tripped s" "worker_stop r (s\<lparr>channel := c\<rparr>) = worker_stop r s"
  by (simp_all add: worker_stop_def)

lemma worker_upload_cases:
  obtains (refused) "tripped s \<or> path \<in> worker_done s" and "worker_upload env a path s = s"
  | (panicked) p t where "\<not> tripped s" and "path \<notin> worker_done s"
      and "upload_path env a path (s\<lparr>worker_done := insert path (worker_done s)\<rparr>) = (Panic p, t)"
      and "worker_upload env a path s = worker_stop (Panic p) t"
  | (returned) r t where "\<not> tripped s" and "path \<notin> worker_done s" and "\<forall>p. r \<noteq> Panic p"
      and "upload_path env a path (s\<lparr>worker_done := insert path (worker_done s)\<rparr>) = (r, t)"
      and "worker_upload env a path s = t"
proof -
  obtain r t where u: "upload_path env a path (s\<lparr>worker_done := insert path (worker_done s)\<rparr>) = (r, t)"
    by fastforce
  show thesis
  proof (cases "tripped s \<or> path \<in> worker_done s")
    case True
    then show thesis by (intro refused) (auto simp: worker_upload_def)
  next
    case False
    with u show thesis
      by (cases r) (auto simp: worker_upload_def intro: panicked returned)
  qed
qed

lemma worker_step_shorter:
  assumes "worker_result s = None" and "channel s \<noteq> []"
  shows "length (channel (worker_step env a s)) < length (channel s)"
proof -
  obtain rq q where ch: "channel s = rq # q" using assms(2) by (cases "channel s") auto
  show ?thesis
  proof (cases rq)
    case Shutdown
    with assms ch show ?thesis by (simp add: worker_step_def)
  next
    case (Upload path)
    with assms ch have st: "worker_step env a s = worker_upload env a path (s\<lparr>channel := q\<rparr>)"
      by (simp add: worker_step_def)
    show ?thesis
      by (rule worker_upload_cases [where s = "s\<lparr>channel := q\<rparr>" and path = path and env = env and a = a])
         (auto simp: st ch dest: upload_path_frame)
  qed
qed

text \<open>The worker left to itself until it waits or ends.\<close>

function worker_run :: "'w server_env \<Rightarrow> telemetry_report api \<Rightarrow> 'w server \<Rightarrow> 'w server" where
  "worker_run env a s =
     (if worker_result s = None \<and> channel s \<noteq> [] then worker_run env a (worker_step env a s) else s)"
  by pat_completeness auto
termination
  by (relation "measure (\<lambda>(env, a, s). length (channel s))") (simp_all add: worker_step_shorter)

declare worker_run.simps [simp del]

lemma worker_run_idle [simp]: "worker_result s \<noteq> None \<or> channel s = [] \<Longrightarrow> worker_run env a s = s"
  by (subst worker_run.simps) auto

lemma worker_step_idle [simp]: "worker_result s \<noteq> None \<or> channel s = [] \<Longrightarrow> worker_step env a s = s"
  by (auto simp: worker_step_def)

lemma worker_run_step: "worker_run env a (worker_step env a s) = worker_run env a s"
proof (cases "worker_result s = None \<and> channel s \<noteq> []")
  case True
  then show ?thesis by (subst (2) worker_run.simps) simp
next
  case False
  then have "worker_step env a s = s" by (intro worker_step_idle) auto
  then show ?thesis by simp
qed

text \<open>
  \<open>GhaCache::shutdown\<close>. The wait for the worker is \<open>worker_run\<close>. It ends, because \<open>Shutdown\<close> is
  queued: the branch for a worker that never ends is not reached (\<open>gha_shutdown_drains\<close>).
\<close>

definition gha_shutdown ::
  "'w server_env \<Rightarrow> telemetry_report api \<Rightarrow> ('w server, server_error, unit) comp" where
  "gha_shutdown env a s =
     (if worker_handle s then
        (case channel_send Shutdown (s\<lparr>worker_handle := False\<rparr>) of
           (Ok _, s1) \<Rightarrow>
             (let t = worker_run env a s1
              in (case worker_result t of
                    Some (Panic p) \<Rightarrow> Panic ''failed to read result from gha worker''
                  | Some r \<Rightarrow> r
                  | None \<Rightarrow> Panic ''the worker never ends'', t))
         | (_, s1) \<Rightarrow> (Panic ''Cannot send shutdown message'', s1))
      else (Ok (), s))"

end
