(* ===== verification/WorkerFacts.thy ===== *)
theory WorkerFacts
  imports GhaWorker
begin

text \<open>
  What the upload queue guarantees. The interleaving of handlers and worker does not matter
  (\<open>schedule_irrelevant\<close>); the worker's loop implements the specification \<open>upload_each\<close> over the
  paths that are new, each once and in order (\<open>worker_run_refines\<close>); \<open>shutdown\<close> waits for all of it.
\<close>

section \<open>Interleavings\<close>

text \<open>A handler's send, whether or not it succeeds, and the events of a run.\<close>

definition send_request :: "gha_request \<Rightarrow> 'w server \<Rightarrow> 'w server" where
  "send_request rq s = snd (channel_send rq s)"

datatype worker_event = Work | Send gha_request

fun run_event :: "'w server_env \<Rightarrow> telemetry_report api \<Rightarrow> worker_event \<Rightarrow> 'w server \<Rightarrow> 'w server" where
  "run_event env a Work s = worker_step env a s"
| "run_event env a (Send rq) s = send_request rq s"

definition run_events ::
  "'w server_env \<Rightarrow> telemetry_report api \<Rightarrow> worker_event list \<Rightarrow> 'w server \<Rightarrow> 'w server" where
  "run_events env a evs s = fold (run_event env a) evs s"

definition send_requests :: "gha_request list \<Rightarrow> 'w server \<Rightarrow> 'w server" where
  "send_requests rqs s = fold send_request rqs s"

fun sends :: "worker_event list \<Rightarrow> gha_request list" where
  "sends [] = []"
| "sends (Work # evs) = sends evs"
| "sends (Send rq # evs) = rq # sends evs"

lemma send_request_open:
  "worker_result s = None \<Longrightarrow> send_request rq s = s\<lparr>channel := channel s @ [rq]\<rparr>"
  by (simp add: send_request_def channel_send_def)

lemma send_request_closed: "worker_result s \<noteq> None \<Longrightarrow> send_request rq s = s"
  by (simp add: send_request_def channel_send_def)

lemma send_request_result [simp]: "worker_result (send_request rq s) = worker_result s"
  by (simp add: send_request_def channel_send_def)

lemma send_requests_open:
  "worker_result s = None \<Longrightarrow> send_requests rqs s = s\<lparr>channel := channel s @ rqs\<rparr>"
  unfolding send_requests_def
  by (induction rqs arbitrary: s) (simp_all add: send_request_open)

lemma send_requests_closed: "worker_result s \<noteq> None \<Longrightarrow> send_requests rqs s = s"
  unfolding send_requests_def
  by (induction rqs arbitrary: s) (simp_all add: send_request_closed)

text \<open>An upload is indifferent to the channel: what is sent while it runs is there afterwards.\<close>

lemma upload_path_channel:
  "upload_path env a path s = (r, t) \<Longrightarrow> upload_path env a path (s\<lparr>channel := c\<rparr>) = (r, t\<lparr>channel := c\<rparr>)"
  using commutesD [OF upload_path_commutes, of env a path s r t "\<lambda>_. c"] by simp

lemma done_channel:
  "s\<lparr>channel := c, worker_done := d\<rparr> = (s\<lparr>worker_done := d\<rparr>)\<lparr>channel := c\<rparr>"
  by simp

lemma worker_upload_channel:
  assumes running: "worker_result s = None"
  shows "worker_upload env a path (s\<lparr>channel := c\<rparr>) =
     (let t = worker_upload env a path s
      in if worker_result t = None then t\<lparr>channel := c\<rparr> else t)"
proof -
  obtain r t where u: "upload_path env a path (s\<lparr>worker_done := insert path (worker_done s)\<rparr>) = (r, t)"
    by fastforce
  from upload_path_channel [OF u, of c]
  have "upload_path env a path (s\<lparr>channel := c, worker_done := insert path (worker_done s)\<rparr>)
      = (r, t\<lparr>channel := c\<rparr>)"
    by (simp only: done_channel)
  with u running upload_path_frame(2) [OF u] show ?thesis
    by (cases r) (simp_all add: worker_upload_def)
qed

text \<open>A send and a turn of the worker can be swapped, unless the worker has nothing to do.\<close>

lemma worker_step_send:
  assumes "channel s \<noteq> []"
  shows "worker_step env a (send_request rq s) = send_request rq (worker_step env a s)"
proof (cases "worker_result s")
  case None
  obtain hd q where ch: "channel s = hd # q" using assms by (cases "channel s") auto
  show ?thesis
  proof (cases hd)
    case Shutdown
    with None ch show ?thesis
      by (simp add: worker_step_def send_request_open send_request_closed)
  next
    case (Upload path)
    let ?t = "worker_upload env a path s"
    have up: "worker_upload env a path (s\<lparr>channel := c\<rparr>)
        = (if worker_result ?t = None then ?t\<lparr>channel := c\<rparr> else ?t)" for c
      using worker_upload_channel [OF None] by (simp add: Let_def)
    from None ch Upload show ?thesis
      by (simp add: worker_step_def send_request_open up send_request_closed)
  qed
qed (simp add: send_request_closed)

lemma send_request_channel: "channel s \<noteq> [] \<Longrightarrow> channel (send_request rq s) \<noteq> []"
  by (simp add: send_request_def channel_send_def)

lemma worker_step_sends:
  "channel s \<noteq> [] \<Longrightarrow> worker_step env a (send_requests rqs s) = send_requests rqs (worker_step env a s)"
  unfolding send_requests_def
  by (induction rqs arbitrary: s) (simp_all add: worker_step_send send_request_channel)

lemma worker_run_sends_step:
  "worker_run env a (send_requests rqs (worker_step env a s)) = worker_run env a (send_requests rqs s)"
proof (cases "channel s = []")
  case False
  then have "send_requests rqs (worker_step env a s) = worker_step env a (send_requests rqs s)"
    by (simp add: worker_step_sends)
  then show ?thesis by (simp add: worker_run_step)
qed simp

lemma run_events_run:
  "worker_run env a (run_events env a evs s) = worker_run env a (send_requests (sends evs) s)"
proof (induction evs arbitrary: s rule: sends.induct)
  case (2 evs)
  then show ?case using worker_run_sends_step [of env a "sends evs" s]
    by (simp add: run_events_def)
qed (simp_all add: run_events_def send_requests_def)

section \<open>The specification of the loop\<close>

text \<open>The paths the worker has not seen, each at its first occurrence.\<close>

fun fresh :: "'p set \<Rightarrow> 'p list \<Rightarrow> 'p list" where
  "fresh D [] = []"
| "fresh D (p # ps) = (if p \<in> D then fresh D ps else p # fresh (insert p D) ps)"

lemma set_fresh: "set (fresh D ps) = set ps - D"
  by (induction D ps rule: fresh.induct) auto

lemma distinct_fresh: "distinct (fresh D ps)"
  by (induction D ps rule: fresh.induct) (auto simp: set_fresh)

lemma subseq_fresh: "subseq (fresh D ps) ps"
  by (induction D ps rule: fresh.induct) auto

text \<open>Upload path after path until the breaker trips or an upload panics; then end the worker.\<close>

fun upload_each :: "'w server_env \<Rightarrow> telemetry_report api \<Rightarrow> store_path_name list \<Rightarrow> 'w server \<Rightarrow> 'w server" where
  "upload_each env a [] s = s"
| "upload_each env a (p # ps) s =
     (if tripped s then s
      else case upload_path env a p (s\<lparr>worker_done := insert p (worker_done s)\<rparr>) of
             (Panic m, t) \<Rightarrow> worker_stop (Panic m) t
           | (_, t) \<Rightarrow> upload_each env a ps t)"

definition finish :: "'w server \<Rightarrow> 'w server" where
  "finish s = (if worker_result s = None then worker_stop (Ok ()) s else s)"

lemma upload_each_tripped [simp]: "tripped s \<Longrightarrow> upload_each env a ps s = s"
  by (cases ps) simp_all

lemma upload_each_channel:
  "worker_result s = None \<Longrightarrow>
   finish (upload_each env a ps (s\<lparr>channel := c\<rparr>)) = finish (upload_each env a ps s)"
proof (induction ps arbitrary: s)
  case Nil
  then show ?case by (simp add: finish_def)
next
  case (Cons p ps)
  obtain r t where u: "upload_path env a p (s\<lparr>worker_done := insert p (worker_done s)\<rparr>) = (r, t)"
    by fastforce
  from upload_path_channel [OF u, of c]
  have uc: "upload_path env a p (s\<lparr>channel := c, worker_done := insert p (worker_done s)\<rparr>)
      = (r, t\<lparr>channel := c\<rparr>)"
    by (simp only: done_channel)
  show ?case
  proof (cases "tripped s")
    case True
    with Cons.prems show ?thesis by (simp add: finish_def)
  next
    case False
    with u uc Cons upload_path_frame(2) [OF u] show ?thesis by (cases r) simp_all
  qed
qed

lemma worker_run_refines:
  assumes "worker_result s = None" and "channel s = map Upload ps @ Shutdown # q"
  shows "worker_run env a s = finish (upload_each env a (fresh (worker_done s) ps) s)"
  using assms
proof (induction ps arbitrary: s)
  case Nil
  then have "worker_run env a s = worker_run env a (worker_step env a s)"
    by (simp add: worker_run_step)
  with Nil show ?case by (simp add: worker_step_def finish_def)
next
  case (Cons p ps)
  let ?rest = "map Upload ps @ Shutdown # q"
  let ?s = "s\<lparr>channel := ?rest\<rparr>"
  have run: "worker_run env a s = worker_run env a (worker_upload env a p ?s)"
    using Cons.prems worker_run_step [of env a s] by (simp add: worker_step_def)
  have skip: "worker_run env a ?s = finish (upload_each env a (fresh (worker_done s) ps) s)"
    using Cons.IH [of ?s] Cons.prems by (simp add: upload_each_channel)
  show ?case
  proof (cases "tripped s \<or> p \<in> worker_done s")
    case True
    with run skip show ?thesis by (auto simp: worker_upload_def)
  next
    case False
    obtain r t where u: "upload_path env a p (s\<lparr>worker_done := insert p (worker_done s)\<rparr>) = (r, t)"
      by fastforce
    from upload_path_channel [OF u, of ?rest]
    have uc: "upload_path env a p (?s\<lparr>worker_done := insert p (worker_done s)\<rparr>)
        = (r, t\<lparr>channel := ?rest\<rparr>)"
      by (simp only: done_channel)
    have t: "worker_result t = None" "worker_done t = insert p (worker_done s)"
      using upload_path_frame [OF u] Cons.prems by simp_all
    have "worker_run env a (t\<lparr>channel := ?rest\<rparr>)
        = finish (upload_each env a (fresh (insert p (worker_done s)) ps) t)"
      using Cons.IH [of "t\<lparr>channel := ?rest\<rparr>"] t by (simp add: upload_each_channel)
    with False run u uc show ?thesis
      by (cases r) (simp_all add: worker_upload_def finish_def)
  qed
qed

section \<open>Shutting down\<close>

lemma upload_each_frame:
  "worker_result s = None \<Longrightarrow>
   worker_handle (upload_each env a ps s) = worker_handle s \<and>
   (worker_result (upload_each env a ps s) = None \<or> (\<exists>m. worker_result (upload_each env a ps s) = Some (Panic m)))"
proof (induction ps arbitrary: s)
  case (Cons p ps)
  obtain r t where u: "upload_path env a p (s\<lparr>worker_done := insert p (worker_done s)\<rparr>) = (r, t)"
    by fastforce
  from upload_path_frame [OF u] Cons u show ?case by (cases r) auto
qed simp

lemma worker_done_grows:
  "worker_result s = None \<Longrightarrow>
   worker_done s \<subseteq> worker_done (upload_each env a ps s) \<and>
   worker_done (upload_each env a ps s) \<subseteq> worker_done s \<union> set ps"
proof (induction ps arbitrary: s)
  case (Cons p ps)
  obtain r t where u: "upload_path env a p (s\<lparr>worker_done := insert p (worker_done s)\<rparr>) = (r, t)"
    by fastforce
  have t: "worker_done t = insert p (worker_done s)" "worker_result t = None"
    using upload_path_frame [OF u] Cons.prems by simp_all
  with Cons.IH [of t] u show ?case
    by (cases "tripped s"; cases r) (auto simp: t)
qed simp

text \<open>When the worker went through the whole queue, every path was handed to \<open>upload_path\<close>.\<close>

lemma worker_done_complete:
  assumes "worker_result s = None"
    and "worker_result (upload_each env a ps s) = None" and "\<not> tripped (upload_each env a ps s)"
  shows "worker_done (upload_each env a ps s) = worker_done s \<union> set ps"
  using assms
proof (induction ps arbitrary: s)
  case (Cons p ps)
  obtain r t where u: "upload_path env a p (s\<lparr>worker_done := insert p (worker_done s)\<rparr>) = (r, t)"
    by fastforce
  have t: "worker_done t = insert p (worker_done s)" "worker_result t = None"
    using upload_path_frame [OF u] Cons.prems(1) by simp_all
  have "\<not> tripped s"
    using Cons.prems(3) upload_each_tripped [of s env a "p # ps"] by auto
  with Cons.IH [of t] u t Cons.prems(2,3) show ?case
    by (cases r) auto
qed simp

text \<open>What \<open>shutdown\<close> answers for the state the worker ended in.\<close>

definition shutdown_answer :: "'w server \<Rightarrow> (server_error, unit) result" where
  "shutdown_answer t =
     (if worker_result t = None then Ok () else Panic ''failed to read result from gha worker'')"

lemma finish_handle: "finish (s\<lparr>worker_handle := h\<rparr>) = (finish s)\<lparr>worker_handle := h\<rparr>"
  by (simp add: finish_def worker_stop_def)

lemma gha_shutdown_drains:
  assumes "worker_handle s" and "worker_result s = None" and "channel s = map Upload ps"
  shows "gha_shutdown env a s =
    (let t = upload_each env a (fresh (worker_done s) ps) (s\<lparr>worker_handle := False\<rparr>)
     in (shutdown_answer t, finish t))"
proof -
  let ?s = "s\<lparr>worker_handle := False\<rparr>"
  let ?t = "upload_each env a (fresh (worker_done s) ps) ?s"
  have sent: "channel_send Shutdown ?s = (Ok (), ?s\<lparr>channel := map Upload ps @ [Shutdown]\<rparr>)"
    using assms by (simp add: channel_send_def)
  have "worker_run env a (?s\<lparr>channel := map Upload ps @ [Shutdown]\<rparr>)
      = finish (upload_each env a (fresh (worker_done s) ps) (?s\<lparr>channel := map Upload ps @ [Shutdown]\<rparr>))"
    using assms worker_run_refines [of "?s\<lparr>channel := map Upload ps @ [Shutdown]\<rparr>" ps "[]" env a]
    by simp
  also have "\<dots> = finish ?t"
    using assms by (intro upload_each_channel) simp
  finally have "worker_run env a (?s\<lparr>channel := map Upload ps @ [Shutdown]\<rparr>) = finish ?t" .
  moreover have "worker_result ?t = None \<or> (\<exists>m. worker_result ?t = Some (Panic m))"
    using upload_each_frame [of ?s env a "fresh (worker_done s) ps"] assms by simp
  ultimately show ?thesis
    using assms sent
    by (auto simp: gha_shutdown_def shutdown_answer_def finish_def Let_def)
qed

text \<open>The branch of \<open>gha_shutdown\<close> that would wait for ever is never taken.\<close>

lemma channel_only_uploads:
  "Shutdown \<notin> set q \<Longrightarrow> \<exists>ps. q = map Upload ps"
proof (induction q)
  case (Cons rq q)
  then obtain ps where "q = map Upload ps" by auto
  with Cons.prems show ?case
    by (cases rq) (auto intro: exI [of _ "x # ps" for x])
qed simp

lemma gha_shutdown_again:
  "\<not> worker_handle s \<Longrightarrow> gha_shutdown env a s = (Ok (), s)"
  by (simp add: gha_shutdown_def)

lemma gha_shutdown_dead:
  "worker_handle s \<Longrightarrow> worker_result s \<noteq> None \<Longrightarrow>
   gha_shutdown env a s = (Panic ''Cannot send shutdown message'', s\<lparr>worker_handle := False\<rparr>)"
  by (auto simp: gha_shutdown_def channel_send_def)

section \<open>Enqueueing\<close>

lemma send_uploads_open:
  "worker_result s = None \<Longrightarrow>
   send_uploads ps s = (Ok (), s\<lparr>channel := channel s @ map Upload ps\<rparr>)"
  by (induction ps arbitrary: s) (simp_all add: channel_send_def)

lemma send_uploads_closed:
  "worker_result s \<noteq> None \<Longrightarrow>
   send_uploads ps s = (if ps = [] then Ok () else Err (Internal ''Cannot send upload message''), s)"
  by (cases ps) (auto simp: channel_send_def)

lemma send_uploads_frame:
  "send_uploads ps s = (r, t) \<Longrightarrow>
   t = s\<lparr>channel := channel t\<rparr> \<and> (worker_result s \<noteq> None \<longrightarrow> t = s) \<and> (\<forall>p. r \<noteq> Panic p)"
  by (cases "worker_result s") (auto simp: send_uploads_open send_uploads_closed split: if_splits)

section \<open>What one upload does\<close>

lemma reference_name_Ok:
  "reference_name r = Ok n \<longleftrightarrow> path_file_name r = Some n \<and> utf8_valid n"
  by (auto simp: reference_name_def to_str_def bind_eq_Some_conv split: option.splits)

lemma reference_name_no_Err [simp]: "reference_name r \<noteq> Err e"
  by (auto simp: reference_name_def split: option.split)

text \<open>The narinfo of a path info whose references have the given names.\<close>

definition narinfo_of :: "'w server_env \<Rightarrow> path_info \<Rightarrow> string list \<Rightarrow> nar_info" where
  "narinfo_of env pi refs =
     \<lparr> store_path = get_full_path env (pi_path pi), url = ''nar/'' @ nar_file env pi,
       compression = Zstd, file_hash = None, file_size = None,
       nar_hash = pi_nar_hash pi, nar_size = pi_nar_size pi, references = refs,
       system = None, deriver = None, signature = None, ca = pi_ca pi,
       provenance = Option.bind (pi_provenance pi) (json_to_string env) \<rparr>"

lemma narinfo_document_Ok:
  assumes "list_all2 (\<lambda>r n. path_file_name r = Some n \<and> utf8_valid n) (pi_references pi) refs"
    and "utf8_valid (get_full_path env (pi_path pi))"
  shows "narinfo_document env pi = Ok (render (narinfo_lines (nar_format env) (narinfo_of env pi refs)))"
proof -
  have "map reference_name (pi_references pi) = (map Ok refs :: (server_error, string) result list)"
    using assms(1) by (induction rule: list_all2_induct) (simp_all add: reference_name_Ok)
  then have "path_info_to_nar_info env pi (''nar/'' @ nar_file env pi)
      = (Ok (narinfo_of env pi refs) :: (server_error, nar_info) result)"
    by (simp add: path_info_to_nar_info_def collect_results_Ok_iff [THEN iffD2] narinfo_of_def)
  moreover have "utf8_valid (store_path (narinfo_of env pi refs))"
    using assms(2) by (simp add: narinfo_of_def)
  ultimately show ?thesis
    by (simp add: narinfo_document_def narinfo_to_string_Ok)
qed

lemma narinfo_document_bad_reference:
  assumes "r \<in> set (pi_references pi)" and "\<forall>n. reference_name r \<noteq> (Ok n :: (server_error, string) result)"
  shows "\<exists>p. narinfo_document env pi = Panic p"
proof -
  have "\<exists>p. collect_results (map reference_name rs) = (Panic p :: (server_error, string list) result)"
    if "r \<in> set rs" for rs
    using that
  proof (induction rs)
    case (Cons x rs)
    show ?case
      using Cons assms(2)
      by (cases "reference_name x :: (server_error, string) result") auto
  qed simp
  from this [OF assms(1)] show ?thesis
    by (auto simp: narinfo_document_def path_info_to_nar_info_def)
qed

text \<open>
  With the callback of \<open>GhaCache::new\<close>: a finished upload counts one NAR and one narinfo and takes
  the path's hash out of the negative cache; one that stops early changes neither the narinfo
  count nor the cache, so no narinfo becomes visible without its NAR.
\<close>

lemma client_counts:
  assumes "client_evolves a s t" and "breaker_callback a = mark_tripped"
  shows "nars_uploaded (cb_state t) = nars_uploaded (cb_state s)"
    and "narinfos_uploaded (cb_state t) = narinfos_uploaded (cb_state s)"
    and "narinfo_negative_cache t = narinfo_negative_cache s"
  using client_evolves_mark_tripped [OF assms] client_frame(1) [OF assms(1)]
  by (auto simp: mark_tripped_def)

text \<open>What a step of an upload does to the counts and the cache, as a relation.\<close>

definition same_counts :: "'w server \<Rightarrow> 'w server \<Rightarrow> bool" where
  "same_counts s t \<longleftrightarrow>
     nars_uploaded (cb_state t) = nars_uploaded (cb_state s)
     \<and> narinfos_uploaded (cb_state t) = narinfos_uploaded (cb_state s)
     \<and> narinfo_negative_cache t = narinfo_negative_cache s"

interpretation counts: evolution same_counts
  by unfold_locales (auto simp: same_counts_def)

lemma api_call_same_counts:
  fixes a :: "telemetry_report api"
  assumes "breaker_callback a = mark_tripped" and "keeps (api_evolves (breaker_callback a)) m"
  shows "keeps same_counts (api_call m)"
  unfolding keeps_def same_counts_def
  using client_counts [OF keeps_snd [OF api_call_evolves [OF assms(2)]] assms(1)] by blast

lemma outside_same_counts: "keeps same_counts (outside f wrap)"
  by (rule keepsI) (simp add: same_counts_def)

lemma open_nar_same_counts: "keeps same_counts (open_nar env path)"
  by (rule keepsI) (simp add: open_nar_def same_counts_def split: prod.split)

lemma upload_nar_counts:
  assumes "upload_nar env a path pi s = (r, t)" and cb: "breaker_callback a = mark_tripped"
  shows "narinfos_uploaded (cb_state t) = narinfos_uploaded (cb_state s)
    \<and> narinfo_negative_cache t = narinfo_negative_cache s
    \<and> nars_uploaded (cb_state t) = (if is_ok r then incr (nars_uploaded (cb_state s)) else nars_uploaded (cb_state s))"
proof -
  let ?store = "and_then (api_call (allocate_file_with_random_suffix (gha_env.truncate env) a (nar_file env pi)))
      (\<lambda>al. and_then (open_nar env path)
      (\<lambda>c. api_call (upload_file (gha_env.truncate env) a al c)))"
  obtain q u where q: "?store s = (q, u)" by fastforce
  have "keeps same_counts ?store"
    by (intro counts.and_then api_call_same_counts [OF cb] open_nar_same_counts allocate_evolves
        upload_file_evolves)
  from keepsD [OF this q] have u: "same_counts s u" .
  have "upload_nar env a path pi s = and_then ?store (\<lambda>_. bump nars_uploaded_update) s"
    by (simp only: upload_nar_def Let_def and_then_assoc)
  with q assms(1) have "(r, t) = (case q of Ok _ \<Rightarrow> bump nars_uploaded_update u | Err e \<Rightarrow> (Err e, u) | Panic p \<Rightarrow> (Panic p, u))"
    by (cases q) simp_all
  with u show ?thesis
    by (cases q) (simp_all add: bump_run same_counts_def)
qed

lemma upload_narinfo_counts:
  assumes "upload_narinfo env a path pi s = (r, t)" and cb: "breaker_callback a = mark_tripped"
  shows "nars_uploaded (cb_state t) = nars_uploaded (cb_state s)
    \<and> narinfos_uploaded (cb_state t) =
        (if is_ok r then incr (narinfos_uploaded (cb_state s)) else narinfos_uploaded (cb_state s))
    \<and> narinfo_negative_cache t =
        (if is_ok r then narinfo_negative_cache s - {store_path_hash env path} else narinfo_negative_cache s)"
proof -
  let ?key = "narinfo_key (store_path_hash env path)"
  let ?store = "and_then (api_call (allocate_file_with_random_suffix (gha_env.truncate env) a ?key))
      (\<lambda>al. and_then (lift_result (narinfo_document env pi))
      (\<lambda>doc. api_call (upload_file (gha_env.truncate env) a al (Slice doc))))"
  let ?last = "\<lambda>_::usize. and_then (bump narinfos_uploaded_update)
      (\<lambda>_. modify (\<lambda>s. s\<lparr>narinfo_negative_cache := narinfo_negative_cache s - {store_path_hash env path}\<rparr>))"
  obtain q u where q: "?store s = (q, u)" by fastforce
  have "keeps same_counts ?store"
    by (intro counts.and_then counts.lift_result api_call_same_counts [OF cb] allocate_evolves
        upload_file_evolves)
  from keepsD [OF this q] have u: "same_counts s u" .
  have "upload_narinfo env a path pi s = and_then ?store ?last s"
    by (simp only: upload_narinfo_def Let_def and_then_assoc)
  with q assms(1) have "(r, t) = (case q of Ok n \<Rightarrow> ?last n u | Err e \<Rightarrow> (Err e, u) | Panic p \<Rightarrow> (Panic p, u))"
    by (cases q) simp_all
  with u show ?thesis
    by (cases q) (simp_all add: bump_run same_counts_def)
qed

lemma upload_path_counts:
  assumes "upload_path env a path s = (r, t)" and cb: "breaker_callback a = mark_tripped"
  shows "is_ok r \<Longrightarrow>
      nars_uploaded (cb_state t) = incr (nars_uploaded (cb_state s))
      \<and> narinfos_uploaded (cb_state t) = incr (narinfos_uploaded (cb_state s))
      \<and> narinfo_negative_cache t = narinfo_negative_cache s - {store_path_hash env path}"
    and "\<not> is_ok r \<Longrightarrow>
      narinfos_uploaded (cb_state t) = narinfos_uploaded (cb_state s)
      \<and> narinfo_negative_cache t = narinfo_negative_cache s"
proof -
  obtain q u where q: "outside (query_path_info env path) Attic s = (q, u)" by fastforce
  with keepsD [OF outside_same_counts] have u: "same_counts s u" by blast
  have "(is_ok r \<longrightarrow> nars_uploaded (cb_state t) = incr (nars_uploaded (cb_state s))
      \<and> narinfos_uploaded (cb_state t) = incr (narinfos_uploaded (cb_state s))
      \<and> narinfo_negative_cache t = narinfo_negative_cache s - {store_path_hash env path})
    \<and> (\<not> is_ok r \<longrightarrow> narinfos_uploaded (cb_state t) = narinfos_uploaded (cb_state s)
      \<and> narinfo_negative_cache t = narinfo_negative_cache s)"
  proof (cases q)
    case (Ok pi)
    obtain q' v where v: "upload_nar env a path pi u = (q', v)" by fastforce
    obtain q'' w where w: "upload_narinfo env a path pi v = (q'', w)" by fastforce
    from Ok q assms(1) v w u upload_nar_counts [OF v cb] upload_narinfo_counts [OF w cb] show ?thesis
      by (cases q') (auto simp: upload_path_def same_counts_def)
  qed (use q assms(1) u in \<open>auto simp: upload_path_def same_counts_def\<close>)
  then show "is_ok r \<Longrightarrow>
      nars_uploaded (cb_state t) = incr (nars_uploaded (cb_state s))
      \<and> narinfos_uploaded (cb_state t) = incr (narinfos_uploaded (cb_state s))
      \<and> narinfo_negative_cache t = narinfo_negative_cache s - {store_path_hash env path}"
    and "\<not> is_ok r \<Longrightarrow>
      narinfos_uploaded (cb_state t) = narinfos_uploaded (cb_state s)
      \<and> narinfo_negative_cache t = narinfo_negative_cache s"
    by simp_all
qed

end
