(* ===== verification/ActionApi.thy ===== *)
theory ActionApi
  imports WorkerFacts
begin

text \<open>
  \<open>magic-nix-cache/src/api.rs\<close>, the API used by the installer action, with the store diff, and the
  event loop of \<open>pbh.rs\<close>, which enqueues what determinate-nixd reports as built. Both end in
  \<open>enqueue_paths\<close>, which feeds the GitHub worker of \<open>GhaWorker\<close> and FlakeHub's push session.
\<close>

section \<open>Enqueueing\<close>

definition flakehub_enqueue_paths ::
  "'w server_env \<Rightarrow> store_path_name list \<Rightarrow> ('w server, server_error, unit) comp" where
  "flakehub_enqueue_paths env store_paths = outside (push_queue_many env store_paths) FlakeHub"

definition enqueue_paths ::
  "'w server_env \<Rightarrow> server_config \<Rightarrow> store_path_name list \<Rightarrow> ('w server, server_error, unit) comp" where
  "enqueue_paths env cfg store_paths =
     and_then
       (case gha_api cfg of
          Some a \<Rightarrow> gha_enqueue_paths env store_paths
        | None \<Rightarrow> return_ok ())
       (\<lambda>_ s. if flakehub_on s then flakehub_enqueue_paths env store_paths s else (Ok (), s))"

text \<open>Resolving paths: the first one that fails ends the iteration.\<close>

fun follow_store_paths ::
  "'w server_env \<Rightarrow> bytes list \<Rightarrow> ('w server, server_error, store_path_name list) comp" where
  "follow_store_paths env [] s = (Ok [], s)"
| "follow_store_paths env (p # ps) s =
     and_then (outside (follow_store_path env p) Attic)
       (\<lambda>n. and_then (follow_store_paths env ps) (\<lambda>ns. return_ok (n # ns))) s"

definition post_enqueue_paths ::
  "'w server_env \<Rightarrow> server_config \<Rightarrow> bytes list \<Rightarrow> ('w server, server_error, unit) comp" where
  "post_enqueue_paths env cfg store_paths =
     and_then (follow_store_paths env store_paths) (enqueue_paths env cfg)"

section \<open>Start and finish of a workflow\<close>

type_synonym workflow_start_response = "usize option"

record workflow_finish_response =
  wf_original_paths :: "usize option"
  wf_final_paths :: "usize option"
  wf_new_paths :: "usize option"

definition workflow_start ::
  "'w server_env \<Rightarrow> server_config \<Rightarrow> ('w server, server_error, workflow_start_response) comp" where
  "workflow_start env cfg =
     (if diff_store cfg then
        and_then (get_store_paths env)
          (\<lambda>paths. and_then (modify (\<lambda>s. s\<lparr>original_paths := paths\<rparr>))
          (\<lambda>_. and_then (record_count num_original_paths_update (card paths))
          (\<lambda>_. return_ok (Some (of_nat (card paths))))))
      else return_ok None)"

text \<open>The branch of \<open>workflow_finish\<close> that diffs the store and enqueues what is new.\<close>

definition diff_and_enqueue ::
  "'w server_env \<Rightarrow> server_config \<Rightarrow> ('w server, server_error, workflow_finish_response) comp" where
  "diff_and_enqueue env cfg s0 =
     (let original = original_paths s0 in
      and_then (get_store_paths env)
        (\<lambda>final. and_then (follow_store_paths env (hash_order env (final - original)))
        (\<lambda>new. and_then (record_count num_original_paths_update (card original))
        (\<lambda>_. and_then (record_count num_final_paths_update (card final))
        (\<lambda>_. and_then (record_count num_new_paths_update (length new))
        (\<lambda>_. and_then (enqueue_paths env cfg new)
        (\<lambda>_. return_ok
               \<lparr>wf_original_paths = Some (of_nat (card original)),
                wf_final_paths = Some (of_nat (card final)),
                wf_new_paths = Some (of_nat (length new))\<rparr>)))))) s0)"

definition finish_flakehub :: "'w server_env \<Rightarrow> ('w server, server_error, unit) comp" where
  "finish_flakehub env s =
     (if flakehub_on s
      then and_then (outside (push_session_wait env) FlakeHub) (\<lambda>_. return_ok ()) (s\<lparr>flakehub_on := False\<rparr>)
      else (Ok (), s))"

definition dump_logfile :: "'w server_env \<Rightarrow> server_config \<Rightarrow> ('w server, server_error, unit) comp" where
  "dump_logfile env cfg =
     (case logfile cfg of
        Some f \<Rightarrow> and_then (outside (read_logfile env f) (\<lambda>e. Io e (''Reading '' @ display f)))
                    (\<lambda>_. return_ok ())
      | None \<Rightarrow> return_ok ())"

definition workflow_finish ::
  "'w server_env \<Rightarrow> server_config \<Rightarrow> ('w server, server_error, workflow_finish_response) comp" where
  "workflow_finish env cfg =
     and_then
       (if diff_store cfg then diff_and_enqueue env cfg
        else return_ok \<lparr>wf_original_paths = None, wf_final_paths = None, wf_new_paths = None\<rparr>)
       (\<lambda>response. and_then
          (case gha_api cfg of Some a \<Rightarrow> gha_shutdown env a | None \<Rightarrow> return_ok ())
       (\<lambda>_. and_then (finish_flakehub env)
       (\<lambda>_. and_then (modify (\<lambda>s. s\<lparr>shutdown_cancelled := True\<rparr>))
       (\<lambda>_. and_then (dump_logfile env cfg)
       (\<lambda>_. return_ok response)))))"

section \<open>Build events of determinate-nixd\<close>

definition data_prefix :: bytes where
  "data_prefix = ''data: ''"

fun strip_prefix :: "'a list \<Rightarrow> 'a list \<Rightarrow> 'a list option" where
  "strip_prefix [] s = Some s"
| "strip_prefix (p # ps) [] = None"
| "strip_prefix (p # ps) (x # xs) = (if p = x then strip_prefix ps xs else None)"

text \<open>One frame of the subscription; every failure is logged and the loop goes on.\<close>

definition handle_frame :: "'w server_env \<Rightarrow> server_config \<Rightarrow> bytes \<Rightarrow> 'w server \<Rightarrow> 'w server" where
  "handle_frame env cfg frame s =
     (case strip_prefix data_prefix frame of
        None \<Rightarrow> s
      | Some body \<Rightarrow>
          (case json_built_path env body of
             Inl e \<Rightarrow> s
           | Inr (drv, outputs) \<Rightarrow>
               (case follow_store_paths env outputs s of
                  (Ok store_paths, s1) \<Rightarrow> snd (enqueue_paths env cfg store_paths s1)
                | (_, s1) \<Rightarrow> s1)))"

text \<open>The frames of one connection, up to the first receive error, which breaks the inner loop.\<close>

fun handle_stream :: "'w server_env \<Rightarrow> server_config \<Rightarrow> (string + bytes) list \<Rightarrow> 'w server \<Rightarrow> 'w server" where
  "handle_stream env cfg [] s = s"
| "handle_stream env cfg (Inl e # frames) s = s"
| "handle_stream env cfg (Inr frame # frames) s = handle_stream env cfg frames (handle_frame env cfg frame s)"

end
