(* ===== verification/ServerRun.thy ===== *)
theory ServerRun
  imports ActionApi
begin

text \<open>
  The running server: every handler, the worker and the event loop as steps on the shared state, in
  any order. The locale \<open>server_invariant\<close> says what a predicate on the state has to withstand
  (client operations, each field update the handlers make) and proves once that every operation
  keeps it; \<open>counting_invariant\<close> adds what the narinfo lookup does. The interpretations are the
  invariants of the server: the telemetry balance, the breaker flag, the shape of the queue.
\<close>

section \<open>Invariants of the operations\<close>

definition flagging :: "server_config \<Rightarrow> bool" where
  "flagging cfg \<longleftrightarrow> (case gha_api cfg of Some a \<Rightarrow> breaker_callback a = mark_tripped | None \<Rightarrow> True)"

definition preserves :: "('s \<Rightarrow> bool) \<Rightarrow> ('s, 'e, 'a) comp \<Rightarrow> bool" where
  "preserves I = keeps (\<lambda>s t. I s \<longrightarrow> I t)"

interpretation pres: evolution "\<lambda>s t. I s \<longrightarrow> I t" for I
  by unfold_locales auto

lemmas preserves_steps = pres.and_then [folded preserves_def] pres.return_ok [folded preserves_def]
  pres.throw [folded preserves_def] pres.lift_result [folded preserves_def]

lemma preservesI: "(\<And>s. I s \<Longrightarrow> I (snd (m s))) \<Longrightarrow> preserves I m"
  by (simp add: preserves_def keeps_def)

lemma preservesD: "preserves I m \<Longrightarrow> I s \<Longrightarrow> I (snd (m s))"
  by (simp add: preserves_def keeps_def)

lemma preservesD_run: "preserves I m \<Longrightarrow> m s = (r, t) \<Longrightarrow> I s \<Longrightarrow> I t"
  by (metis preservesD snd_conv)

locale server_invariant =
  fixes I :: "'w server \<Rightarrow> bool"
  assumes client: "client_evolves a s t \<Longrightarrow> breaker_callback a = mark_tripped \<Longrightarrow> I s \<Longrightarrow> I t"
    and ext: "I s \<Longrightarrow> I (s\<lparr>ext := w\<rparr>)"
    and negative: "I s \<Longrightarrow> I (s\<lparr>narinfo_negative_cache := c\<rparr>)"
    and originals: "I s \<Longrightarrow> I (s\<lparr>original_paths := ps\<rparr>)"
    and flakehub: "I s \<Longrightarrow> I (s\<lparr>flakehub_on := b\<rparr>)"
    and cancelled: "I s \<Longrightarrow> I (s\<lparr>shutdown_cancelled := b\<rparr>)"
    and served: "I s \<Longrightarrow> I (s\<lparr>cb_state := narinfos_served_update f (cb_state s)\<rparr>)"
    and nars_served: "I s \<Longrightarrow> I (s\<lparr>cb_state := nars_served_update f (cb_state s)\<rparr>)"
    and nars_upstream: "I s \<Longrightarrow> I (s\<lparr>cb_state := nars_sent_upstream_update f (cb_state s)\<rparr>)"
    and uploaded: "I s \<Longrightarrow> I (s\<lparr>cb_state := narinfos_uploaded_update f (cb_state s)\<rparr>)"
    and nars_uploaded: "I s \<Longrightarrow> I (s\<lparr>cb_state := nars_uploaded_update f (cb_state s)\<rparr>)"
    and num_original: "I s \<Longrightarrow> I (s\<lparr>cb_state := num_original_paths_update f (cb_state s)\<rparr>)"
    and num_final: "I s \<Longrightarrow> I (s\<lparr>cb_state := num_final_paths_update f (cb_state s)\<rparr>)"
    and num_new: "I s \<Longrightarrow> I (s\<lparr>cb_state := num_new_paths_update f (cb_state s)\<rparr>)"
    and seen: "I s \<Longrightarrow> I (s\<lparr>worker_done := d\<rparr>)"
    and died: "worker_result s = None \<Longrightarrow> I s \<Longrightarrow> I (worker_stop (Panic msg) s)"
    and ended: "channel s = Shutdown # q \<Longrightarrow> I s \<Longrightarrow> I (worker_stop (Ok ()) s)"
    and taken: "channel s = Upload path # q \<Longrightarrow> I s \<Longrightarrow> I (s\<lparr>channel := q\<rparr>)"
    and queued: "worker_result s = None \<Longrightarrow> I s \<Longrightarrow> I (s\<lparr>channel := channel s @ [Upload path]\<rparr>)"
    and closing: "I s \<Longrightarrow> I (s\<lparr>worker_handle := False\<rparr>)"
    and closed: "worker_result s = None \<Longrightarrow> \<not> worker_handle s \<Longrightarrow> I s \<Longrightarrow>
                   I (s\<lparr>channel := channel s @ [Shutdown]\<rparr>)"
begin

lemma api_call_preserves:
  fixes a :: "telemetry_report api"
  assumes "breaker_callback a = mark_tripped" and "keeps (api_evolves (breaker_callback a)) m"
  shows "preserves I (api_call m)"
  by (rule preservesI) (rule client [OF keeps_snd [OF api_call_evolves [OF assms(2)]] assms(1)])

lemma outside_preserves: "preserves I (outside f wrap)"
  by (rule preservesI) (simp add: ext)

lemma store_file_preserves:
  "breaker_callback a = mark_tripped \<Longrightarrow> preserves I (store_file env a key r)"
  by (rule preservesI) (rule client [OF keeps_snd [OF store_file_evolves]])

lemma bump_preserves:
  "preserves I (bump narinfos_served_update)" "preserves I (bump nars_served_update)"
  "preserves I (bump nars_sent_upstream_update)" "preserves I (bump narinfos_uploaded_update)"
  "preserves I (bump nars_uploaded_update)"
  by (rule preservesI; simp add: bump_def served nars_served nars_upstream uploaded nars_uploaded)+

lemma record_count_preserves:
  "preserves I (record_count num_original_paths_update n)"
  "preserves I (record_count num_final_paths_update n)"
  "preserves I (record_count num_new_paths_update n)"
  by (rule preservesI; simp add: record_count_def num_original num_final num_new)+

lemma modify_preserves:
  "preserves I (modify (\<lambda>s. s\<lparr>narinfo_negative_cache := g s\<rparr>))"
  "preserves I (modify (\<lambda>s. s\<lparr>original_paths := ps\<rparr>))"
  "preserves I (modify (\<lambda>s. s\<lparr>shutdown_cancelled := b\<rparr>))"
  by (rule preservesI; simp add: negative originals cancelled)+

lemma redirect_preserves: "preserves I (redirect_temporary env u)"
  by (rule preservesI) simp

lemma pull_through_preserves: "preserves I (pull_through env cfg path)"
  by (rule preservesI) simp

lemmas steps = preserves_steps outside_preserves bump_preserves record_count_preserves
  modify_preserves redirect_preserves pull_through_preserves

lemma query_cache_preserves: "flagging cfg \<Longrightarrow> preserves I (query_cache env cfg key)"
  unfolding query_cache_def flagging_def
  by (cases "gha_api cfg")
     (auto simp del: return_ok_simp intro!: preserves_steps api_call_preserves get_file_url_evolves)

lemma put_narinfo_preserves: "flagging cfg \<Longrightarrow> preserves I (put_narinfo env cfg p b)"
proof (rule preservesI)
  fix s assume cfg: "flagging cfg" and s: "I s"
  show "I (snd (put_narinfo env cfg p b s))"
  proof (cases "narinfo_hash p = None \<or> gha_api cfg = None")
    case False
    then obtain h a where ha: "narinfo_hash p = Some h" "gha_api cfg = Some a" by auto
    with cfg have "preserves I (and_then (store_file env a (narinfo_key h) b)
        (\<lambda>_. and_then (bump narinfos_uploaded_update)
        (\<lambda>_. modify (\<lambda>s. s\<lparr>narinfo_negative_cache := narinfo_negative_cache s - {h}\<rparr>))))"
      by (intro steps store_file_preserves) (simp add: flagging_def)
    with s ha show ?thesis by (simp add: put_narinfo_def preservesD)
  qed (use s in \<open>auto simp: put_narinfo_def split: option.split\<close>)
qed

lemma get_nar_preserves: "flagging cfg \<Longrightarrow> preserves I (get_nar env cfg p)"
  unfolding get_nar_def flagging_def
  by (cases "gha_api cfg"; cases "upstream cfg")
     (auto simp del: throw_simp intro!: steps api_call_preserves get_file_url_evolves split: option.split)

lemma put_nar_preserves: "flagging cfg \<Longrightarrow> preserves I (put_nar env cfg p b)"
  unfolding put_nar_def flagging_def
  by (cases "gha_api cfg") (auto simp del: throw_simp intro!: steps store_file_preserves)

lemma open_nar_preserves: "preserves I (open_nar env path)"
  by (rule preservesI) (simp add: open_nar_def ext split: prod.split)

lemma upload_path_preserves:
  assumes "breaker_callback a = mark_tripped"
  shows "preserves I (upload_path env a path)"
  unfolding upload_path_def upload_nar_def upload_narinfo_def Let_def
  by (intro steps api_call_preserves [OF assms] allocate_evolves upload_file_evolves open_nar_preserves)

lemma worker_upload_preserves:
  assumes "breaker_callback a = mark_tripped" and "I s" and running: "worker_result s = None"
  shows "I (worker_upload env a path s)"
proof (rule worker_upload_cases [where s = s and path = path and env = env and a = a])
  have s: "I (s\<lparr>worker_done := insert path (worker_done s)\<rparr>)"
    using assms(2) by (rule seen)
  note up = upload_path_preserves [OF assms(1), of env path]
  show "worker_upload env a path s = s \<Longrightarrow> ?thesis" using assms(2) by simp
  show ?thesis
    if u: "upload_path env a path (s\<lparr>worker_done := insert path (worker_done s)\<rparr>) = (Panic p, t)"
      and w: "worker_upload env a path s = worker_stop (Panic p) t" for p t
    using died [of t p] preservesD_run [OF up u s] upload_path_frame(2) [OF u] running w by simp
  show ?thesis
    if u: "upload_path env a path (s\<lparr>worker_done := insert path (worker_done s)\<rparr>) = (r, t)"
      and w: "worker_upload env a path s = t" for r t
    using preservesD_run [OF up u s] w by simp
qed

lemma worker_step_preserves:
  assumes "breaker_callback a = mark_tripped" and "I s"
  shows "I (worker_step env a s)"
proof (cases "worker_result s = None \<and> channel s \<noteq> []")
  case True
  then obtain rq q where ch: "channel s = rq # q" by (cases "channel s") auto
  show ?thesis
  proof (cases rq)
    case Shutdown
    with True ch ended [of s q] assms(2) show ?thesis by (simp add: worker_step_def)
  next
    case (Upload path)
    with ch assms(2) have "I (s\<lparr>channel := q\<rparr>)" by (intro taken) simp_all
    with worker_upload_preserves [OF assms(1), of "s\<lparr>channel := q\<rparr>"] True ch Upload show ?thesis
      by (simp add: worker_step_def)
  qed
next
  case False
  then have "worker_step env a s = s" by (intro worker_step_idle) auto
  with assms(2) show ?thesis by simp
qed

lemma worker_run_preserves:
  "breaker_callback a = mark_tripped \<Longrightarrow> I s \<Longrightarrow> I (worker_run env a s)"
proof (induction env a s rule: worker_run.induct)
  case (1 env a s)
  then show ?case
    using worker_step_preserves worker_run_step [of env a s]
    by (cases "worker_result s = None \<and> channel s \<noteq> []") auto
qed

lemma gha_shutdown_preserves:
  assumes "breaker_callback a = mark_tripped"
  shows "preserves I (gha_shutdown env a)"
proof (rule preservesI)
  fix s assume s: "I s"
  then have h: "I (s\<lparr>worker_handle := False\<rparr>)" by (rule closing)
  show "I (snd (gha_shutdown env a s))"
  proof (cases "worker_result s")
    case None
    then have "I (s\<lparr>worker_handle := False, channel := channel s @ [Shutdown]\<rparr>)"
      using closed [OF _ _ h] by simp
    with None s worker_run_preserves assms show ?thesis
      by (auto simp: gha_shutdown_def channel_send_def Let_def)
  next
    case (Some r)
    with s h show ?thesis by (simp add: gha_shutdown_def channel_send_def)
  qed
qed

lemma send_uploads_preserves: "preserves I (send_uploads ps)"
proof (rule preservesI)
  show "I (snd (send_uploads ps s))" if "I s" for s
    using that queued
    by (induction ps arbitrary: s) (simp_all add: channel_send_def)
qed

lemma gha_enqueue_paths_preserves: "preserves I (gha_enqueue_paths env ps)"
  unfolding gha_enqueue_paths_def by (intro steps send_uploads_preserves)

lemma enqueue_paths_preserves: "preserves I (enqueue_paths env cfg ps)"
proof -
  have "preserves I (\<lambda>s. if flakehub_on s then flakehub_enqueue_paths env ps s else (Ok (), s))"
    using outside_preserves by (auto simp: flakehub_enqueue_paths_def preserves_def keeps_def)
  then show ?thesis
    unfolding enqueue_paths_def
    by (cases "gha_api cfg")
       (auto simp del: return_ok_simp intro!: preserves_steps gha_enqueue_paths_preserves)
qed

lemma follow_store_paths_preserves: "preserves I (follow_store_paths env ps)"
proof (induction ps)
  case Nil
  show ?case by (rule preservesI) simp
next
  case (Cons p ps)
  then have "preserves I (and_then (outside (follow_store_path env p) Attic)
      (\<lambda>n. and_then (follow_store_paths env ps) (\<lambda>ns. return_ok (n # ns))))"
    by (intro steps)
  then show ?case by (simp add: preserves_def keeps_def)
qed

lemma post_enqueue_paths_preserves: "preserves I (post_enqueue_paths env cfg ps)"
  unfolding post_enqueue_paths_def
  by (intro steps follow_store_paths_preserves enqueue_paths_preserves)

lemma get_store_paths_preserves: "preserves I (get_store_paths env)"
  unfolding get_store_paths_def by (intro steps)

lemma workflow_start_preserves: "preserves I (workflow_start env cfg)"
  unfolding workflow_start_def
  by (cases "diff_store cfg")
     (auto simp del: return_ok_simp intro!: steps get_store_paths_preserves)

lemma diff_and_enqueue_preserves: "preserves I (diff_and_enqueue env cfg)"
proof (rule preservesI)
  fix s assume "I s"
  moreover have "preserves I (and_then (get_store_paths env)
        (\<lambda>final. and_then (follow_store_paths env (hash_order env (final - original_paths s)))
        (\<lambda>new. and_then (record_count num_original_paths_update (card (original_paths s)))
        (\<lambda>_. and_then (record_count num_final_paths_update (card final))
        (\<lambda>_. and_then (record_count num_new_paths_update (length new))
        (\<lambda>_. and_then (enqueue_paths env cfg new)
        (\<lambda>_. return_ok
               \<lparr>wf_original_paths = Some (of_nat (card (original_paths s))),
                wf_final_paths = Some (of_nat (card final)),
                wf_new_paths = Some (of_nat (length new))\<rparr>)))))))"
    by (intro steps get_store_paths_preserves follow_store_paths_preserves enqueue_paths_preserves)
  ultimately show "I (snd (diff_and_enqueue env cfg s))"
    by (simp add: diff_and_enqueue_def Let_def preservesD)
qed

lemma finish_flakehub_preserves: "preserves I (finish_flakehub env)"
proof (rule preservesI)
  fix s assume s: "I s"
  have "preserves I (and_then (outside (push_session_wait env) FlakeHub) (\<lambda>_. return_ok ()))"
    by (intro steps)
  from preservesD [OF this flakehub [OF s]] s show "I (snd (finish_flakehub env s))"
    by (simp add: finish_flakehub_def)
qed

lemma dump_logfile_preserves: "preserves I (dump_logfile env cfg)"
  unfolding dump_logfile_def
  by (cases "logfile cfg") (auto simp del: return_ok_simp intro!: steps)

lemma workflow_finish_preserves: "flagging cfg \<Longrightarrow> preserves I (workflow_finish env cfg)"
  unfolding workflow_finish_def flagging_def
  by (intro steps finish_flakehub_preserves dump_logfile_preserves)
     (auto simp del: return_ok_simp split: option.splits
        intro!: preserves_steps gha_shutdown_preserves diff_and_enqueue_preserves)

lemma handle_frame_preserves: "I s \<Longrightarrow> I (handle_frame env cfg frame s)"
  using preservesD [OF follow_store_paths_preserves] preservesD [OF enqueue_paths_preserves]
  by (auto simp: handle_frame_def split: option.split sum.split prod.splits result.split)
     (metis snd_conv)+

end

text \<open>
  A narinfo lookup that goes upstream counts twice, so the two increments are one change here: a
  balance of the counters does not hold between them.
\<close>

locale counting_invariant = server_invariant +
  assumes hit: "I s \<Longrightarrow>
      I (s\<lparr>cb_state := narinfos_negative_cache_hits_update incr (narinfos_sent_upstream_update incr (cb_state s))\<rparr>)"
    and miss: "I s \<Longrightarrow>
      I (s\<lparr>cb_state := narinfos_negative_cache_misses_update incr (narinfos_sent_upstream_update incr (cb_state s))\<rparr>)"
begin

lemma get_narinfo_preserves:
  assumes "flagging cfg"
  shows "preserves I (get_narinfo env cfg p)"
proof (rule preservesI)
  fix s assume s: "I s"
  obtain r t where run: "get_narinfo env cfg p s = (r, t)" by fastforce
  note q = preservesD_run [OF query_cache_preserves [OF assms] _ s]
  from run have "I t"
  proof (cases rule: get_narinfo_cases)
    case negative
    with hit [OF s] show ?thesis by simp
  next
    case found
    with served [OF q] show ?thesis by blast
  next
    case (absent h s1)
    with miss [OF negative [OF q]] show ?thesis by auto
  qed (use s q in blast)+
  with run show "I (snd (get_narinfo env cfg p s))" by simp
qed

lemma serve_preserves: "flagging cfg \<Longrightarrow> I s \<Longrightarrow> I (serve env cfg rq s)"
  using get_narinfo_preserves put_narinfo_preserves get_nar_preserves put_nar_preserves
  by (cases rq) (simp_all add: preservesD)

end

section \<open>The invariants\<close>

definition balanced_report :: "'w server \<Rightarrow> bool" where
  "balanced_report s = counts_balanced (cb_state s)"

text \<open>
  The queue: a worker that has ended has an empty one; until \<open>shutdown\<close> takes the handle, there is
  no \<open>Shutdown\<close> in it and the worker has not ended normally. The worker never returns an error.
\<close>

definition queue_inv :: "'w server \<Rightarrow> bool" where
  "queue_inv s \<longleftrightarrow>
     (worker_result s \<noteq> None \<longrightarrow> channel s = [])
     \<and> (worker_handle s \<longrightarrow> Shutdown \<notin> set (channel s) \<and> worker_result s \<noteq> Some (Ok ()))
     \<and> (\<forall>e. worker_result s \<noteq> Some (Err e))"

lemma flagging_client_balanced:
  "client_evolves a s t \<Longrightarrow> breaker_callback a = mark_tripped \<Longrightarrow> balanced_report s \<Longrightarrow> balanced_report t"
  by (simp add: balanced_report_def client_evolves_balanced)

lemma client_queue_inv: "client_evolves a s t \<Longrightarrow> queue_inv s \<Longrightarrow> queue_inv t"
  using client_frame [of a s t] by (simp add: queue_inv_def)

interpretation balance: counting_invariant balanced_report
  by unfold_locales
     (blast intro: flagging_client_balanced | simp add: balanced_report_def counts_balanced_def worker_stop_def incr_def)+

interpretation flag: counting_invariant tripped_agrees
  by unfold_locales (blast intro: client_evolves_agrees | simp add: tripped_agrees_def worker_stop_def)+

interpretation shape: counting_invariant queue_inv
  by unfold_locales (blast intro: client_queue_inv | fastforce simp: queue_inv_def worker_stop_def)+

section \<open>The running server\<close>

datatype server_event =
    Cache_Request cache_request
  | Workflow_Start
  | Workflow_Finish
  | Enqueue_Paths "bytes list"
  | Build_Event bytes
  | Worker_Turn

fun handle_event :: "'w server_env \<Rightarrow> server_config \<Rightarrow> server_event \<Rightarrow> 'w server \<Rightarrow> 'w server" where
  "handle_event env cfg (Cache_Request rq) s = serve (gha_env.truncate env) cfg rq s"
| "handle_event env cfg Workflow_Start s = snd (workflow_start env cfg s)"
| "handle_event env cfg Workflow_Finish s = snd (workflow_finish env cfg s)"
| "handle_event env cfg (Enqueue_Paths ps) s = snd (post_enqueue_paths env cfg ps s)"
| "handle_event env cfg (Build_Event frame) s = handle_frame env cfg frame s"
| "handle_event env cfg Worker_Turn s =
     (case gha_api cfg of Some a \<Rightarrow> worker_step env a s | None \<Rightarrow> s)"

context counting_invariant
begin

lemma handle_event_preserves: "flagging cfg \<Longrightarrow> I s \<Longrightarrow> I (handle_event env cfg ev s)"
  by (cases ev)
     (auto simp: serve_preserves preservesD workflow_start_preserves workflow_finish_preserves
        post_enqueue_paths_preserves handle_frame_preserves worker_step_preserves flagging_def
        split: option.splits)

end

text \<open>\<open>StateInner\<close> as \<open>main_cli\<close> and \<open>GhaCache::new\<close> set it up, and what can be reached from there.\<close>

definition startup :: "'w server_env \<Rightarrow> server_config \<Rightarrow> fact list \<Rightarrow> system_time \<Rightarrow> bool \<Rightarrow> 'w \<Rightarrow> 'w server" where
  "startup env cfg rec now fh w =
     \<lparr> tripped = False, cb_state = new_report rec now, ext = w,
       narinfo_negative_cache = {}, channel = [], worker_result = None,
       worker_handle = (gha_api cfg \<noteq> None), worker_done = {}, original_paths = {},
       flakehub_on = fh, shutdown_cancelled = False \<rparr>"

inductive server_reachable :: "'w server_env \<Rightarrow> server_config \<Rightarrow> 'w server \<Rightarrow> bool"
  for env cfg where
  started: "server_reachable env cfg (startup env cfg rec now fh w)"
| handled: "server_reachable env cfg s \<Longrightarrow> server_reachable env cfg (handle_event env cfg ev s)"

context counting_invariant
begin

lemma reachable_invariant:
  assumes "flagging cfg" and "\<And>rec now fh w. I (startup env cfg rec now fh w)"
    and "server_reachable env cfg s"
  shows "I s"
  using assms(3) by induction (simp_all add: assms(1,2) handle_event_preserves)

end

lemma startup_invariants:
  "balanced_report (startup env cfg rec now fh w)" "tripped_agrees (startup env cfg rec now fh w)"
  "queue_inv (startup env cfg rec now fh w)"
  by (simp_all add: startup_def balanced_report_def counts_balanced_def new_report_def
      tripped_agrees_def queue_inv_def)

lemmas reachable_invariants =
  balance.reachable_invariant [OF _ startup_invariants(1)]
  flag.reachable_invariant [OF _ startup_invariants(2)]
  shape.reachable_invariant [OF _ startup_invariants(3)]

end
