(* ===== verification/FinishFacts.thy ===== *)
theory FinishFacts
  imports ServerRun
begin

text \<open>
  What the action API guarantees: a request to enqueue paths takes all of them or none; after a
  successful \<open>workflow_finish\<close> the worker has ended with everything that was queued, and every
  path that the store gained has been handed to it.
\<close>

section \<open>Enqueueing\<close>

lemma follow_store_paths_only_ext: "keeps only_ext (follow_store_paths env ps)"
proof (induction ps)
  case (Cons p ps)
  then have "keeps only_ext (and_then (outside (follow_store_path env p) Attic)
      (\<lambda>n. and_then (follow_store_paths env ps) (\<lambda>ns. return_ok (n # ns))))"
    by (intro outer.and_then outer.return_ok outside_only_ext)
  then show ?case by (simp add: keeps_def)
qed (simp add: keeps_def outer.stays)

lemma follow_store_paths_no_panic: "follow_store_paths env ps s \<noteq> (Panic m, t)"
proof (induction ps arbitrary: s t)
  case (Cons p ps)
  then show ?case by (auto simp: outside_eq and_then_def split: sum.splits prod.splits result.splits)
qed simp

lemma follow_store_paths_length:
  "follow_store_paths env ps s = (Ok ns, t) \<Longrightarrow> length ns = length ps"
proof (induction ps arbitrary: s ns t)
  case (Cons p ps)
  obtain n s1 ns' where "outside (follow_store_path env p) Attic s = (Ok n, s1)"
    and "follow_store_paths env ps s1 = (Ok ns', t)" and "ns = n # ns'"
    using Cons.prems by (auto dest!: and_then_OkD)
  with Cons.IH [of s1 ns' t] show ?case by simp
qed simp

text \<open>Enqueueing with the GitHub cache on: the closure is appended to the channel, in its order.\<close>

lemma gha_enqueue_paths_run:
  assumes "worker_result s = None" and "compute_fs_closure_multi env ps (ext s) = (Inr cl, w)"
  shows "gha_enqueue_paths env ps s = (Ok (), s\<lparr>ext := w, channel := channel s @ map Upload cl\<rparr>)"
  using assms by (simp add: gha_enqueue_paths_def outside_def and_then_def send_uploads_open)

lemma gha_enqueue_paths_OkD:
  assumes "gha_enqueue_paths env ps s = (Ok (), t)" and "worker_result s = None"
  obtains cl w where "fst (compute_fs_closure_multi env ps (ext s)) = Inr cl"
    and "t = s\<lparr>ext := w, channel := channel s @ map Upload cl\<rparr>"
  using assms
  by (auto simp: gha_enqueue_paths_def outside_eq and_then_def send_uploads_open split: sum.splits)

lemma enqueue_paths_OkD:
  assumes "enqueue_paths env cfg ps s = (Ok (), t)" and "gha_api cfg = Some a"
    and "worker_result s = None"
  obtains cl w where "fst (compute_fs_closure_multi env ps (ext s)) = Inr cl"
    and "t = s\<lparr>ext := w, channel := channel s @ map Upload cl\<rparr>"
proof -
  from assms(1,2) obtain s1 where g: "gha_enqueue_paths env ps s = (Ok (), s1)"
    and f: "(if flakehub_on s1 then flakehub_enqueue_paths env ps s1 else (Ok (), s1)) = (Ok (), t)"
    by (auto simp: enqueue_paths_def dest!: and_then_OkD)
  from f obtain w where t: "t = s1\<lparr>ext := w\<rparr>"
    using keepsD [OF outside_only_ext, of "push_queue_many env ps" FlakeHub s1 "Ok ()" t] outer.stays [of s1]
    by (auto simp: flakehub_enqueue_paths_def only_ext_def split: if_splits)
  obtain cl w' where "fst (compute_fs_closure_multi env ps (ext s)) = Inr cl"
    and "s1 = s\<lparr>ext := w', channel := channel s @ map Upload cl\<rparr>"
    using gha_enqueue_paths_OkD [OF g assms(3)] .
  with t show thesis by (intro that [of cl w]) auto
qed

section \<open>Shutting down\<close>

lemma gha_shutdown_OkD:
  assumes "gha_shutdown env a s = (Ok (), t)" and "worker_handle s" and "queue_inv s"
  shows "worker_result t = Some (Ok ())" and "channel t = []" and "\<not> worker_handle t"
    and "\<not> tripped t \<Longrightarrow> worker_done t = worker_done s \<union> {p. Upload p \<in> set (channel s)}"
proof -
  have run: "worker_result s = None"
    using assms gha_shutdown_dead [of s env a] by force
  from assms(2,3) obtain ps where ch: "channel s = map Upload ps"
    using channel_only_uploads [of "channel s"] by (auto simp: queue_inv_def)
  let ?s = "s\<lparr>worker_handle := False\<rparr>"
  let ?t = "upload_each env a (fresh (worker_done s) ps) ?s"
  from assms(1) gha_shutdown_drains [OF assms(2) run ch, of env a]
  have t: "t = finish ?t" and "shutdown_answer ?t = Ok ()"
    by (simp_all add: Let_def)
  then have res: "worker_result ?t = None"
    by (simp add: shutdown_answer_def split: if_splits)
  with t show "worker_result t = Some (Ok ())" "channel t = []" by (simp_all add: finish_def)
  from t res show "\<not> worker_handle t"
    using upload_each_frame [of ?s env a "fresh (worker_done s) ps"] run by (simp add: finish_def)
  show "worker_done t = worker_done s \<union> {p. Upload p \<in> set (channel s)}" if "\<not> tripped t"
    using that t res run worker_done_complete [of ?s env a "fresh (worker_done s) ps"] ch
    by (auto simp: finish_def set_fresh)
qed

section \<open>Finishing\<close>

lemma diff_and_enqueue_OkD:
  assumes run: "diff_and_enqueue env cfg s = (Ok resp, t)" and "gha_api cfg = Some a"
    and "worker_result s = None"
  obtains final s1 new s2 cl where
    "get_store_paths env s = (Ok final, s1)"
    "follow_store_paths env (hash_order env (final - original_paths s)) s1 = (Ok new, s2)"
    "fst (compute_fs_closure_multi env new (ext s2)) = Inr cl"
    "channel t = channel s @ map Upload cl"
    "wf_new_paths resp = Some (of_nat (length new))"
    "worker_result t = None" "worker_handle t = worker_handle s" "worker_done t = worker_done s"
proof -
  from run obtain final s1 new s2 c where
    g: "get_store_paths env s = (Ok final, s1)"
    and f: "follow_store_paths env (hash_order env (final - original_paths s)) s1 = (Ok new, s2)"
    and e: "enqueue_paths env cfg new (s2\<lparr>cb_state := c\<rparr>) = (Ok (), t)"
    and resp: "wf_new_paths resp = Some (of_nat (length new))"
    by (auto simp: diff_and_enqueue_def Let_def record_count_def dest!: and_then_OkD)
  have ext: "only_ext s s2"
    using keepsD [OF get_store_paths_only_ext g] keepsD [OF follow_store_paths_only_ext f]
    by (rule outer.chain)
  obtain cl w where "fst (compute_fs_closure_multi env new (ext s2)) = Inr cl"
    and "t = s2\<lparr>cb_state := c, ext := w, channel := channel s2 @ map Upload cl\<rparr>"
    using enqueue_paths_OkD [OF e assms(2)] only_extD(3) [OF ext] assms(3) by auto
  then have "fst (compute_fs_closure_multi env new (ext s2)) = Inr cl"
    "channel t = channel s2 @ map Upload cl" "worker_result t = worker_result s2"
    "worker_handle t = worker_handle s2" "worker_done t = worker_done s2"
    by simp_all
  then show thesis
    using that [OF g f _ _ resp] only_extD [OF ext] assms(3) by simp
qed

lemma finish_flakehub_OkD:
  assumes "finish_flakehub env s = (Ok u, t)"
  obtains w where "t = s\<lparr>flakehub_on := False, ext := w\<rparr>"
proof (cases "flakehub_on s")
  case True
  with assms that show thesis
    by (auto simp: finish_flakehub_def outside_eq and_then_def split: sum.splits)
next
  case False
  with assms have "t = s\<lparr>flakehub_on := False, ext := ext s\<rparr>" by (auto simp: finish_flakehub_def)
  then show thesis by (rule that)
qed

lemma dump_logfile_only_ext: "keeps only_ext (dump_logfile env cfg)"
  unfolding dump_logfile_def
  by (cases "logfile cfg")
     (auto simp del: return_ok_simp intro!: outer.and_then outer.return_ok outside_only_ext)

text \<open>The state after the queue has been waited for, \<open>u\<close>, and the final one, \<open>t\<close>.\<close>

lemma workflow_finish_OkD:
  assumes "workflow_finish env cfg s = (Ok resp, t)"
  obtains s1 u where
    "(if diff_store cfg then diff_and_enqueue env cfg s
      else (Ok \<lparr>wf_original_paths = None, wf_final_paths = None, wf_new_paths = None\<rparr>, s)) = (Ok resp, s1)"
    "case gha_api cfg of Some a \<Rightarrow> gha_shutdown env a s1 = (Ok (), u) | None \<Rightarrow> u = s1"
    "shutdown_cancelled t" "\<not> flakehub_on t" "channel t = channel u"
    "worker_handle t = worker_handle u" "worker_result t = worker_result u"
    "worker_done t = worker_done u" "tripped t = tripped u"
proof -
  from assms obtain s1 u v where
    d: "(if diff_store cfg then diff_and_enqueue env cfg s
      else (Ok \<lparr>wf_original_paths = None, wf_final_paths = None, wf_new_paths = None\<rparr>, s)) = (Ok resp, s1)"
    and g: "(case gha_api cfg of Some a \<Rightarrow> gha_shutdown env a | None \<Rightarrow> return_ok ()) s1 = (Ok (), u)"
    and f: "finish_flakehub env u = (Ok (), v)"
    and l: "dump_logfile env cfg (v\<lparr>shutdown_cancelled := True\<rparr>) = (Ok (), t)"
    by (auto simp: workflow_finish_def dest!: and_then_OkD split: if_splits)
  from finish_flakehub_OkD [OF f] obtain w where v: "v = u\<lparr>flakehub_on := False, ext := w\<rparr>" .
  have "shutdown_cancelled t" "\<not> flakehub_on t" "channel t = channel u"
    "worker_handle t = worker_handle u" "worker_result t = worker_result u"
    "worker_done t = worker_done u" "tripped t = tripped u"
    using only_extD [OF keepsD [OF dump_logfile_only_ext l]] by (simp_all add: v)
  moreover from g have "case gha_api cfg of Some a \<Rightarrow> gha_shutdown env a s1 = (Ok (), u) | None \<Rightarrow> u = s1"
    by (simp split: option.splits)
  ultimately show thesis using that [OF d] by simp
qed

end
