(* ===== verification/Config.thy ===== *)
theory Config
  imports StorePaths
begin

text \<open>
  The decisions made at startup: \<open>magic-nix-cache/src/env.rs\<close> and, from \<open>main.rs\<close>, the command line
  preferences, their validation, the choice of the FlakeHub authentication source, whether the
  GitHub cache is used, and the lines appended to \<open>nix.conf\<close>. The environment variables are a map
  with the entries \<open>std::env::var\<close> can read. The facts given to the recorder are part of the results.
\<close>

section \<open>env.rs\<close>

datatype environment = GitHubActions | GitLabCI | Other

type_synonym env_vars = "string \<rightharpoonup> string"

definition env_var_is_true :: "env_vars \<Rightarrow> string \<Rightarrow> bool" where
  "env_var_is_true vars e = (case vars e of Some v \<Rightarrow> v = ''true'' | None \<Rightarrow> False)"

definition determine :: "env_vars \<Rightarrow> environment" where
  "determine vars =
     (if env_var_is_true vars ''GITHUB_ACTIONS'' then GitHubActions
      else if env_var_is_true vars ''GITLAB_CI'' then GitLabCI
      else Other)"

fun is_github_actions :: "environment \<Rightarrow> bool" where
  "is_github_actions GitHubActions = True"
| "is_github_actions _ = False"

fun is_gitlab_ci :: "environment \<Rightarrow> bool" where
  "is_gitlab_ci GitLabCI = True"
| "is_gitlab_ci _ = False"

fun environment_text :: "environment \<Rightarrow> string" where
  "environment_text GitHubActions = ''GitHub Actions''"
| "environment_text GitLabCI = ''GitLab CI''"
| "environment_text Other = ''an unspecified environment''"

section \<open>Preferences\<close>

datatype cache_trinary = NoPreference | Enabled | Disabled

fun cache_trinary_from :: "cache_trinary option option \<Rightarrow> cache_trinary" where
  "cache_trinary_from None = NoPreference"
| "cache_trinary_from (Some None) = Enabled"
| "cache_trinary_from (Some (Some v)) = v"

datatype dnixd = Available | Missing

fun dnixd_from :: "bool \<Rightarrow> dnixd" where
  "dnixd_from True = Available"
| "dnixd_from False = Missing"

text \<open>The enumerations are finite types, so a statement over all configurations can be computed.\<close>

instantiation environment :: enum
begin

definition enum_environment :: "environment list" where
  "enum_environment = [GitHubActions, GitLabCI, Other]"
definition enum_all_environment :: "(environment \<Rightarrow> bool) \<Rightarrow> bool" where
  "enum_all_environment P \<longleftrightarrow> P GitHubActions \<and> P GitLabCI \<and> P Other"
definition enum_ex_environment :: "(environment \<Rightarrow> bool) \<Rightarrow> bool" where
  "enum_ex_environment P \<longleftrightarrow> P GitHubActions \<or> P GitLabCI \<or> P Other"

instance
  by standard
    (auto simp: enum_environment_def enum_all_environment_def enum_ex_environment_def,
     (metis (full_types) environment.exhaust)+)

end

instantiation cache_trinary :: enum
begin

definition enum_cache_trinary :: "cache_trinary list" where
  "enum_cache_trinary = [NoPreference, Enabled, Disabled]"
definition enum_all_cache_trinary :: "(cache_trinary \<Rightarrow> bool) \<Rightarrow> bool" where
  "enum_all_cache_trinary P \<longleftrightarrow> P NoPreference \<and> P Enabled \<and> P Disabled"
definition enum_ex_cache_trinary :: "(cache_trinary \<Rightarrow> bool) \<Rightarrow> bool" where
  "enum_ex_cache_trinary P \<longleftrightarrow> P NoPreference \<or> P Enabled \<or> P Disabled"

instance
  by standard
    (auto simp: enum_cache_trinary_def enum_all_cache_trinary_def enum_ex_cache_trinary_def,
     (metis (full_types) cache_trinary.exhaust)+)

end

text \<open>The command line options these decisions read.\<close>

record args =
  use_gha_cache :: "cache_trinary option option"
  use_flakehub :: "cache_trinary option option"
  flakehub_api_server_netrc :: "bytes option"

definition github_cache_preference :: "args \<Rightarrow> cache_trinary" where
  "github_cache_preference args = cache_trinary_from (use_gha_cache args)"

definition flakehub_preference :: "args \<Rightarrow> cache_trinary" where
  "flakehub_preference args = cache_trinary_from (use_flakehub args)"

definition validate :: "args \<Rightarrow> environment \<Rightarrow> (server_error, unit) result" where
  "validate args environment =
     (if is_gitlab_ci environment \<and> github_cache_preference args = Enabled
      then Err (Config ''the --use-gha-cache flag should not be applied in GitLab CI'')
      else if is_gitlab_ci environment \<and> flakehub_preference args \<noteq> Enabled
      then Err (Config ''you must set --use-flakehub in GitLab CI'')
      else Ok ())"

section \<open>The FlakeHub authentication source\<close>

definition DETERMINATE_STATE_DIR :: string where
  "DETERMINATE_STATE_DIR = ''/nix/var/determinate''"

definition DETERMINATE_NETRC_PATH :: string where
  "DETERMINATE_NETRC_PATH = ''/nix/var/determinate/netrc''"

datatype flakehub_auth_source = DeterminateNixd | Netrc_File bytes

fun as_path_buf :: "flakehub_auth_source \<Rightarrow> bytes" where
  "as_path_buf (Netrc_File path) = path"
| "as_path_buf DeterminateNixd = path_join DETERMINATE_STATE_DIR ''netrc''"

type_synonym facts = "(string \<times> string) list"

text \<open>
  The \<open>match\<close> that picks the source, arm by arm, with the facts it records; \<open>exists_path\<close> is
  \<open>path.exists()\<close>. The last arm is the only error.
\<close>

fun flakehub_auth_method ::
  "(bytes \<Rightarrow> bool) \<Rightarrow> cache_trinary \<Rightarrow> bytes option \<Rightarrow> dnixd
     \<Rightarrow> facts \<times> (string, flakehub_auth_source option) result"
where
  "flakehub_auth_method exists_path Disabled netrc dn = ([(''flakehub_cache'', ''disabled'')], Ok None)"
| "flakehub_auth_method exists_path NoPreference None Missing = ([], Ok None)"
| "flakehub_auth_method exists_path pref netrc Available =
     ((if pref = NoPreference then [(''flakehub_cache'', ''enabled'')] else [])
        @ (if netrc \<noteq> None then [(''user_netrc_path'', ''ignored'')] else []),
      Ok (Some DeterminateNixd))"
| "flakehub_auth_method exists_path pref (Some path) Missing =
     (if exists_path path
      then ([(''user_netrc_path'', display path)], Ok (Some (Netrc_File path)))
      else ([], Ok None))"
| "flakehub_auth_method exists_path Enabled None Missing =
     ([], Err ''--flakehub-api-server-netrc is required when determinate-nixd is unavailable'')"

text \<open>Whether the GitHub cache is set up, once it is known whether FlakeHub is.\<close>

definition uses_gha_cache :: "args \<Rightarrow> bool \<Rightarrow> bool" where
  "uses_gha_cache args flakehub_is_some \<longleftrightarrow>
     github_cache_preference args = Enabled
     \<or> github_cache_preference args = NoPreference \<and> \<not> flakehub_is_some"

section \<open>nix.conf\<close>

definition fallback_line :: string where
  "fallback_line = ''fallback = true\<newline>''"

definition flakehub_conf_lines :: "string \<Rightarrow> flakehub_auth_source \<Rightarrow> string" where
  "flakehub_conf_lines flakehub_cache_server auth =
     (case auth of
        Netrc_File path \<Rightarrow>
          ''extra-substituters = '' @ flakehub_cache_server @ ''?trusted=1\<newline>netrc-file = ''
          @ display path @ ''\<newline>''
      | DeterminateNixd \<Rightarrow> [])"

definition gha_conf_line :: "string \<Rightarrow> string" where
  "gha_conf_line listener_addr =
     ''extra-substituters = http://'' @ listener_addr
     @ ''?trusted=1&compression=zstd&parallel-compression=true&priority=1\<newline>''"

section \<open>Facts\<close>

lemma as_path_buf_determinate: "as_path_buf DeterminateNixd = DETERMINATE_NETRC_PATH"
  by (simp add: path_join_def DETERMINATE_STATE_DIR_def DETERMINATE_NETRC_PATH_def)

text \<open>The result of the choice, as one table.\<close>

lemma flakehub_auth_method_result:
  "snd (flakehub_auth_method ex pref netrc dn) =
     (if pref = Disabled then Ok None
      else if dn = Available then Ok (Some DeterminateNixd)
      else case netrc of
             Some path \<Rightarrow> Ok (if ex path then Some (Netrc_File path) else None)
           | None \<Rightarrow>
               if pref = Enabled
               then Err ''--flakehub-api-server-netrc is required when determinate-nixd is unavailable''
               else Ok None)"
  by (cases pref; cases netrc; cases dn) simp_all

lemma validate_Ok_iff:
  "validate args e = Ok () \<longleftrightarrow>
     e \<noteq> GitLabCI \<or> github_cache_preference args \<noteq> Enabled \<and> flakehub_preference args = Enabled"
  by (cases e) (auto simp: validate_def)

end
