(* ===== verification/ChunkPool.thy ===== *)
theory ChunkPool
  imports Uploads "HOL-Library.Multiset"
begin

text \<open>
  The concurrency of a version 1 upload (\<open>Api::upload_file\<close>, \<open>FileAllocation::V1\<close>). The main loop
  reads chunks and spawns a task for each; a task waits for one of the semaphore's permits, sends
  its chunk, gives the permit back, and then consults the circuit breaker; the main function joins
  the tasks in order. \<open>pool_step\<close> is one step of any of them, so a run of it is any interleaving.
  The ghost field \<open>sent\<close> logs the chunks in the order in which their requests are sent.
  \<open>Api\<close> shares one semaphore between uploads: \<open>permits\<close> starts at whatever the others leave.
\<close>

section \<open>Pools\<close>

datatype task_stage =
    Waiting
  | Holding
  | Released "(gha_error, unit) result"
  | Finished "(gha_error, unit) result"

datatype main_phase = Reading | Joining | Read_Failed gha_error

record ('c, 'w) pool =
  source :: reader
  pool_offset :: usize
  phase :: main_phase
  tasks :: "(chunk_task \<times> task_stage) list"
  permits :: nat
  sent :: "chunk_task list"
  world :: "('c, 'w) api_world"

definition start_pool :: "nat \<Rightarrow> reader \<Rightarrow> ('c, 'w) api_world \<Rightarrow> ('c, 'w) pool" where
  "start_pool n r s =
     \<lparr>source = r, pool_offset = 0, phase = Reading, tasks = [], permits = n, sent = [], world = s\<rparr>"

inductive pool_step ::
  "'w gha_env \<Rightarrow> 'c api \<Rightarrow> cache_id \<Rightarrow> ('c, 'w) pool \<Rightarrow> ('c, 'w) pool \<Rightarrow> bool"
  for env :: "'w gha_env" and a :: "'c api" and cid :: cache_id
where
  spawn: "\<lbrakk>phase p = Reading; next_chunk (source p) = (Ok chunk, r'); chunk \<noteq> []\<rbrakk> \<Longrightarrow>
    pool_step env a cid p
      (p\<lparr>source := r', pool_offset := pool_offset p + of_nat (length chunk),
         tasks := tasks p @ [((pool_offset p, chunk), Waiting)]\<rparr>)"
| read_end: "\<lbrakk>phase p = Reading; next_chunk (source p) = (Ok [], r')\<rbrakk> \<Longrightarrow>
    pool_step env a cid p (p\<lparr>source := r', phase := Joining\<rparr>)"
| read_fail: "\<lbrakk>phase p = Reading; next_chunk (source p) = (Err e, r')\<rbrakk> \<Longrightarrow>
    pool_step env a cid p (p\<lparr>source := r', phase := Read_Failed e\<rparr>)"
| acquire: "\<lbrakk>tasks p = xs @ (t, Waiting) # ys; 0 < permits p\<rbrakk> \<Longrightarrow>
    pool_step env a cid p (p\<lparr>tasks := xs @ (t, Holding) # ys, permits := permits p - 1\<rparr>)"
| send_fail: "\<lbrakk>tasks p = xs @ (t, Holding) # ys;
    send env (client a) (patch_request a cid t) (world p) = (Err e, w)\<rbrakk> \<Longrightarrow>
    pool_step env a cid p
      (p\<lparr>tasks := xs @ (t, Finished (Err e)) # ys, permits := Suc (permits p),
         sent := sent p @ [t], world := w\<rparr>)"
| send_ok: "\<lbrakk>tasks p = xs @ (t, Holding) # ys;
    send env (client a) (patch_request a cid t) (world p) = (Ok res, w)\<rbrakk> \<Longrightarrow>
    pool_step env a cid p
      (p\<lparr>tasks := xs @ (t, Released (check env res)) # ys, permits := Suc (permits p),
         sent := sent p @ [t], world := w\<rparr>)"
| consult: "tasks p = xs @ (t, Released r) # ys \<Longrightarrow>
    pool_step env a cid p
      (p\<lparr>tasks := xs @ (t, Finished r) # ys, world := check_result a r (world p)\<rparr>)"

inductive_cases pool_stepE: "pool_step env a cid p q"

abbreviation pool_run where
  "pool_run env a cid \<equiv> (pool_step env a cid)\<^sup>*\<^sup>*"

section \<open>What every interleaving keeps\<close>

fun holds_permit :: "task_stage \<Rightarrow> bool" where
  "holds_permit Holding = True"
| "holds_permit _ = False"

fun was_sent :: "task_stage \<Rightarrow> bool" where
  "was_sent (Released _) = True"
| "was_sent (Finished _) = True"
| "was_sent _ = False"

definition holders :: "('c, 'w) pool \<Rightarrow> nat" where
  "holders p = length (filter (holds_permit \<circ> snd) (tasks p))"

text \<open>
  The invariant: permits are neither lost nor made; each request that was sent belongs to one task,
  and each task past its sending was sent once; the tasks spawned so far are the first of those the
  source will give; the world has only evolved, and a finished task that saw exhaustion has tripped
  the breaker.
\<close>

definition pool_inv ::
  "'c api \<Rightarrow> nat \<Rightarrow> reader \<Rightarrow> ('c, 'w) api_world \<Rightarrow> ('c, 'w) pool \<Rightarrow> bool" where
  "pool_inv a n r s p \<longleftrightarrow>
     permits p + holders p = n
     \<and> mset (sent p) = mset (map fst (filter (was_sent \<circ> snd) (tasks p)))
     \<and> (case phase p of
          Reading \<Rightarrow> (\<forall>ts res. spawn_chunks (pool_offset p) (source p) = (ts, res) \<longrightarrow>
                        spawn_chunks 0 r = (map fst (tasks p) @ ts, res))
        | Joining \<Rightarrow> spawn_chunks 0 r = (map fst (tasks p), Ok (pool_offset p))
        | Read_Failed e \<Rightarrow> spawn_chunks 0 r = (map fst (tasks p), Err e))
     \<and> api_evolves (breaker_callback a) s (world p)
     \<and> (\<forall>t e. (t, Finished (Err e)) \<in> set (tasks p) \<longrightarrow> exhausts_resources e \<longrightarrow> tripped (world p))"

lemma pool_inv_start: "pool_inv a n r s (start_pool n r s)"
  by (simp add: pool_inv_def start_pool_def holders_def api_evolves_refl)

lemma spawn_chunks_next:
  assumes "next_chunk r = (Ok chunk, r')" and "chunk \<noteq> []"
    and "spawn_chunks (off + of_nat (length chunk)) r' = (ts, res)"
  shows "spawn_chunks off r = ((off, chunk) # ts, res)"
  using assms by (simp add: spawn_chunks.simps [of off r])

lemma spawn_chunks_end: "next_chunk r = (Ok [], r') \<Longrightarrow> spawn_chunks off r = ([], Ok off)"
  by (simp add: spawn_chunks.simps [of off r])

lemma spawn_chunks_fail: "next_chunk r = (Err e, r') \<Longrightarrow> spawn_chunks off r = ([], Err e)"
  by (simp add: spawn_chunks.simps [of off r])

lemma send_frame:
  assumes "send env cl rq s = (r, t)"
  shows "tripped t = tripped s" "r = Err e \<Longrightarrow> \<not> exhausts_resources e"
  using assms by (auto simp: send_def split: prod.splits sum.splits)

lemma send_no_panic: "send env cl rq s \<noteq> (Panic m, t)"
  by (auto simp: send_def split: prod.splits sum.splits)

lemma check_result_trips:
  "exhausts_resources e \<Longrightarrow> tripped (check_result a (Err e) s)"
  "tripped s \<Longrightarrow> tripped (check_result a r s)"
  by (simp add: check_err_def) (cases r; simp add: check_err_def)

lemma pool_step_inv:
  assumes "pool_step env a cid p q" and "pool_inv a n r s p"
  shows "pool_inv a n r s q"
  using assms
proof (induction rule: pool_step.induct)
  case (spawn p chunk r')
  have "spawn_chunks 0 r = (map fst (tasks p) @ (pool_offset p, chunk) # ts, res)"
    if "spawn_chunks (pool_offset p + of_nat (length chunk)) r' = (ts, res)" for ts res
    using spawn spawn_chunks_next [OF spawn(2,3) that] by (auto simp: pool_inv_def)
  with spawn show ?case by (auto simp: pool_inv_def holders_def)
next
  case (read_end p r')
  with spawn_chunks_end [OF read_end(2)] show ?case by (auto simp: pool_inv_def holders_def)
next
  case (read_fail p e r')
  with spawn_chunks_fail [OF read_fail(2)] show ?case by (auto simp: pool_inv_def holders_def)
next
  case (acquire p xs t ys)
  then show ?case by (auto simp: pool_inv_def holders_def split: main_phase.splits)
next
  case (send_fail p xs t ys e w)
  from send_frame [OF send_fail(2)] have "tripped w = tripped (world p)" "\<not> exhausts_resources e"
    by simp_all
  moreover have "api_evolves (breaker_callback a) (world p) w"
    using send_evolves send_fail(2) by (rule keepsD)
  ultimately show ?case using send_fail
    by (auto simp: pool_inv_def holders_def split: main_phase.splits intro: api_evolves_trans)
next
  case (send_ok p xs t ys res w)
  from send_frame(1) [OF send_ok(2)] have "tripped w = tripped (world p)" .
  moreover have "api_evolves (breaker_callback a) (world p) w"
    using send_evolves send_ok(2) by (rule keepsD)
  ultimately show ?case using send_ok
    by (auto simp: pool_inv_def holders_def split: main_phase.splits intro: api_evolves_trans)
next
  case (consult p xs t res ys)
  have "api_evolves (breaker_callback a) s (check_result a res (world p))"
    using consult.prems by (auto simp: pool_inv_def intro: api_evolves_trans evolves_check_result)
  moreover have "tripped (check_result a res (world p))"
    if "(t', Finished (Err e)) \<in> set (xs @ (t, Finished res) # ys)" "exhausts_resources e" for t' e
  proof -
    have old: "(t', Finished (Err e)) \<in> set (tasks p) \<Longrightarrow> tripped (world p)"
      using consult.prems that(2) unfolding pool_inv_def by blast
    show ?thesis
    proof (cases "res = Err e")
      case True
      then show ?thesis using check_result_trips(1) [OF that(2)] by blast
    next
      case False
      with that(1) consult.hyps have "(t', Finished (Err e)) \<in> set (tasks p)" by auto
      from old [OF this] show ?thesis by (rule check_result_trips(2))
    qed
  qed
  ultimately show ?case using consult
    by (auto simp: pool_inv_def holders_def simp del: check_result.simps split: main_phase.splits)
qed

lemma pool_run_inv:
  assumes "pool_run env a cid (start_pool n r s) p"
  shows "pool_inv a n r s p"
  using assms by (induction rule: rtranclp_induct) (auto intro: pool_inv_start pool_step_inv)

section \<open>Every interleaving ends, and none gets stuck\<close>

definition pool_done :: "('c, 'w) pool \<Rightarrow> bool" where
  "pool_done p \<longleftrightarrow> phase p \<noteq> Reading \<and> (\<forall>t st. (t, st) \<in> set (tasks p) \<longrightarrow> (\<exists>r. st = Finished r))"

fun steps_left :: "task_stage \<Rightarrow> nat" where
  "steps_left Waiting = 3"
| "steps_left Holding = 2"
| "steps_left (Released _) = 1"
| "steps_left (Finished _) = 0"

definition main_left :: "('c, 'w) pool \<Rightarrow> nat" where
  "main_left p = (if phase p = Reading then Suc (length (reader_content (source p))) else 0)"

definition tasks_left :: "('c, 'w) pool \<Rightarrow> nat" where
  "tasks_left p = sum_list (map (steps_left \<circ> snd) (tasks p))"

lemma pool_step_decreases:
  "pool_step env a cid p q \<Longrightarrow> (q, p) \<in> measures [main_left, tasks_left]"
  by (induction rule: pool_step.induct)
     (auto simp: main_left_def tasks_left_def dest: next_chunk_shrinks)

lemma pool_step_wf: "wfp (\<lambda>q p. pool_step env a cid p q)"
proof -
  have "wf (measures [main_left, tasks_left])" by simp
  moreover have "{(q, p). pool_step env a cid p q} \<subseteq> measures [main_left, tasks_left]"
    using pool_step_decreases by fast
  ultimately show ?thesis
    unfolding wfp_def by (rule wf_subset)
qed

lemma pool_progress:
  assumes "pool_inv a n r s p" and "0 < n" and "\<not> pool_done p"
  shows "\<exists>q. pool_step env a cid p q"
proof (cases "phase p = Reading")
  case True
  obtain nr r' where "next_chunk (source p) = (nr, r')" by fastforce
  with True show ?thesis
    using pool_step.spawn [of p _ r'] pool_step.read_end [of p r'] pool_step.read_fail [of p _ r']
      next_chunk_no_panic [of "source p" _ r']
    by (cases nr) blast+
next
  case False
  with assms(3) obtain t st where st: "(t, st) \<in> set (tasks p)" "\<And>r. st \<noteq> Finished r"
    by (auto simp: pool_done_def)
  have move: "\<exists>q. pool_step env a cid p q" if "(t', st') \<in> set (tasks p)"
      "st' = Holding \<or> (\<exists>x. st' = Released x) \<or> st' = Waiting \<and> 0 < permits p" for t' st'
  proof -
    from that(1) obtain xs ys where ts: "tasks p = xs @ (t', st') # ys"
      by (meson split_list)
    obtain x w where "send env (client a) (patch_request a cid t') (world p) = (x, w)" by fastforce
    then show ?thesis
      using that(2) ts send_no_panic [of env "client a" "patch_request a cid t'" "world p"]
        pool_step.send_ok [of p xs t' ys env a cid _ w] pool_step.send_fail [of p xs t' ys env a cid _ w]
        pool_step.consult [of p xs t' _ ys env a cid] pool_step.acquire [of p xs t' ys env a cid]
      by (cases x) blast+
  qed
  show ?thesis
  proof (cases "st = Waiting \<and> permits p = 0")
    case True
    with assms(1,2) have "0 < holders p" by (simp add: pool_inv_def)
    then obtain t' st' where "(t', st') \<in> set (tasks p)" "holds_permit st'"
      by (auto simp: holders_def length_greater_0_conv filter_empty_conv)
    with move show ?thesis by (cases st') auto
  next
    case False
    with st move show ?thesis by (cases st) auto
  qed
qed

lemma pool_done_final:
  assumes "pool_done p"
  shows "\<not> pool_step env a cid p q"
proof
  have busy: "\<not> (tasks p = xs @ (t, st) # ys \<and> (\<forall>r. st \<noteq> Finished r))" for xs t st ys
    using assms by (cases t) (auto simp: pool_done_def)
  assume "pool_step env a cid p q"
  then show False
    using assms [unfolded pool_done_def] busy by (elim pool_stepE) (blast | simp)+
qed

section \<open>The outcome of an upload, for any interleaving\<close>

fun task_result :: "task_stage \<Rightarrow> (gha_error, unit) result" where
  "task_result (Finished r) = r"
| "task_result (Released r) = r"
| "task_result _ = Ok ()"

text \<open>
  What \<open>upload_file\<close> returns from a pool that is done: the read error, or the first failure in task
  order, or the commit's outcome.
\<close>

definition pool_outcome ::
  "'w gha_env \<Rightarrow> 'c api \<Rightarrow> cache_id \<Rightarrow> ('c, 'w) pool \<Rightarrow> (gha_error, usize) result \<times> ('c, 'w) api_world" where
  "pool_outcome env a cid p =
     (case phase p of
        Read_Failed e \<Rightarrow> (Err e, world p)
      | _ \<Rightarrow> and_then (lift_result (first_failure (map (task_result \<circ> snd) (tasks p))))
               (\<lambda>_. commit_v1 env a cid (pool_offset p)) (world p))"

lemma pool_done_sent:
  assumes "pool_inv a n r s p" and "pool_done p"
  shows "mset (sent p) = mset (map fst (tasks p))"
proof -
  have "filter (was_sent \<circ> snd) (tasks p) = tasks p"
    using assms(2) by (intro filter_True) (fastforce simp: pool_done_def)
  with assms(1) show ?thesis by (simp add: pool_inv_def)
qed

lemma pool_done_tasks:
  assumes "pool_inv a n r s p" and "pool_done p"
  shows "\<exists>res. spawn_chunks 0 r = (map fst (tasks p), res)"
  using assms by (cases "phase p") (auto simp: pool_inv_def pool_done_def)

text \<open>The schedule of \<open>upload_v1\<close> is one of the pool's.\<close>

lemma pool_spawn_all:
  "spawn_chunks off r = (ts, res) \<Longrightarrow> source p = r \<Longrightarrow> pool_offset p = off \<Longrightarrow> phase p = Reading \<Longrightarrow>
   \<exists>r' off'. pool_run env a cid p
     (p\<lparr>source := r', pool_offset := off',
        phase := (case res of Err e \<Rightarrow> Read_Failed e | _ \<Rightarrow> Joining),
        tasks := tasks p @ map (\<lambda>t. (t, Waiting)) ts\<rparr>)
     \<and> (\<forall>k. res = Ok k \<longrightarrow> off' = k) \<and> (\<forall>m. res \<noteq> Panic m)"
proof (induction off r arbitrary: ts res p rule: spawn_chunks.induct)
  case (1 off r)
  obtain nr r' where nc: "next_chunk r = (nr, r')" by fastforce
  show ?case
  proof (cases nr)
    case (Err e)
    with nc "1.prems" have "ts = []" "res = Err e" by (simp_all add: spawn_chunks.simps [of off r])
    moreover have "pool_step env a cid p (p\<lparr>source := r', phase := Read_Failed e\<rparr>)"
      using nc Err "1.prems" by (auto intro: pool_step.read_fail)
    ultimately show ?thesis
      by (intro exI [of _ r'] exI [of _ off])
         (use "1.prems" in \<open>auto intro!: r_into_rtranclp elim!: back_subst [of "pool_step env a cid p"]\<close>)
  next
    case (Panic m)
    with nc next_chunk_no_panic show ?thesis by simp
  next
    case (Ok chunk)
    show ?thesis
    proof (cases "chunk = []")
      case True
      with nc Ok "1.prems" have "ts = []" "res = Ok off"
        by (simp_all add: spawn_chunks.simps [of off r])
      moreover have "pool_step env a cid p (p\<lparr>source := r', phase := Joining\<rparr>)"
        using nc Ok True "1.prems" by (auto intro: pool_step.read_end)
      ultimately show ?thesis
        by (intro exI [of _ r'] exI [of _ off])
           (use "1.prems" in \<open>auto intro!: r_into_rtranclp elim!: back_subst [of "pool_step env a cid p"]\<close>)
    next
      case False
      obtain ts' res' where rest: "spawn_chunks (off + of_nat (length chunk)) r' = (ts', res')"
        by fastforce
      with nc Ok False "1.prems" have ts: "ts = (off, chunk) # ts'" "res = res'"
        by (simp_all add: spawn_chunks.simps [of off r])
      let ?q = "p\<lparr>source := r', pool_offset := pool_offset p + of_nat (length chunk),
          tasks := tasks p @ [((pool_offset p, chunk), Waiting)]\<rparr>"
      have "pool_step env a cid p ?q"
        using nc Ok False "1.prems" by (auto intro: pool_step.spawn)
      moreover obtain r'' off'' where "pool_run env a cid ?q
          (?q\<lparr>source := r'', pool_offset := off'',
             phase := (case res' of Err e \<Rightarrow> Read_Failed e | _ \<Rightarrow> Joining),
             tasks := tasks ?q @ map (\<lambda>t. (t, Waiting)) ts'\<rparr>)"
        and "\<forall>k. res' = Ok k \<longrightarrow> off'' = k" "\<forall>m. res' \<noteq> Panic m"
        using "1.IH" [OF nc [symmetric] Ok False rest, of ?q] "1.prems" by auto
      ultimately show ?thesis
        using ts "1.prems"
        by (intro exI [of _ r''] exI [of _ off'']) (auto intro: converse_rtranclp_into_rtranclp)
    qed
  qed
qed

lemma pool_run_task:
  assumes "tasks p = xs @ (t, Waiting) # ys" and "0 < permits p"
    and "run_chunk env a cid t (world p) = (r, w)"
  shows "pool_run env a cid p
           (p\<lparr>tasks := xs @ (t, Finished r) # ys, sent := sent p @ [t], world := w\<rparr>)"
proof -
  let ?h = "p\<lparr>tasks := xs @ (t, Holding) # ys, permits := permits p - 1\<rparr>"
  have acq: "pool_step env a cid p ?h"
    using assms(1,2) by (rule pool_step.acquire)
  obtain sr w' where sd: "send env (client a) (patch_request a cid t) (world p) = (sr, w')" by fastforce
  show ?thesis
  proof (cases sr)
    case (Err e)
    with sd assms(3) have "r = Err e" "w = w'" by (simp_all add: run_chunk_def)
    moreover have "pool_step env a cid ?h
        (?h\<lparr>tasks := xs @ (t, Finished (Err e)) # ys, permits := Suc (permits ?h),
            sent := sent ?h @ [t], world := w'\<rparr>)"
      using sd Err by (intro pool_step.send_fail) simp_all
    ultimately show ?thesis
      using acq assms(2) by (auto intro: converse_rtranclp_into_rtranclp)
  next
    case (Ok res)
    with sd assms(3) have r: "r = check env res" "w = check_result a r w'"
      by (auto simp: run_chunk_def Let_def)
    let ?q = "?h\<lparr>tasks := xs @ (t, Released (check env res)) # ys, permits := Suc (permits ?h),
            sent := sent ?h @ [t], world := w'\<rparr>"
    have snd: "pool_step env a cid ?h ?q"
      using sd Ok by (intro pool_step.send_ok) simp_all
    have con: "pool_step env a cid ?q
        (?q\<lparr>tasks := xs @ (t, Finished (check env res)) # ys,
            world := check_result a (check env res) (world ?q)\<rparr>)" (is "pool_step _ _ _ _ ?f")
      by (rule pool_step.consult) simp
    have "pool_run env a cid p ?f"
      by (rule converse_rtranclp_into_rtranclp
            [OF acq converse_rtranclp_into_rtranclp [OF snd r_into_rtranclp [of "pool_step env a cid", OF con]]])
    moreover have "?f = p\<lparr>tasks := xs @ (t, Finished r) # ys, sent := sent p @ [t], world := w\<rparr>"
      using assms(2) r by simp
    ultimately show ?thesis by (simp only:)
  next
    case (Panic m)
    with sd send_no_panic show ?thesis by blast
  qed
qed

lemma pool_run_all:
  "run_chunks env a cid ts (world p) = (rs, w) \<Longrightarrow> tasks p = xs @ map (\<lambda>t. (t, Waiting)) ts \<Longrightarrow>
   0 < permits p \<Longrightarrow>
   pool_run env a cid p (p\<lparr>tasks := xs @ zip ts (map Finished rs), sent := sent p @ ts, world := w\<rparr>)"
proof (induction ts arbitrary: p rs xs)
  case Nil
  then have "p\<lparr>tasks := xs @ zip [] (map Finished rs), sent := sent p @ [], world := w\<rparr> = p"
    by (cases p) simp
  then show ?case by simp
next
  case (Cons t ts)
  obtain r w1 where r: "run_chunk env a cid t (world p) = (r, w1)" by fastforce
  obtain rs' where rs: "run_chunks env a cid ts w1 = (rs', w)" "rs = r # rs'"
    using Cons.prems(1) r by (auto split: prod.splits)
  let ?q = "p\<lparr>tasks := xs @ (t, Finished r) # map (\<lambda>t. (t, Waiting)) ts, sent := sent p @ [t], world := w1\<rparr>"
  have first: "pool_run env a cid p ?q"
    using Cons.prems(2,3) r by (intro pool_run_task) simp_all
  have rest: "pool_run env a cid ?q
      (?q\<lparr>tasks := (xs @ [(t, Finished r)]) @ zip ts (map Finished rs'), sent := sent ?q @ ts, world := w\<rparr>)"
    (is "pool_run _ _ _ _ ?f")
    using Cons.prems(3) rs by (intro Cons.IH) simp_all
  have "?f = p\<lparr>tasks := xs @ zip (t # ts) (map Finished rs), sent := sent p @ (t # ts), world := w\<rparr>"
    using rs by simp
  with rtranclp_trans [OF first rest] show ?case by (simp only:)
qed

lemma run_chunks_length: "run_chunks env a cid ts s = (rs, w) \<Longrightarrow> length rs = length ts"
  by (induction ts arbitrary: s rs) (auto split: prod.splits)

lemma zip_results: "length rs = length ts \<Longrightarrow> map (task_result \<circ> snd) (zip ts (map Finished rs)) = rs"
  by (induction ts rs rule: list_induct2') auto

lemma upload_v1_pool_run:
  assumes "0 < n"
  shows "\<exists>p. pool_run env a cid (start_pool n r s) p \<and> pool_done p
           \<and> pool_outcome env a cid p = upload_v1 env a cid r s"
proof -
  obtain ts res where sp: "spawn_chunks 0 r = (ts, res)" by fastforce
  obtain rs w where rc: "run_chunks env a cid ts s = (rs, w)" by fastforce
  from pool_spawn_all [OF sp, of "start_pool n r s" env a cid] obtain r' off' where
    run1: "pool_run env a cid (start_pool n r s)
      ((start_pool n r s)\<lparr>source := r', pool_offset := off',
         phase := (case res of Err e \<Rightarrow> Read_Failed e | _ \<Rightarrow> Joining),
         tasks := map (\<lambda>t. (t, Waiting)) ts\<rparr>)" (is "pool_run _ _ _ _ ?q")
    and off: "\<forall>k. res = Ok k \<longrightarrow> off' = k" "\<forall>m. res \<noteq> Panic m"
    by (auto simp: start_pool_def)
  let ?p = "?q\<lparr>tasks := zip ts (map Finished rs), sent := ts, world := w\<rparr>"
  have "pool_run env a cid ?q ?p"
    using pool_run_all [of env a cid ts ?q rs w "[]"] rc assms by (simp add: start_pool_def)
  with run1 have "pool_run env a cid (start_pool n r s) ?p" by simp
  moreover have "pool_done ?p"
    by (auto simp: pool_done_def in_set_zip run_chunks_length [OF rc] split: result.splits)
  moreover have "pool_outcome env a cid ?p = upload_v1 env a cid r s"
    using sp rc off zip_results [OF run_chunks_length [OF rc]]
    by (cases res) (simp_all add: pool_outcome_def upload_v1_def)
  ultimately show ?thesis by blast
qed

end
