(* ===== verification/Demo.thy ===== *)
theory Demo
  imports FinishFacts Config ChunkPool
begin

text \<open>
  Concrete instances of what the model takes from outside, for applying the properties to inputs:
  an HTTP service that plays back a list of responses (the outside world is that list), a store of
  two paths, \<open>/nix/store/aa-x\<close> and \<open>/nix/store/bb-y\<close>, and clients of both service versions.
\<close>

type_synonym script = "http_response list"

definition demo_server :: "script server_env" where
  "demo_server =
     \<lparr> http_send = (\<lambda>cl rq w. case w of [] \<Rightarrow> (Inl ''connection closed'', []) | r # rs \<Rightarrow> (Inr r, rs)),
       twirp_create_cache_entry = (\<lambda>tw rq w. (Inr \<lparr>ce_ok = True, signed_upload_url = ''blob''\<rparr>, w)),
       twirp_finalize_cache_entry_upload = (\<lambda>tw rq w. (Inr \<lparr>fe_ok = True, entry_id = 1\<rparr>, w)),
       twirp_get_cache_entry_download_url =
         (\<lambda>tw rq w. (Inr \<lparr>ge_ok = False, signed_download_url = '''', matched_key = ''''\<rparr>, w)),
       rand_alphanumeric = (\<lambda>w. (CHR ''r'', w)),
       header_value = Inr,
       client_build = Inr,
       twirp_new = (\<lambda>u cl. Inr \<lparr>tw_base_url = u, tw_http = cl\<rparr>),
       url_parse = Inr,
       url_append_pair = (\<lambda>u k v. u @ ''?'' @ k @ ''='' @ v),
       sha256 = (\<lambda>d. d),
       hex_encode = (\<lambda>d. d),
       bom_len = (\<lambda>d. 0),
       json_cache_entry = (\<lambda>d. if d = [] then Inl ''no body'' else Inr \<lparr>cache_key = None, scope = None,
                             cache_version = None, creation_time = None, archive_location = d\<rparr>),
       json_cache_id = (\<lambda>d. Inr 7),
       json_error_message = (\<lambda>d. Inl ''not json''),
       nar_format = \<lparr> itoa_i64 = dec_i64, itoa_u64 = dec_usize, ryu_f64 = (\<lambda>w. ''1.0''),
                      f64_from_f32 = ucast, hash_text = (\<lambda>h. h), space_delimited = join '' '' \<rparr>,
       query_path_info = (\<lambda>p w. (Inr \<lparr> pi_path = p, pi_nar_hash = ''h'', pi_nar_size = 3,
                                       pi_references = [''/nix/store/aa-x''], pi_ca = None,
                                       pi_provenance = None \<rparr>, w)),
       nar_from_path_zstd = (\<lambda>p w. (Slice ''nar'', w)),
       get_full_path = (\<lambda>p. ''/nix/store/'' @ p),
       store_path_hash = take 2,
       hash_base32 = (\<lambda>h. h),
       compute_fs_closure_multi = (\<lambda>ps w. (Inr ps, w)),
       follow_store_path = (\<lambda>p w. case strip_prefix ''/nix/store/'' p of
                                     Some n \<Rightarrow> (Inr n, w) | None \<Rightarrow> (Inl ''not in the store'', w)),
       json_to_string = Some,
       store_dir = ''/nix/store'',
       read_store_dir = (\<lambda>w. (Inr [Inr ''aa-x'', Inr ''bb-y'', Inr ''.links'', Inr ''cc.drv''], w)),
       hash_order = (\<lambda>s. if s = {} then [] else [''/nix/store/aa-x'']),
       push_queue_many = (\<lambda>ps w. (Inr (), w)),
       push_session_wait = (\<lambda>w. (Inr [], w)),
       json_built_path = (\<lambda>d. Inr ([], [d])),
       read_logfile = (\<lambda>f w. (Inr [], w)) \<rparr>"

definition demo_env :: "script gha_env" where
  "demo_env = gha_env.truncate demo_server"

definition demo_credentials :: "string \<Rightarrow> credentials" where
  "demo_credentials v2 =
     \<lparr> cache_url = ''http://cache'', results_url = ''http://results/'', runtime_token = ''t'',
       service_v2 = v2 \<rparr>"

text \<open>Clients of version 1 and of version 2 of the service, with the breaker's real callback.\<close>

definition demo_client :: "string \<Rightarrow> telemetry_report api" where
  "demo_client v2 =
     \<lparr> api_credentials = demo_credentials v2, api_version = ''v'', version_hasher = ''v'',
       client = \<lparr>user_agent = USER_AGENT, default_headers = []\<rparr>,
       twirp = \<lparr>tw_base_url = '''', tw_http = \<lparr>user_agent = USER_AGENT, default_headers = []\<rparr>\<rparr>,
       breaker_callback = mark_tripped \<rparr>"

abbreviation "demo_v1 \<equiv> demo_client ''''"
abbreviation "demo_v2 \<equiv> demo_client ''True''"

definition demo_config :: server_config where
  "demo_config = \<lparr>gha_api = Some demo_v1, upstream = Some ''http://up'', diff_store = True, logfile = None\<rparr>"

definition demo_state :: "script \<Rightarrow> script server" where
  "demo_state w = startup demo_server demo_config [] 0 False w"

definition demo_world :: "script \<Rightarrow> (telemetry_report, script) api_world" where
  "demo_world w = \<lparr>tripped = False, cb_state = new_report [] 0, ext = w\<rparr>"

definition response :: "status_code \<Rightarrow> http_response" where
  "response code = \<lparr>rs_status = code, rs_body = Inr []\<rparr>"

lemmas demo_simps = demo_env_def demo_server_def gha_env.truncate_def demo_client_def
  demo_credentials_def demo_config_def demo_state_def demo_world_def response_def startup_def

lemma demo_env_fields [simp]:
  "http_send demo_env = http_send demo_server"
  "url_parse demo_env = Inr" "client_build demo_env = Inr" "header_value demo_env = Inr"
  "bom_len demo_env = (\<lambda>d. 0)" "json_error_message demo_env = (\<lambda>d. Inl ''not json'')"
  "json_cache_id demo_env = (\<lambda>d. Inr 7)" "rand_alphanumeric demo_env = (\<lambda>w. (CHR ''r'', w))"
  "twirp_create_cache_entry demo_env = twirp_create_cache_entry demo_server"
  "json_cache_entry demo_env = json_cache_entry demo_server"
  by (simp_all add: demo_simps)

lemma nar_from_path_demo: "nar_from_path_zstd demo_server p w = (Slice ''nar'', w)"
  by (simp add: demo_server_def)

lemma hash_demo: "store_path_hash demo_server p = take 2 p"
  by (simp add: demo_server_def)

lemma json_no_body [simp]: "json_cache_entry demo_server [] = Inl ''no body''"
  by (simp add: demo_server_def)

lemma demo_send [simp]: "http_send demo_server cl rq (r # w) = (Inr r, w)"
  by (simp add: demo_server_def)

text \<open>What storing a file does when the service answers every request with 200.\<close>

lemma demo_client_fields [simp]:
  "client (demo_client v) = \<lparr>user_agent = USER_AGENT, default_headers = []\<rparr>"
  "api_credentials (demo_client v) = demo_credentials v"
  "breaker_callback (demo_client v) = mark_tripped"
  "uses_v1 (demo_client v) = (v = [])"
  by (simp_all add: demo_client_def uses_v1_def demo_credentials_def)

lemma demo_response [simp]: "rs_status (response c) = c" "rs_body (response c) = Inr []"
  by (simp_all add: response_def)

lemma demo_send_step:
  "ext s = r # w \<Longrightarrow> send demo_env cl rq s = (Ok r, s\<lparr>ext := w\<rparr>)"
  by (simp add: send_def)

lemma demo_nonce: "draw_nonce demo_env n s = (replicate n (CHR ''r''), s)"
  by (induction n) simp_all

lemma demo_allocate:
  assumes "\<not> tripped s" and "ext s = response 200 # w"
  shows "allocate_file_with_random_suffix demo_env demo_v1 key s = (Ok (V1 7), s\<lparr>ext := w\<rparr>)"
proof -
  have "reserve_cache demo_env demo_v1 k cs s = (Ok (V1 7), s\<lparr>ext := w\<rparr>)" for k cs
    using assms
    by (simp add: reserve_cache_def reserve_v1_def demo_send_step check_json_def is_success_def Let_def)
  then have "allocate_attempts demo_env demo_v1 (Suc n) key s = (Ok (V1 7), s\<lparr>ext := w\<rparr>)" for n
    by (simp add: demo_nonce allocate_file_def)
  from this [of 4] show ?thesis by (simp add: allocate_file_with_random_suffix_def)
qed

lemma demo_upload:
  assumes "\<not> tripped s" and "ext s = response 200 # response 200 # w"
    and "d \<noteq> []" and "length d < CHUNK_SIZE"
  shows "upload_file demo_env demo_v1 (V1 cid) (Slice d) s = (Ok (of_nat (length d)), s\<lparr>ext := w\<rparr>)"
proof -
  have "run_chunk demo_env demo_v1 cid (0, d) s = (Ok (), s\<lparr>ext := response 200 # w\<rparr>)"
    using assms by (simp add: run_chunk_def demo_send_step check_def is_success_def Let_def)
  moreover have "commit_v1 demo_env demo_v1 cid n (s\<lparr>ext := response 200 # w\<rparr>) = (Ok n, s\<lparr>ext := w\<rparr>)" for n
    by (simp add: commit_v1_def demo_send_step check_def is_success_def inspect_err_def and_then_def)
  ultimately show ?thesis
    using assms by (simp add: upload_file_def upload_v1_def spawn_chunks_short)
qed

lemma demo_store_file:
  assumes "\<not> tripped s" and "ext s = response 200 # response 200 # response 200 # w"
    and "d \<noteq> []" and "length d < CHUNK_SIZE"
  shows "store_file demo_env demo_v1 key (Slice d) s = (Ok (of_nat (length d)), s\<lparr>ext := w\<rparr>)"
  using assms demo_allocate [OF assms(1,2)] demo_upload [of "s\<lparr>ext := response 200 # response 200 # w\<rparr>" w d]
  by (simp add: store_file_def api_call_def map_err_comp_def and_then_def)

text \<open>The whole upload of a path of the demonstration store takes six requests.\<close>

lemma demo_document:
  "narinfo_document demo_server \<lparr> pi_path = p, pi_nar_hash = ''h'', pi_nar_size = 3,
      pi_references = [''/nix/store/aa-x''], pi_ca = None, pi_provenance = None \<rparr>
   = Ok (''StorePath: /nix/store/'' @ p @ ''\<newline>URL: nar/h.nar.zstd\<newline>Compression: zstd\<newline>NarHash: h\<newline>NarSize: 3\<newline>References: aa-x\<newline>'')"
  if "utf8_valid (''/nix/store/'' @ p)"
proof -
  have refs: "list_all2 (\<lambda>r n. path_file_name r = Some n \<and> utf8_valid n) [''/nix/store/aa-x''] [''aa-x'']"
    by (simp add: path_file_name_def utf8_valid_def)
  have three: "dec_usize 3 = ''3''"
    by code_simp
  show ?thesis
    using narinfo_document_Ok [of "\<lparr> pi_path = p, pi_nar_hash = ''h'', pi_nar_size = 3,
        pi_references = [''/nix/store/aa-x''], pi_ca = None, pi_provenance = None \<rparr>" "[''aa-x'']" demo_server]
      refs that three
    by (simp add: demo_server_def narinfo_lines_def narinfo_of_def opt_line_def nar_file_def)
qed

lemma demo_upload_path:
  assumes "\<not> tripped s"
    and "ext s = [response 200, response 200, response 200, response 200, response 200, response 200] @ w"
  shows "upload_path demo_server demo_v1 ''aa-x'' s =
    (Ok (), s\<lparr>ext := w,
              cb_state := narinfos_uploaded_update incr (nars_uploaded_update incr (cb_state s)),
              narinfo_negative_cache := narinfo_negative_cache s - {''aa''}\<rparr>)"
proof -
  let ?pi = "\<lparr> pi_path = ''aa-x'', pi_nar_hash = ''h'', pi_nar_size = 3,
      pi_references = [''/nix/store/aa-x''], pi_ca = None, pi_provenance = None \<rparr>"
  let ?s1 = "s\<lparr>ext := [response 200, response 200, response 200] @ w,
               cb_state := nars_uploaded_update incr (cb_state s)\<rparr>"
  let ?doc = "''StorePath: /nix/store/aa-x\<newline>URL: nar/h.nar.zstd\<newline>Compression: zstd\<newline>NarHash: h\<newline>NarSize: 3\<newline>References: aa-x\<newline>''"
  have query: "outside (query_path_info demo_server ''aa-x'') Attic s = (Ok ?pi, s)"
    by (simp add: outside_def demo_server_def)
  have nar: "upload_nar demo_server demo_v1 ''aa-x'' ?pi s = (Ok (), ?s1)"
    using assms demo_allocate [of s "[response 200, response 200, response 200, response 200, response 200] @ w"]
      demo_upload [of "s\<lparr>ext := [response 200, response 200, response 200, response 200, response 200] @ w\<rparr>"
        "[response 200, response 200, response 200] @ w" "''nar''"]
    by (simp add: upload_nar_def Let_def demo_env_def [symmetric] and_then_def api_call_def map_err_comp_def open_nar_def bump_run
        CHUNK_SIZE_def nar_from_path_demo)
  have doc: "narinfo_document demo_server ?pi = Ok ?doc"
    using demo_document [of "''aa-x''"] by (simp add: utf8_valid_def)
  have info: "upload_narinfo demo_server demo_v1 ''aa-x'' ?pi ?s1 =
    (Ok (), s\<lparr>ext := w,
              cb_state := narinfos_uploaded_update incr (nars_uploaded_update incr (cb_state s)),
              narinfo_negative_cache := narinfo_negative_cache s - {''aa''}\<rparr>)"
    using assms demo_allocate [of ?s1 "[response 200, response 200] @ w"]
      demo_upload [of "?s1\<lparr>ext := [response 200, response 200] @ w\<rparr>" w ?doc]
    by (simp add: upload_narinfo_def Let_def demo_env_def [symmetric] and_then_def api_call_def map_err_comp_def bump_run doc
        CHUNK_SIZE_def hash_demo)
  from query nar info show ?thesis by (simp add: upload_path_def)
qed

text \<open>A workflow that finishes after \<open>/nix/store/aa-x\<close> was added to the store.\<close>

definition demo_finish_state :: "script server" where
  "demo_finish_state =
     (demo_state [response 200, response 200, response 200, response 200, response 200, response 200])
       \<lparr>original_paths := {''/nix/store/bb-y''}\<rparr>"

lemma demo_listing: "get_store_paths demo_server s = (Ok {''/nix/store/aa-x'', ''/nix/store/bb-y''}, s)"
proof -
  have "listed ''aa-x'' \<and> listed ''bb-y'' \<and> \<not> listed ''.links'' \<and> \<not> listed ''cc.drv''"
    by code_simp
  then show ?thesis
    by (auto simp: get_store_paths_def outside_def and_then_def demo_server_def path_join_def)
qed

lemma demo_follow: "follow_store_paths demo_server [''/nix/store/aa-x''] s = (Ok [''aa-x''], s)"
  by (simp add: outside_def and_then_def demo_server_def)

lemma demo_diff:
  "\<exists>resp c. diff_and_enqueue demo_server demo_config demo_finish_state =
     (Ok resp, demo_finish_state\<lparr>cb_state := c, channel := [Upload ''aa-x'']\<rparr>)"
proof -
  have order: "hash_order demo_server ({''/nix/store/aa-x'', ''/nix/store/bb-y''} - {''/nix/store/bb-y''})
      = [''/nix/store/aa-x'']"
    by (simp add: demo_server_def)
  have orig: "original_paths demo_finish_state = {''/nix/store/bb-y''}"
    by (simp add: demo_finish_state_def)
  have "enqueue_paths demo_server demo_config [''aa-x''] (demo_finish_state\<lparr>cb_state := c\<rparr>)
      = (Ok (), demo_finish_state\<lparr>cb_state := c, channel := [Upload ''aa-x'']\<rparr>)" for c
    using gha_enqueue_paths_run [of "demo_finish_state\<lparr>cb_state := c\<rparr>" demo_server "[''aa-x'']" "[''aa-x'']"
        "ext demo_finish_state"]
    by (simp add: enqueue_paths_def demo_config_def demo_finish_state_def demo_state_def startup_def
        demo_server_def and_then_def)
  then show ?thesis
    by (simp add: diff_and_enqueue_def Let_def demo_listing demo_follow order orig record_count_def
        and_then_def del: follow_store_paths.simps) blast
qed

lemma demo_finish: "\<exists>resp t. workflow_finish demo_server demo_config demo_finish_state = (Ok resp, t) \<and> \<not> tripped t"
proof -
  obtain resp c where d: "diff_and_enqueue demo_server demo_config demo_finish_state =
     (Ok resp, demo_finish_state\<lparr>cb_state := c, channel := [Upload ''aa-x'']\<rparr>)" (is "_ = (_, ?s)")
    using demo_diff by blast
  let ?s' = "?s\<lparr>worker_handle := False\<rparr>"
  have s: "worker_handle ?s" "worker_result ?s = None" "channel ?s = map Upload [''aa-x'']" "worker_done ?s = {}"
    "\<not> tripped ?s" "\<not> flakehub_on ?s"
    by (simp_all add: demo_finish_state_def demo_state_def startup_def demo_config_def)
  let ?t = "upload_each demo_server demo_v1 [''aa-x''] ?s'"
  have t: "worker_result ?t = None \<and> \<not> tripped ?t \<and> \<not> flakehub_on ?t"
    using demo_upload_path [of "?s'\<lparr>worker_done := {''aa-x''}\<rparr>" "[]"] s
    by (simp add: demo_finish_state_def demo_state_def startup_def)
  then have "gha_shutdown demo_server demo_v1 ?s = (Ok (), finish ?t)"
    using gha_shutdown_drains [OF s(1-3), of demo_server demo_v1] s(4)
    by (simp add: shutdown_answer_def)
  moreover have "finish_flakehub demo_server (finish ?t) = (Ok (), finish ?t)"
    using t by (simp add: finish_flakehub_def finish_def worker_stop_def)
  ultimately have "workflow_finish demo_server demo_config demo_finish_state
      = (Ok resp, (finish ?t)\<lparr>shutdown_cancelled := True\<rparr>)"
    using d by (simp add: workflow_finish_def demo_config_def dump_logfile_def)
  then show ?thesis using t by (auto simp: finish_def)
qed

end
