(* ===== verification/Details.thy ===== *)
theory Details
  imports Demo
begin

text \<open>
  Smaller facts about single operations, each with an instance: the reading loop, keys and versions,
  refused requests, the store filter, the serializer's maps, the final report, startup decisions.
\<close>

text \<open>
  One read of the loop is greedy: it returns the next bytes of the source, at most \<open>CHUNK_SIZE\<close>
  of them, and fewer only when the source has ended well.
\<close>

lemma chunk_is_full_unless_source_ended:
  assumes "next_chunk r = (Ok d, r')"
  shows "reader_content r = d @ reader_content r' \<and> length d \<le> CHUNK_SIZE
    \<and> (length d = CHUNK_SIZE \<or> reader_content r' = [] \<and> reader_ending r' = None)"
  using next_chunk_Ok [OF assms] by (cases "length d < CHUNK_SIZE") auto

lemma chunk_is_full_unless_source_ended_instance:
  "\<exists>r'. next_chunk (Body [Buf ''ab'', Buf [], Buf ''c'']) = (Ok ''abc'', r') \<and> reader_content r' = []
     \<and> length ''abc'' \<le> CHUNK_SIZE"
proof -
  obtain r' where r': "next_chunk (Body [Buf ''ab'', Buf [], Buf ''c'']) = (Ok ''abc'', r')"
    using next_chunk_short [of "Body [Buf ''ab'', Buf [], Buf ''c'']"] by (auto simp: CHUNK_SIZE_def)
  from chunk_is_full_unless_source_ended [OF r'] r' show ?thesis by auto
qed

text \<open>
  A file is allocated under the requested key followed by a dash and four random characters.
\<close>

lemma allocated_key_has_random_suffix:
  assumes "allocate_file_with_random_suffix env a key s = (Ok (V2 su), t)"
  shows "\<exists>nonce. length nonce = 4 \<and> su_key su = key @ ''-'' @ nonce"
  using allocate_attempts_key [OF assms [unfolded allocate_file_with_random_suffix_def]] .

lemma allocated_key_has_random_suffix_instance:
  "\<exists>su nonce. fst (allocate_file_with_random_suffix demo_env demo_v2 ''k'' (demo_world [])) = Ok (V2 su)
     \<and> length nonce = 4 \<and> su_key su = ''k-'' @ nonce"
proof -
  let ?run = "allocate_file_with_random_suffix demo_env demo_v2 ''k'' (demo_world [])"
  have "?run = (Ok (V2 \<lparr>signed_url = ''blob'', su_key = ''k-rrrr''\<rparr>), demo_world [])"
    by (simp add: allocate_file_with_random_suffix_def numeral_eq_Suc allocate_file_def reserve_cache_def
        uses_v1_def reserve_v2_def call_twirp_def inspect_err_def and_then_def demo_world_def
        demo_client_def demo_credentials_def demo_server_def)
  from allocated_key_has_random_suffix [OF this] this show ?thesis by auto
qed

text \<open>
  Mixing data into the version twice is mixing in their concatenation: the version is the hash of
  everything fed to the hasher, whatever the pieces.
\<close>

lemma mutate_version_accumulates:
  "mutate_version env d2 (mutate_version env d1 a) = mutate_version env (d1 @ d2) a"
  by (simp add: mutate_version_def Let_def)

text \<open>
  The chunk ranges are unambiguous: different first or last bytes give different
  \<open>Content-Range\<close> headers.
\<close>

lemma content_range_injective:
  "content_range lo hi = content_range lo' hi' \<longleftrightarrow> lo = lo' \<and> hi = hi'"
proof
  assume eq: "content_range lo hi = content_range lo' hi'"
  have dash: "CHR ''-'' \<notin> set (dec_usize w)" for w
    unfolding dec_usize_def by (rule dec_nat_no_separator) simp
  from eq have "dec_usize lo @ CHR ''-'' # (dec_usize hi @ ''/*'') = dec_usize lo' @ CHR ''-'' # (dec_usize hi' @ ''/*'')"
    by (simp add: content_range_def)
  then have "[dec_usize lo, dec_usize hi @ ''/*''] = [dec_usize lo', dec_usize hi' @ ''/*'']"
    by (metis splitn2_append dash)
  then show "lo = lo' \<and> hi = hi'"
    by (auto dest: dec_usize_inj)
qed simp

text \<open>
  The only paths the narinfo handlers accept are \<open><hash>.narinfo\<close> with a hash without dots; any
  other is answered with \<open>NotFound\<close> (reading) or \<open>BadRequest\<close> (writing), and nothing changes.
\<close>

lemma malformed_narinfo_paths_are_refused:
  "(\<exists>h. p = h @ ''.narinfo'' \<and> CHR ''.'' \<notin> set h)
   \<or> get_narinfo env cfg p s = (Err NotFound, s) \<and> put_narinfo env cfg p body s = (Err BadRequest, s)"
  by (cases "narinfo_hash p")
     (auto simp: get_narinfo_def put_narinfo_def narinfo_hash_iff narinfo_key_def)

text \<open>
  Derivations, chroots and \<open>.links\<close> are not listed; every name without a dot is.
\<close>

lemma listing_skips_derivations:
  assumes "CHR ''/'' \<notin> set b" and "b \<noteq> []"
  shows "\<not> listed (b @ ''.drv'') \<and> \<not> listed (b @ ''.chroot'') \<and> \<not> listed ''.links''
    \<and> (CHR ''.'' \<in> set b \<or> listed b)"
  using listed_extension [OF assms, of "''drv''"] listed_extension [OF assms, of "''chroot''"]
    listed_no_dot [OF _ assms] not_listed_links
  by auto

lemma listing_skips_derivations_instance:
  "\<not> listed ''hello-1.0.drv''"
  using listing_skips_derivations [of "''hello-1.0''"] by simp

text \<open>
  A map with two entries does not print one entry per line, as the format has it (and as structs
  do): the line is ended only once, so the second key follows the first value on the same line.
\<close>

lemma map_entries_share_a_line:
  "manifest_to_string fe (VMap [(VStr k1, VStr v1), (VStr k2, VStr v2)])
     = Ok (k1 @ '': '' @ v1 @ k2 @ '': '' @ v2 @ ''\<newline>'')"
  by (simp add: manifest_to_string_def serialize_map_def new_serializer_def and_then_def
      serialize_str_def push_str_def)

text \<open>
  The report sent at shutdown is that of the final counters: the thirteen facts are appended to
  what the recorder has, with the elapsed time in whole seconds (0 when the clock went backwards).
\<close>

lemma report_sends_final_counters:
  assumes "recorder m = Some rec" and "start_time m = Some st"
  shows "recorder (send_report now m) =
    Some (rec @ report_facts (m\<lparr>elapsed_seconds := if st \<le> now then of_nat (nat ((now - st) div 1000000000)) else 0\<rparr>))"
  using assms by (simp add: send_report_def Let_def elapsed_since_def)

lemma report_sends_final_counters_instance:
  "map_option length (recorder (send_report 5000000000 (new_report [] 0))) = Some 13"
  using report_sends_final_counters [of "new_report [] 0" "[]" 0 5000000000]
  by (simp add: new_report_def report_facts_def)

text \<open>
  The FlakeHub credentials come from determinate-nixd whenever it is available and FlakeHub is not
  disabled; from the user's netrc only when it exists and determinate-nixd is missing; and startup
  fails exactly when FlakeHub was asked for and there is neither.
\<close>

lemma flakehub_auth_source:
  "(snd (flakehub_auth_method ex pref netrc dn) = Ok (Some DeterminateNixd)
      \<longleftrightarrow> pref \<noteq> Disabled \<and> dn = Available)
   \<and> (snd (flakehub_auth_method ex pref netrc dn) = Ok (Some (Netrc_File p))
      \<longleftrightarrow> pref \<noteq> Disabled \<and> dn = Missing \<and> netrc = Some p \<and> ex p)
   \<and> (is_ok (snd (flakehub_auth_method ex pref netrc dn))
      \<longleftrightarrow> (pref, netrc, dn) \<noteq> (Enabled, None, Missing))"
  unfolding flakehub_auth_method_result by (cases pref; cases dn; cases netrc) auto

text \<open>
  In GitLab CI a valid configuration never sets up the GitHub cache next to a working FlakeHub
  cache; anywhere, unless the GitHub cache is disabled, the server runs with at least one cache.
\<close>

lemma cache_choice:
  "(is_ok (validate args GitLabCI) \<and> flakehub \<and> uses_gha_cache args flakehub) = False
   \<and> (github_cache_preference args = Disabled \<or> uses_gha_cache args flakehub \<or> flakehub)"
  by (cases "github_cache_preference args") (auto simp: validate_def uses_gha_cache_def)

text \<open>
  A hash in the negative cache is answered without asking the GitHub cache: the request goes
  upstream (or is not found), and only the two counters change.
\<close>

lemma negative_cache_hit_makes_no_request:
  assumes "narinfo_hash p = Some h" and "h \<in> narinfo_negative_cache s"
  shows "get_narinfo env cfg p s =
    (fst (pull_through env cfg p s),
     s\<lparr>cb_state := narinfos_negative_cache_hits_update incr (narinfos_sent_upstream_update incr (cb_state s))\<rparr>)"
  using assms
  by (simp add: get_narinfo_def bump_run pull_through_def redirect_temporary_def prod_eq_iff split: option.split)

lemma negative_cache_hit_makes_no_request_instance:
  "fst (get_narinfo demo_env demo_config ''aa.narinfo'' ((demo_state [])\<lparr>narinfo_negative_cache := {''aa''}\<rparr>))
     = Ok (Redirect_Temporary ''http://up/aa.narinfo'')"
  using negative_cache_hit_makes_no_request [of "''aa.narinfo''" "''aa''" "(demo_state [])\<lparr>narinfo_negative_cache := {''aa''}\<rparr>"
      demo_env demo_config]
    narinfo_hash_key [of "''aa''"]
  by (simp add: narinfo_key_def pull_through_def redirect_temporary_def demo_config_def)

text \<open>
  A request to enqueue paths is all or nothing: if one of the paths does not resolve, the answer
  is that error, and nothing was queued for either cache, nor anything else in the server changed.
\<close>

lemma enqueue_request_is_all_or_nothing:
  assumes "follow_store_paths env ps s = (Err e, s1)"
  shows "post_enqueue_paths env cfg ps s = (Err e, s1) \<and> s1 = s\<lparr>ext := ext s1\<rparr>"
  using assms only_extD(1) [OF keepsD [OF follow_store_paths_only_ext assms]]
  by (simp add: post_enqueue_paths_def)

lemma enqueue_request_is_all_or_nothing_instance:
  "channel (snd (post_enqueue_paths demo_server demo_config [''/nix/store/aa-x'', ''/tmp/x''] (demo_state []))) = []"
proof -
  have "follow_store_paths demo_server [''/nix/store/aa-x'', ''/tmp/x''] (demo_state [])
      = (Err (Attic ''not in the store''), demo_state [])"
    by (simp add: outside_def and_then_def demo_server_def)
  from enqueue_request_is_all_or_nothing [OF this, of demo_config] show ?thesis
    by (simp add: demo_state_def startup_def)
qed

text \<open>
  A build event of determinate-nixd has the same effect as a request to enqueue its outputs; it
  differs only in that errors are logged.
\<close>

lemma build_event_enqueues_outputs:
  assumes "strip_prefix data_prefix frame = Some body" and "json_built_path env body = Inr (drv, outputs)"
  shows "handle_frame env cfg frame s = snd (post_enqueue_paths env cfg outputs s)"
  using assms
  by (simp add: handle_frame_def post_enqueue_paths_def and_then_def split: prod.split result.split)

lemma build_event_enqueues_outputs_instance:
  "channel (handle_frame demo_server demo_config ''data: /nix/store/aa-x'' (demo_state [])) = [Upload ''aa-x'']"
proof -
  have "handle_frame demo_server demo_config ''data: /nix/store/aa-x'' (demo_state [])
      = snd (post_enqueue_paths demo_server demo_config [''/nix/store/aa-x''] (demo_state []))"
    by (rule build_event_enqueues_outputs) (simp_all add: data_prefix_def demo_server_def)
  moreover have "gha_enqueue_paths demo_server [''aa-x''] (demo_state [])
      = (Ok (), (demo_state [])\<lparr>channel := [Upload ''aa-x'']\<rparr>)"
    using gha_enqueue_paths_run [of "demo_state []" demo_server "[''aa-x'']" "[''aa-x'']" "[]"]
    by (simp add: demo_state_def startup_def demo_server_def)
  ultimately show ?thesis
    by (simp add: post_enqueue_paths_def demo_follow enqueue_paths_def demo_config_def and_then_def
        demo_state_def startup_def del: follow_store_paths.simps)
qed

text \<open>
  An absent narinfo is remembered: after a lookup that found nothing, its hash is in the negative
  cache, and looking it up again makes no further request.
\<close>

lemma absent_narinfo_is_remembered:
  assumes "narinfo_hash p = Some h" and "h \<notin> narinfo_negative_cache s"
    and "query_cache env cfg (narinfo_key h) s = (Ok None, s1)"
  shows "h \<in> narinfo_negative_cache (snd (get_narinfo env cfg p s))
    \<and> ext (snd (get_narinfo env cfg p s)) = ext s1
    \<and> ext (snd (get_narinfo env cfg p (snd (get_narinfo env cfg p s)))) = ext s1"
proof -
  obtain r t where run: "get_narinfo env cfg p s = (r, t)" by fastforce
  from run have t: "h \<in> narinfo_negative_cache t \<and> ext t = ext s1"
    by (cases rule: get_narinfo_cases) (use assms in auto)
  obtain r' t' where run': "get_narinfo env cfg p t = (r', t')" by fastforce
  from run' have "ext t' = ext t"
    by (cases rule: get_narinfo_cases) (use assms(1) t in auto)
  with run run' t show ?thesis by simp
qed

lemma absent_narinfo_is_remembered_instance:
  "''aa'' \<in> narinfo_negative_cache (snd (get_narinfo demo_env (demo_config\<lparr>gha_api := Some demo_v2\<rparr>) ''aa.narinfo'' (demo_state [])))"
proof -
  have "query_cache demo_env (demo_config\<lparr>gha_api := Some demo_v2\<rparr>) (narinfo_key ''aa'') (demo_state [])
      = (Ok None, demo_state [])"
    by (simp add: query_cache_def get_file_url_def get_cache_entry_def uses_v1_def get_entry_v2_def
        call_twirp_def inspect_err_def and_then_def demo_simps)
  moreover have "narinfo_hash ''aa.narinfo'' = Some ''aa''"
    using narinfo_hash_key [of "''aa''"] by (simp add: narinfo_key_def)
  moreover have "''aa'' \<notin> narinfo_negative_cache (demo_state [])"
    by (simp add: demo_state_def startup_def)
  ultimately show ?thesis
    using absent_narinfo_is_remembered [of "''aa.narinfo''" "''aa''" "demo_state []" demo_env
        "demo_config\<lparr>gha_api := Some demo_v2\<rparr>" "demo_state []"] by blast
qed

text \<open>
  An error is answered with 429 exactly when it is a 429 of the GitHub API, and with 418, which
  makes Nix fail without retrying, exactly when it is any other error of the client.
\<close>

lemma status_of_an_error:
  "(response_status e = TOO_MANY_REQUESTS \<longleftrightarrow> (\<exists>info. e = Api (ApiError TOO_MANY_REQUESTS info)))
   \<and> (response_status e = IM_A_TEAPOT \<longleftrightarrow>
        (\<exists>g. e = Api g \<and> (\<forall>info. g \<noteq> ApiError TOO_MANY_REQUESTS info)))"
  by (cases e rule: response_status.cases)
     (auto simp: TOO_MANY_REQUESTS_def IM_A_TEAPOT_def NOT_FOUND_def BAD_REQUEST_def INTERNAL_SERVER_ERROR_def)

text \<open>
  No narinfo becomes visible without its NAR: an upload that succeeds has counted one NAR and one
  narinfo and forgets the path's hash in the negative cache; one that fails or panics, at whatever
  point, has stored no narinfo as far as the counter and the negative cache say.
\<close>

lemma narinfo_only_after_nar:
  assumes "upload_path env a path s = (r, t)" and "breaker_callback a = mark_tripped"
  shows "if is_ok r
    then nars_uploaded (cb_state t) = incr (nars_uploaded (cb_state s))
       \<and> narinfos_uploaded (cb_state t) = incr (narinfos_uploaded (cb_state s))
       \<and> narinfo_negative_cache t = narinfo_negative_cache s - {store_path_hash env path}
    else narinfos_uploaded (cb_state t) = narinfos_uploaded (cb_state s)
       \<and> narinfo_negative_cache t = narinfo_negative_cache s"
  using upload_path_counts [OF assms] by simp

lemma narinfo_only_after_nar_instance:
  "narinfos_uploaded (cb_state (snd (upload_path demo_server demo_v1 ''aa-x''
     (demo_state [response 200, response 200, response 200, response 200, response 200, response 200])))) = 1"
proof -
  let ?s = "demo_state [response 200, response 200, response 200, response 200, response 200, response 200]"
  obtain t where run: "upload_path demo_server demo_v1 ''aa-x'' ?s = (Ok (), t)"
    using demo_upload_path [of ?s "[]"] by (simp add: demo_state_def startup_def)
  from narinfo_only_after_nar [OF run] run show ?thesis
    by (simp add: demo_state_def startup_def new_report_def incr_def)
qed

text \<open>
  The listing of the store is complete and filtered: when the directory can be read, the result
  is the set of its entries that are listed, each joined to the store directory.
\<close>

lemma store_listing_is_filtered_directory:
  assumes "read_store_dir env (ext s) = (Inr (map Inr names), w)"
  shows "get_store_paths env s =
    (Ok (path_join (store_dir env) ` set (filter listed names)), s\<lparr>ext := w\<rparr>)"
proof -
  have "collect_paths (store_dir env) (map Inr names) {}
      = Ok (path_join (store_dir env) ` set (filter listed names))"
    by (auto simp: collect_paths_Ok_iff)
  with assms show ?thesis
    by (simp add: get_store_paths_def outside_def and_then_def)
qed

lemma store_listing_is_filtered_directory_instance:
  "get_store_paths (demo_server\<lparr>read_store_dir := \<lambda>w. (Inr (map Inr [''aa-x'', ''cc.drv'']), w)\<rparr>) (demo_state [])
     = (Ok {''/nix/store/aa-x''}, demo_state [])"
proof -
  let ?env = "demo_server\<lparr>read_store_dir := \<lambda>w. (Inr (map Inr [''aa-x'', ''cc.drv'']), w)\<rparr>"
  have "filter listed [''aa-x'', ''cc.drv''] = [''aa-x'']" by code_simp
  moreover have "read_store_dir ?env (ext (demo_state [])) = (Inr (map Inr [''aa-x'', ''cc.drv'']), ext (demo_state []))"
    by simp
  from store_listing_is_filtered_directory [OF this]
  have "get_store_paths ?env (demo_state []) =
      (Ok (path_join ''/nix/store'' ` set (filter listed [''aa-x'', ''cc.drv''])), demo_state [])"
    by (simp add: demo_server_def del: filter.simps)
  ultimately show ?thesis by (simp add: path_join_def del: filter.simps)
qed

text \<open>
  Serializing a narinfo gives one line per present field, in declaration order, when the store
  path is UTF-8; otherwise the \<open>expect\<close> panics. There is no other outcome.
\<close>

lemma narinfo_serialization:
  "narinfo_to_string ne n =
     (if utf8_valid (store_path n) then Ok (render (narinfo_lines ne n))
      else Panic ''failed to convert path into to nar info'')"
  by (simp add: narinfo_to_string_Ok narinfo_to_string_bad_path)

text \<open>
  After a narinfo was stored, its hash is not in the negative cache: later lookups ask the GitHub
  cache again. It was stored only if the whole body could be read.
\<close>

lemma stored_narinfo_leaves_negative_cache:
  assumes "put_narinfo env cfg p body s = (Ok (), t)"
  shows "\<exists>h. p = narinfo_key h \<and> h \<notin> narinfo_negative_cache t \<and> reader_ending body = None
    \<and> narinfo_negative_cache t = narinfo_negative_cache s - {h}"
proof -
  from assms obtain h a where ha: "narinfo_hash p = Some h" "gha_api cfg = Some a"
    by (auto simp: put_narinfo_def split: option.splits)
  obtain r u where st: "store_file env a (narinfo_key h) body s = (r, u)" by fastforce
  with assms ha obtain n where n: "r = Ok n"
    and t: "t = u\<lparr>cb_state := narinfos_uploaded_update incr (cb_state u),
                  narinfo_negative_cache := narinfo_negative_cache u - {h}\<rparr>"
    by (cases r) (auto simp: put_narinfo_def bump_run)
  have "narinfo_negative_cache u = narinfo_negative_cache s"
    using client_frame(1) [OF keepsD [OF store_file_evolves st]] .
  with t store_file_OkD [OF st [unfolded n]] ha(1) show ?thesis
    by (auto simp: narinfo_hash_iff)
qed

lemma stored_narinfo_leaves_negative_cache_instance:
  "''aa'' \<notin> narinfo_negative_cache (snd (put_narinfo demo_env demo_config ''aa.narinfo'' (Slice ''abc'')
     ((demo_state [response 200, response 200, response 200])\<lparr>narinfo_negative_cache := {''aa''}\<rparr>)))"
proof -
  let ?s = "(demo_state [response 200, response 200, response 200])\<lparr>narinfo_negative_cache := {''aa''}\<rparr>"
  let ?r = "put_narinfo demo_env demo_config ''aa.narinfo'' (Slice ''abc'') ?s"
  have "narinfo_hash ''aa.narinfo'' = Some ''aa''"
    using narinfo_hash_key [of "''aa''"] by (simp add: narinfo_key_def)
  moreover have "store_file demo_env demo_v1 (narinfo_key ''aa'') (Slice ''abc'') ?s = (Ok 3, ?s\<lparr>ext := []\<rparr>)"
    using demo_store_file [of ?s "[]" "''abc''"] by (simp add: CHUNK_SIZE_def demo_state_def startup_def)
  ultimately have "fst ?r = Ok ()"
    by (simp add: put_narinfo_def demo_config_def bump_run)
  then obtain t where "?r = (Ok (), t)" by (metis prod.collapse)
  from stored_narinfo_leaves_negative_cache [OF this] this show ?thesis
    by (auto simp: narinfo_key_def)
qed

end
