(* ===== verification/Routes.thy ===== *)
theory Routes
  imports ServerRun
begin

text \<open>
  The daemon's HTTP interface: the routers of \<open>binary_cache.rs\<close> and \<open>api.rs\<close> and the root of \<open>main.rs\<close>,
  the texts of the errors (the \<open>#[error]\<close> attributes of \<open>error.rs\<close> and \<open>gha-cache/src/api.rs\<close>), and the
  response a handler's result becomes (\<open>into_response\<close>). Which path matches a route is axum's rule: a
  literal segment before a parameter, a parameter is one segment that is not empty. Extractors, JSON
  and the texts of other crates' types are the fields of \<open>web\<close>.
\<close>

section \<open>Error texts\<close>

record web =
  status_display :: "status_code \<Rightarrow> string"
  twirp_display :: "twirp_client_error \<Rightarrow> string"
  debug_str :: "string \<Rightarrow> string"
  decode_param :: "string \<Rightarrow> string option"
  extract_enqueue_paths :: "(string \<times> string) list \<Rightarrow> reader \<Rightarrow> status_code \<times> string + bytes list"
  json_workflow_start :: "usize option \<Rightarrow> string"
  json_workflow_finish :: "workflow_finish_response \<Rightarrow> string"
  json_enqueue_paths :: string

fun info_text :: "web \<Rightarrow> api_error_info \<Rightarrow> string" where
  "info_text web (Unstructured b) = ''[Unstructured] '' @ display b"
| "info_text web (Structured m) = ''StructuredApiError { message: '' @ debug_str web m @ '' }''"

fun gha_error_text :: "web \<Rightarrow> gha_error \<Rightarrow> string" where
  "gha_error_text web (InitError e) = ''Failed to initialize the client: '' @ e"
| "gha_error_text web CircuitBreakerTripped =
     ''GitHub Actions Cache throttled Magic Nix Cache. Not trying to use it again on this run.''"
| "gha_error_text web (RequestError e) = ''Request error: '' @ e"
| "gha_error_text web (DecodeError status b e) =
     ''Failed to decode response ('' @ status_display web status @ ''): '' @ e"
| "gha_error_text web (ApiError status info) =
     ''API error ('' @ status_display web status @ ''): '' @ info_text web info"
| "gha_error_text web ApiErrorNotOk = ''API error: '' @ CHR 0x27 # ''not ok'' @ CHR 0x27 # '' response''"
| "gha_error_text web (TwirpError e) = ''Twirp error: '' @ twirp_display web e"
| "gha_error_text web (IoError e context) = ''I/O error: '' @ e @ '', context: '' @ context"
| "gha_error_text web TooManyCollisions = ''Too many collisions''"

fun error_text :: "web \<Rightarrow> server_error \<Rightarrow> string" where
  "error_text web (Api e) = ''GitHub API error: '' @ gha_error_text web e"
| "error_text web NotFound = ''Not Found''"
| "error_text web BadRequest = ''Bad Request''"
| "error_text web (Io e context) = ''I/O error: '' @ e @ ''. Context: '' @ context"
| "error_text web GHADisabled = ''GHA cache is disabled''"
| "error_text web (FlakeHub e) = ''FlakeHub cache error: '' @ e"
| "error_text web (FlakeHubHttp e) = ''FlakeHub HTTP error: '' @ e"
| "error_text web (GetCacheName status body) =
     ''Got HTTP response '' @ status_display web status @ '' getting the cache name from FlakeHub: '' @ body"
| "error_text web (Netrc e) = ''netrc parse error: '' @ e"
| "error_text web (MissingCreds u) = ''Cannot find netrc credentials for '' @ u"
| "error_text web (Attic e) = ''Attic error: '' @ e"
| "error_text web (BadUrl u) = ''Bad URL''"
| "error_text web (Config e) = ''Configuration error: '' @ e"
| "error_text web (Internal e) = ''Internal error: '' @ e"

section \<open>Responses\<close>

record daemon_response =
  dr_status :: status_code
  dr_headers :: "(string \<times> string) list"
  dr_body :: string

definition plain_text :: "status_code \<Rightarrow> string \<Rightarrow> daemon_response" where
  "plain_text status text =
     \<lparr>dr_status = status, dr_headers = [(''content-type'', ''text/plain; charset=utf-8'')], dr_body = text\<rparr>"

definition json_text :: "string \<Rightarrow> daemon_response" where
  "json_text text = \<lparr>dr_status = 200, dr_headers = [(''content-type'', ''application/json'')], dr_body = text\<rparr>"

definition empty_response :: "status_code \<Rightarrow> daemon_response" where
  "empty_response status = \<lparr>dr_status = status, dr_headers = [], dr_body = []\<rparr>"

fun redirect_response :: "redirect \<Rightarrow> daemon_response" where
  "redirect_response (Redirect_Temporary uri) =
     \<lparr>dr_status = 307, dr_headers = [(''location'', uri)], dr_body = []\<rparr>"

definition into_response :: "web \<Rightarrow> server_error \<Rightarrow> daemon_response" where
  "into_response web e = plain_text (response_status e) (error_text web e)"

text \<open>A handler that panics answers nothing: the connection is closed.\<close>

fun respond :: "web \<Rightarrow> ('a \<Rightarrow> daemon_response) \<Rightarrow> (server_error, 'a) result \<Rightarrow> daemon_response option" where
  "respond web f (Ok a) = Some (f a)"
| "respond web f (Err e) = Some (into_response web e)"
| "respond web f (Panic m) = None"

definition reply ::
  "web \<Rightarrow> ('a \<Rightarrow> daemon_response) \<Rightarrow> ('w server, server_error, 'a) comp \<Rightarrow> 'w server
     \<Rightarrow> daemon_response option \<times> 'w server" where
  "reply web f m s = (case m s of (r, t) \<Rightarrow> (respond web f r, t))"

section \<open>Routing\<close>

fun segments :: "string \<Rightarrow> string list" where
  "segments [] = [[]]"
| "segments (c # cs) =
     (if c = CHR ''/'' then [] # segments cs
      else case segments cs of [] \<Rightarrow> [[c]] | seg # segs \<Rightarrow> (c # seg) # segs)"

datatype endpoint =
    At_Root
  | At_Cache_Info
  | At_Narinfo string
  | At_Nar string
  | At_Workflow_Start
  | At_Workflow_Finish
  | At_Enqueue_Paths

definition endpoint_of :: "string \<Rightarrow> endpoint option" where
  "endpoint_of path =
     (case segments path of
        [lead, a] \<Rightarrow>
          if lead \<noteq> [] then None
          else if a = [] then Some At_Root
          else if a = ''nix-cache-info'' then Some At_Cache_Info
          else Some (At_Narinfo a)
      | [lead, a, b] \<Rightarrow>
          if lead \<noteq> [] then None
          else if a = ''nar'' \<and> b \<noteq> [] then Some (At_Nar b)
          else if a = ''api'' \<and> b = ''workflow-start'' then Some At_Workflow_Start
          else if a = ''api'' \<and> b = ''workflow-finish'' then Some At_Workflow_Finish
          else if a = ''api'' \<and> b = ''enqueue-paths'' then Some At_Enqueue_Paths
          else None
      | _ \<Rightarrow> None)"

text \<open>A route for \<open>GET\<close> answers \<open>HEAD\<close> as well, without the body.\<close>

datatype verb = HEAD | Verb http_method

definition head_only :: "verb \<Rightarrow> daemon_response option \<times> 's \<Rightarrow> daemon_response option \<times> 's" where
  "head_only v x =
     (if v = HEAD then (map_option (\<lambda>r. r\<lparr>dr_body := []\<rparr>) (fst x), snd x) else x)"

definition with_param ::
  "web \<Rightarrow> string \<Rightarrow> (string \<Rightarrow> 's \<Rightarrow> daemon_response option \<times> 's) \<Rightarrow> 's \<Rightarrow> daemon_response option \<times> 's" where
  "with_param web raw f s =
     (case decode_param web raw of
        Some p \<Rightarrow> f p s
      | None \<Rightarrow> (Some (plain_text BAD_REQUEST ''Invalid URL: Invalid UTF-8''), s))"

definition METHOD_NOT_ALLOWED :: status_code where "METHOD_NOT_ALLOWED = 405"

definition root_text :: string where
  "root_text = map char_of (map of_char ''cache the world '' @ [240, 159, 154, 128 :: nat])"

fun serve_endpoint ::
  "web \<Rightarrow> 'w server_env \<Rightarrow> server_config \<Rightarrow> verb \<Rightarrow> (string \<times> string) list \<Rightarrow> reader \<Rightarrow> endpoint \<Rightarrow> 'w server
     \<Rightarrow> daemon_response option \<times> 'w server"
where
  "serve_endpoint web env cfg v hs body At_Root s =
     (if v \<in> {HEAD, Verb GET} then head_only v (Some (plain_text 200 root_text), s)
      else (Some (empty_response METHOD_NOT_ALLOWED), s))"
| "serve_endpoint web env cfg v hs body At_Cache_Info s =
     (if v \<in> {HEAD, Verb GET} then head_only v (Some (plain_text 200 get_nix_cache_info), s)
      else (Some (empty_response METHOD_NOT_ALLOWED), s))"
| "serve_endpoint web env cfg v hs body (At_Narinfo raw) s =
     (if v \<in> {HEAD, Verb GET} then
        head_only v (with_param web raw
          (\<lambda>p. reply web redirect_response (get_narinfo (gha_env.truncate env) cfg p)) s)
      else if v = Verb PUT then
        with_param web raw
          (\<lambda>p. reply web (\<lambda>_. empty_response 200) (put_narinfo (gha_env.truncate env) cfg p body)) s
      else (Some (empty_response METHOD_NOT_ALLOWED), s))"
| "serve_endpoint web env cfg v hs body (At_Nar raw) s =
     (if v \<in> {HEAD, Verb GET} then
        head_only v (with_param web raw
          (\<lambda>p. reply web redirect_response (get_nar (gha_env.truncate env) cfg p)) s)
      else if v = Verb PUT then
        with_param web raw
          (\<lambda>p. reply web (\<lambda>_. empty_response 200) (put_nar (gha_env.truncate env) cfg p body)) s
      else (Some (empty_response METHOD_NOT_ALLOWED), s))"
| "serve_endpoint web env cfg v hs body At_Workflow_Start s =
     (if v = Verb POST then
        reply web (\<lambda>n. json_text (json_workflow_start web n)) (workflow_start env cfg) s
      else (Some (empty_response METHOD_NOT_ALLOWED), s))"
| "serve_endpoint web env cfg v hs body At_Workflow_Finish s =
     (if v = Verb POST then
        reply web (\<lambda>r. json_text (json_workflow_finish web r)) (workflow_finish env cfg) s
      else (Some (empty_response METHOD_NOT_ALLOWED), s))"
| "serve_endpoint web env cfg v hs body At_Enqueue_Paths s =
     (if v = Verb POST then
        (case extract_enqueue_paths web hs body of
           Inl (status, text) \<Rightarrow> (Some (plain_text status text), s)
         | Inr ps \<Rightarrow> reply web (\<lambda>_. json_text (json_enqueue_paths web)) (post_enqueue_paths env cfg ps) s)
      else (Some (empty_response METHOD_NOT_ALLOWED), s))"

definition handle_request ::
  "web \<Rightarrow> 'w server_env \<Rightarrow> server_config \<Rightarrow> verb \<Rightarrow> string \<Rightarrow> (string \<times> string) list \<Rightarrow> reader \<Rightarrow> 'w server
     \<Rightarrow> daemon_response option \<times> 'w server" where
  "handle_request web env cfg v path hs body s =
     (case endpoint_of path of
        None \<Rightarrow> (Some (empty_response NOT_FOUND), s)
      | Some e \<Rightarrow> serve_endpoint web env cfg v hs body e s)"

section \<open>Requests are events of the server\<close>

lemma head_only_state [simp]: "snd (head_only v x) = snd x"
  by (simp add: head_only_def)

lemma reply_state [simp]: "snd (reply web f m s) = snd (m s)"
  by (simp add: reply_def split: prod.split)

lemma with_param_state:
  "snd (with_param web raw f s) = (case decode_param web raw of Some p \<Rightarrow> snd (f p s) | None \<Rightarrow> s)"
  by (simp add: with_param_def split: option.split)

text \<open>Every request is one event of \<open>ServerRun\<close>, or changes nothing.\<close>

lemma serve_endpoint_event:
  "snd (serve_endpoint web env cfg v hs body e s) = s
   \<or> (\<exists>ev. snd (serve_endpoint web env cfg v hs body e s) = handle_event env cfg ev s)"
proof (cases e)
  case (At_Narinfo raw)
  then show ?thesis
    by (cases "decode_param web raw")
       (auto simp: with_param_state intro: exI [of _ "Cache_Request (Get_Narinfo _)"]
         exI [of _ "Cache_Request (Put_Narinfo _ body)"])
next
  case (At_Nar raw)
  then show ?thesis
    by (cases "decode_param web raw")
       (auto simp: with_param_state intro: exI [of _ "Cache_Request (Get_Nar _)"]
         exI [of _ "Cache_Request (Put_Nar _ body)"])
next
  case At_Workflow_Start
  then show ?thesis by (auto intro: exI [of _ Workflow_Start])
next
  case At_Workflow_Finish
  then show ?thesis by (auto intro: exI [of _ Workflow_Finish])
next
  case At_Enqueue_Paths
  then show ?thesis by (auto split: sum.split prod.split intro: exI [of _ "Enqueue_Paths _"])
qed simp_all

lemma handle_request_event:
  "snd (handle_request web env cfg v path hs body s) = s
   \<or> (\<exists>ev. snd (handle_request web env cfg v path hs body s) = handle_event env cfg ev s)"
  unfolding handle_request_def by (cases "endpoint_of path") (simp, simp, rule serve_endpoint_event)

end
