(* ===== verification/Text.thy ===== *)
theory Text
  imports Prelude
begin

text \<open>
  The string operations of the Rust standard library that startup, the post-build hook and the token
  refresh use: \<open>str::replace\<close>, \<open>str::split_whitespace\<close> and \<open>str::trim\<close>. They work on the UTF-8 bytes
  of a string; a pattern that is itself UTF-8 matches only at character boundaries.
\<close>

section \<open>Replacing\<close>

text \<open>
  \<open>s.replace(from, to)\<close> scans from the left, without overlaps. The empty pattern matches before every
  character and at the end.
\<close>

definition replace_empty :: "string \<Rightarrow> string \<Rightarrow> string" where
  "replace_empty to s =
     concat (map (\<lambda>c. if utf8_cont (of_char c) then [c] else to @ [c]) s) @ to"

function replace_from :: "'a list \<Rightarrow> 'a list \<Rightarrow> 'a list \<Rightarrow> 'a list" where
  "replace_from from to s =
     (if s = [] \<or> from = [] then s
      else if take (length from) s = from then to @ replace_from from to (drop (length from) s)
      else hd s # replace_from from to (tl s))"
  by pat_completeness auto
termination
  by (relation "measure (\<lambda>(from, to, s). length s)") auto

declare replace_from.simps [simp del]

definition str_replace :: "string \<Rightarrow> string \<Rightarrow> string \<Rightarrow> string" where
  "str_replace from to s = (if from = [] then replace_empty to s else replace_from from to s)"

lemma replace_from_match:
  "from \<noteq> [] \<Longrightarrow> replace_from from to (from @ s) = to @ replace_from from to s"
  by (subst replace_from.simps) simp

lemma replace_from_step:
  "take (length from) (c # s) \<noteq> from \<Longrightarrow> replace_from from to (c # s) = c # replace_from from to s"
  by (subst replace_from.simps) (auto simp: replace_from.simps [of "[]"])

lemma replace_from_Nil [simp]: "replace_from from to [] = []"
  by (subst replace_from.simps) simp

text \<open>A text without the pattern is left alone; one with it contains the replacement afterwards.\<close>

lemma replace_from_absent: "\<not> contains_str s from \<Longrightarrow> replace_from from to s = s"
  by (induction s) (auto simp: replace_from_step)

lemma replace_from_contains:
  assumes "contains_str s from" and "from \<noteq> []"
  shows "contains_str (replace_from from to s) to"
  using assms(1)
proof (induction s)
  case Nil
  with assms(2) show ?case by simp
next
  case (Cons c s)
  show ?case
  proof (cases "take (length from) (c # s) = from")
    case True
    then have "c # s = from @ drop (length from) (c # s)"
      by (metis append_take_drop_id)
    then have "replace_from from to (c # s) = to @ replace_from from to (drop (length from) (c # s))"
      using replace_from_match [OF assms(2), of to "drop (length from) (c # s)"] by simp
    then show ?thesis by (metis append_Nil contains_str_iff)
  next
    case False
    with Cons have "contains_str (replace_from from to s) to" by simp
    with False show ?thesis by (simp add: replace_from_step)
  qed
qed

lemma str_replace_absent: "from \<noteq> [] \<Longrightarrow> \<not> contains_str s from \<Longrightarrow> str_replace from to s = s"
  by (simp add: str_replace_def replace_from_absent)

lemma str_replace_contains:
  "contains_str s from \<Longrightarrow> from \<noteq> [] \<Longrightarrow> contains_str (str_replace from to s) to"
  by (simp add: str_replace_def replace_from_contains)

lemma replace_from_self: "replace_from from from s = s"
proof (induction s rule: measure_induct_rule [of length])
  case (less s)
  consider "s = [] \<or> from = []" | "s \<noteq> []" "from \<noteq> []" "take (length from) s = from"
    | "s \<noteq> []" "from \<noteq> []" "take (length from) s \<noteq> from"
    by blast
  then show ?case
  proof cases
    case 1
    then show ?thesis by (subst replace_from.simps) simp
  next
    case 2
    with less.IH [of "drop (length from) s"] append_take_drop_id [of "length from" s] show ?thesis
      by (subst replace_from.simps) simp
  next
    case 3
    with less.IH [of "tl s"] show ?thesis by (subst replace_from.simps) simp
  qed
qed

section \<open>White space\<close>

text \<open>
  The length in bytes of the white space character (Unicode \<open>White_Space\<close>) that a UTF-8 text starts
  with, 0 when it does not start with one. A lead byte of such a character is never a continuation
  byte, so scanning bytes finds the same characters as scanning characters.
\<close>

fun ws_len :: "nat list \<Rightarrow> nat" where
  "ws_len [] = 0"
| "ws_len (a # bs) =
     (if 9 \<le> a \<and> a \<le> 13 \<or> a = 32 then 1
      else if a = 194 then (case bs of b # _ \<Rightarrow> if b = 133 \<or> b = 160 then 2 else 0 | [] \<Rightarrow> 0)
      else if a = 225 then (case bs of b # c # _ \<Rightarrow> if b = 154 \<and> c = 128 then 3 else 0 | _ \<Rightarrow> 0)
      else if a = 226 then
        (case bs of
           b # c # _ \<Rightarrow>
             if b = 128 \<and> (128 \<le> c \<and> c \<le> 138 \<or> c = 168 \<or> c = 169 \<or> c = 175)
                \<or> b = 129 \<and> c = 159 then 3 else 0
         | _ \<Rightarrow> 0)
      else if a = 227 then (case bs of b # c # _ \<Rightarrow> if b = 128 \<and> c = 128 then 3 else 0 | _ \<Rightarrow> 0)
      else 0)"

definition white_len :: "string \<Rightarrow> nat" where
  "white_len s = ws_len (map of_char s)"

lemma white_len_Nil [simp]: "white_len [] = 0"
  by (simp add: white_len_def)

text \<open>
  \<open>split_whitespace\<close>: the maximal runs without white space; \<open>word\<close> is the run read so far, reversed.
\<close>

definition flush_word :: "string \<Rightarrow> string list" where
  "flush_word word = (if word = [] then [] else [rev word])"

function split_ws :: "string \<Rightarrow> string \<Rightarrow> string list" where
  "split_ws word s =
     (if s = [] then flush_word word
      else if 0 < white_len s then flush_word word @ split_ws [] (drop (white_len s) s)
      else split_ws (hd s # word) (tl s))"
  by pat_completeness auto
termination
  by (relation "measure (\<lambda>(word, s). length s)") auto

declare split_ws.simps [simp del]

definition split_whitespace :: "string \<Rightarrow> string list" where
  "split_whitespace s = split_ws [] s"

text \<open>\<open>trim\<close>: from the start, and from the end up to the last character that is not white space.\<close>

function trim_start :: "string \<Rightarrow> string" where
  "trim_start s = (if s \<noteq> [] \<and> 0 < white_len s then trim_start (drop (white_len s) s) else s)"
  by pat_completeness auto
termination
  by (relation "measure length") auto

declare trim_start.simps [simp del]

function trim_end_from :: "string \<Rightarrow> string \<Rightarrow> string" where
  "trim_end_from spaces s =
     (if s = [] then []
      else if 0 < white_len s
      then trim_end_from (spaces @ take (white_len s) s) (drop (white_len s) s)
      else spaces @ hd s # trim_end_from [] (tl s))"
  by pat_completeness auto
termination
  by (relation "measure (\<lambda>(spaces, s). length s)") auto

declare trim_end_from.simps [simp del]

definition trim :: "string \<Rightarrow> string" where
  "trim s = trim_end_from [] (trim_start s)"

text \<open>A text no part of which starts with white space, as every store path is.\<close>

definition no_white :: "string \<Rightarrow> bool" where
  "no_white s \<longleftrightarrow> (\<forall>c \<in> set s. 33 \<le> (of_char c :: nat) \<and> (of_char c :: nat) < 127)"

lemma white_len_printable:
  "33 \<le> (of_char c :: nat) \<Longrightarrow> (of_char c :: nat) < 127 \<Longrightarrow> white_len (c # s) = 0"
  by (simp add: white_len_def)

lemma white_len_blank [simp]: "white_len (CHR '' '' # s) = 1"
  by (simp add: white_len_def)

lemma split_ws_no_white:
  "no_white w \<Longrightarrow> split_ws acc (w @ s) = split_ws (rev w @ acc) s"
proof (induction w arbitrary: acc)
  case (Cons c w)
  then have "white_len (c # w @ s) = 0" and "no_white w"
    by (simp_all add: no_white_def white_len_printable)
  then show ?case
    using Cons.IH [of "c # acc"] by (simp add: split_ws.simps [of acc])
qed simp

lemma split_ws_end: "split_ws acc [] = flush_word acc"
  by (simp add: split_ws.simps)

lemma split_ws_blank: "split_ws acc (CHR '' '' # s) = flush_word acc @ split_ws [] s"
  by (simp add: split_ws.simps [of acc])

text \<open>Splitting undoes joining with blanks, which is how Nix passes the paths.\<close>

lemma split_whitespace_join:
  assumes "\<forall>w \<in> set ws. w \<noteq> [] \<and> no_white w"
  shows "split_whitespace (join '' '' ws) = ws"
  using assms unfolding split_whitespace_def
proof (induction ws)
  case (Cons w ws)
  then show ?case
    by (cases ws)
       (auto simp: split_ws_end flush_word_def split_ws_no_white split_ws_blank
          split_ws_no_white [where s = "[]", simplified])
qed (simp add: split_ws_end flush_word_def)

text \<open>The same of a line that ends in a newline.\<close>

lemma split_ws_newline: "split_ws acc (CHR ''\<newline>'' # s) = flush_word acc @ split_ws [] s"
  by (simp add: split_ws.simps [of acc] white_len_def)

lemma split_whitespace_line:
  assumes "\<forall>w \<in> set ws. w \<noteq> [] \<and> no_white w"
  shows "split_whitespace (join '' '' ws @ CHR ''\<newline>'' # s) = ws @ split_whitespace s"
  using assms unfolding split_whitespace_def
proof (induction ws)
  case (Cons w ws)
  then show ?case
    by (cases ws) (auto simp: flush_word_def split_ws_no_white split_ws_blank split_ws_newline)
qed (simp add: split_ws_newline flush_word_def)

lemma trim_start_no_white: "no_white w \<Longrightarrow> trim_start w = w"
  by (cases w) (auto simp: trim_start.simps no_white_def white_len_printable)

lemma trim_end_no_white: "no_white w \<Longrightarrow> trim_end_from [] w = w"
proof (induction w)
  case (Cons c w)
  then have "white_len (c # w) = 0" and "no_white w"
    by (simp_all add: no_white_def white_len_printable)
  with Cons.IH show ?case by (simp add: trim_end_from.simps [of "[]"])
qed (simp add: trim_end_from.simps)

lemma trim_no_white: "no_white w \<Longrightarrow> trim w = w"
  by (simp add: trim_def trim_start_no_white trim_end_no_white)

end
