(* ===== verification/Files.thy ===== *)
theory Files
  imports StorePaths Text
begin

text \<open>
  The files the daemon reads and writes at startup and while it refreshes tokens: what it uses of
  \<open>std::fs\<close> and \<open>tokio::fs\<close>, and \<open>Path::with_extension\<close>. A disk maps paths to files; the operating
  system's choices (inode numbers, the mode of a new file) and its failures are data of the disk.
  \<open>faults\<close> says what becomes of the next system calls: \<open>None\<close> is a call that works as documented,
  \<open>Refused\<close> one that fails without an effect, \<open>Cut\<close> a write that fails after some bytes. Directories,
  links and different spellings of one path are not modelled; a missing directory is a fault.

  The locale \<open>file_store\<close> is what replacing a file through a temporary one relies on.
\<close>

section \<open>Disks\<close>

record file_node =
  content :: bytes
  inode :: "64 word"
  mode :: "32 word"

datatype fault = Refused io_error | Cut io_error nat

fun fault_error :: "fault \<Rightarrow> io_error" where
  "fault_error (Refused e) = e"
| "fault_error (Cut e n) = e"

record disk =
  files :: "bytes \<rightharpoonup> file_node"
  created :: nat
  inodes :: "nat \<Rightarrow> 64 word"
  create_mode :: "32 word"
  faults :: "fault option list"

definition contents :: "'z disk_scheme \<Rightarrow> bytes \<Rightarrow> bytes option" where
  "contents s p = map_option content (files s p)"

definition ENOENT :: io_error where
  "ENOENT = ''No such file or directory (os error 2)''"

definition INVALID_UTF8 :: io_error where
  "INVALID_UTF8 = ''stream did not contain valid UTF-8''"

section \<open>System calls\<close>

definition syscall :: "('z disk_scheme, io_error, 'a) comp \<Rightarrow> ('z disk_scheme, io_error, 'a) comp" where
  "syscall m s =
     (case faults s of
        [] \<Rightarrow> m s
      | None # fs \<Rightarrow> m (s\<lparr>faults := fs\<rparr>)
      | Some f # fs \<Rightarrow> (Err (fault_error f), s\<lparr>faults := fs\<rparr>))"

definition create_node :: "bytes \<Rightarrow> 'z disk_scheme \<Rightarrow> 'z disk_scheme" where
  "create_node p s =
     s\<lparr>files := (files s)(p \<mapsto> \<lparr>content = [], inode = inodes s (created s), mode = create_mode s\<rparr>),
       created := Suc (created s)\<rparr>"

text \<open>Opening to read, and to write: \<open>create\<close> and \<open>truncate\<close> of \<open>OpenOptions\<close>.\<close>

definition open_read :: "bytes \<Rightarrow> ('z disk_scheme, io_error, unit) comp" where
  "open_read p = syscall (\<lambda>s. if files s p = None then (Err ENOENT, s) else (Ok (), s))"

definition open_write :: "bool \<Rightarrow> bool \<Rightarrow> bytes \<Rightarrow> ('z disk_scheme, io_error, unit) comp" where
  "open_write cr tr p =
     syscall (\<lambda>s. case files s p of
        Some f \<Rightarrow> (Ok (), if tr then s\<lparr>files := (files s)(p \<mapsto> f\<lparr>content := []\<rparr>)\<rparr> else s)
      | None \<Rightarrow> if cr then (Ok (), create_node p s) else (Err ENOENT, s))"

definition read_string :: "bytes \<Rightarrow> ('z disk_scheme, io_error, string) comp" where
  "read_string p =
     syscall (\<lambda>s. case contents s p of
        None \<Rightarrow> (Err ENOENT, s)
      | Some c \<Rightarrow> (if utf8_valid c then (Ok c, s) else (Err INVALID_UTF8, s)))"

text \<open>Every write of the source is at the end of a file it has just opened.\<close>

definition append_bytes :: "bytes \<Rightarrow> bytes \<Rightarrow> 'z disk_scheme \<Rightarrow> 'z disk_scheme" where
  "append_bytes p data s =
     s\<lparr>files := (files s)(p := map_option (\<lambda>f. f\<lparr>content := content f @ data\<rparr>) (files s p))\<rparr>"

definition write_all :: "bytes \<Rightarrow> bytes \<Rightarrow> ('z disk_scheme, io_error, unit) comp" where
  "write_all p data s =
     (case faults s of
        [] \<Rightarrow> (Ok (), append_bytes p data s)
      | None # fs \<Rightarrow> (Ok (), append_bytes p data (s\<lparr>faults := fs\<rparr>))
      | Some (Refused e) # fs \<Rightarrow> (Err e, s\<lparr>faults := fs\<rparr>)
      | Some (Cut e n) # fs \<Rightarrow> (Err e, append_bytes p (take n data) (s\<lparr>faults := fs\<rparr>)))"

text \<open>
  A \<open>tokio::fs::File\<close> takes up to 2 MiB of data into a buffer and writes it in the background; as the
  code drops the file without a flush, an error of that write reaches no one. When it happens is not
  modelled: it is done when the operation returns.
\<close>

definition buffered_write :: "bytes \<Rightarrow> bytes \<Rightarrow> ('z disk_scheme, io_error, unit) comp" where
  "buffered_write p data s = (Ok (), snd (write_all p data s))"

definition read_to_string :: "bytes \<Rightarrow> ('z disk_scheme, io_error, string) comp" where
  "read_to_string p = and_then (open_read p) (\<lambda>_. read_string p)"

definition write_file :: "bytes \<Rightarrow> bytes \<Rightarrow> ('z disk_scheme, io_error, unit) comp" where
  "write_file p data = and_then (open_write True True p) (\<lambda>_. write_all p data)"

definition rename_file :: "bytes \<Rightarrow> bytes \<Rightarrow> ('z disk_scheme, io_error, unit) comp" where
  "rename_file src dst =
     syscall (\<lambda>s. case files s src of
        None \<Rightarrow> (Err ENOENT, s)
      | Some f \<Rightarrow> (Ok (), s\<lparr>files := (files s)(src := None, dst \<mapsto> f)\<rparr>))"

definition remove_file :: "bytes \<Rightarrow> ('z disk_scheme, io_error, unit) comp" where
  "remove_file p =
     syscall (\<lambda>s. if files s p = None then (Err ENOENT, s) else (Ok (), s\<lparr>files := (files s)(p := None)\<rparr>))"

definition set_mode :: "bytes \<Rightarrow> 32 word \<Rightarrow> ('z disk_scheme, io_error, unit) comp" where
  "set_mode p m =
     syscall (\<lambda>s. case files s p of
        None \<Rightarrow> (Err ENOENT, s)
      | Some f \<Rightarrow> (Ok (), s\<lparr>files := (files s)(p \<mapsto> f\<lparr>mode := m\<rparr>)\<rparr>))"

definition file_inode :: "bytes \<Rightarrow> ('z disk_scheme, io_error, 64 word) comp" where
  "file_inode p =
     syscall (\<lambda>s. case files s p of None \<Rightarrow> (Err ENOENT, s) | Some f \<Rightarrow> (Ok (inode f), s))"

text \<open>\<open>path.exists()\<close> is false on every error.\<close>

definition path_exists :: "bytes \<Rightarrow> ('z disk_scheme, 'e, bool) comp" where
  "path_exists p s = (case file_inode p s of (r, t) \<Rightarrow> (Ok (is_ok r), t))"

definition create_dir_all :: "bytes \<Rightarrow> ('z disk_scheme, io_error, unit) comp" where
  "create_dir_all p = syscall (return_ok ())"

lemmas call_defs = open_read_def open_write_def read_string_def rename_file_def remove_file_def
  set_mode_def file_inode_def create_dir_all_def

section \<open>Paths\<close>

text \<open>
  \<open>Path::with_extension\<close>: the path up to the end of the stem of its file name, a dot and the new
  extension. What follows the file name (slashes and \<open>.\<close> components) is dropped.
\<close>

fun drop_trailing :: "bytes \<Rightarrow> bytes" where
  "drop_trailing (CHR ''/'' # r) = drop_trailing r"
| "drop_trailing (CHR ''.'' # CHR ''/'' # r) = drop_trailing r"
| "drop_trailing r = r"

definition file_stem_len :: "bytes \<Rightarrow> nat" where
  "file_stem_len f =
     (case name_extension f of None \<Rightarrow> length f | Some e \<Rightarrow> length f - length e - 1)"

definition with_extension :: "bytes \<Rightarrow> bytes \<Rightarrow> bytes" where
  "with_extension p e =
     (case path_file_name p of
        None \<Rightarrow> p
      | Some f \<Rightarrow>
          (let base = rev (drop_trailing (rev p));
               stem = take (length base - length f + file_stem_len f) base
           in if e = [] then stem else stem @ ''.'' @ e))"

text \<open>\<open>path.parent().is_some()\<close>: there is a component that can be taken away.\<close>

definition has_parent :: "bytes \<Rightarrow> bool" where
  "has_parent p \<longleftrightarrow>
     (let cs = split_on (CHR ''/'') p in hd cs = ''.'' \<or> (\<exists>c \<in> set cs. c \<noteq> '''' \<and> c \<noteq> ''.''))"

section \<open>What the calls do to the files\<close>

lemma syscall_cases:
  assumes "syscall m s = (r, t)"
  obtains (works) fs where "m (s\<lparr>faults := fs\<rparr>) = (r, t)"
  | (fails) e fs where "r = Err e" and "t = s\<lparr>faults := fs\<rparr>"
proof (cases "faults s")
  case Nil
  with assms have "m s = (r, t)" by (simp add: syscall_def)
  moreover from Nil have "s\<lparr>faults := []\<rparr> = s" by (cases s) simp
  ultimately show ?thesis using works [of "[]"] by simp
next
  case (Cons f fs)
  with assms works [of fs] fails [of _ fs] show ?thesis
    by (cases f) (auto simp: syscall_def)
qed

lemma syscall_free [simp]: "faults s = [] \<Longrightarrow> syscall m s = m s"
  by (simp add: syscall_def)

lemma contents_update [simp]:
  "contents (s\<lparr>faults := fs\<rparr>) = contents s"
  "contents (create_node p s) = (contents s)(p \<mapsto> [])"
  "contents (append_bytes p d s) = (contents s)(p := map_option (\<lambda>c. c @ d) (contents s p))"
  by (rule ext; simp add: contents_def create_node_def append_bytes_def option.map_comp comp_def)+

lemma reading_keeps_contents:
  "open_read p s = (r, t) \<Longrightarrow> contents t = contents s"
  "read_string p s = (r', t) \<Longrightarrow> contents t = contents s"
  by (auto simp: call_defs elim!: syscall_cases split: if_splits option.splits)

lemma read_to_string_keeps: "read_to_string p s = (r, t) \<Longrightarrow> contents t = contents s"
  by (auto simp: read_to_string_def elim!: and_then_cases dest!: reading_keeps_contents)

lemma read_string_OkD:
  "read_string p s = (Ok c, t) \<Longrightarrow> contents s p = Some c \<and> utf8_valid c"
  by (auto simp: call_defs elim!: syscall_cases split: if_splits option.splits)

lemma read_to_string_OkD:
  "read_to_string p s = (Ok c, t) \<Longrightarrow> contents s p = Some c \<and> utf8_valid c"
  by (auto simp: read_to_string_def dest!: and_then_OkD read_string_OkD reading_keeps_contents(1))

lemma open_write_frame:
  "open_write cr tr p s = (r, t) \<Longrightarrow> q \<noteq> p \<Longrightarrow> contents t q = contents s q"
  by (auto simp: call_defs contents_def create_node_def elim!: syscall_cases split: if_splits option.splits)

lemma write_all_frame:
  "write_all p d s = (r, t) \<Longrightarrow> q \<noteq> p \<Longrightarrow> contents t q = contents s q"
  by (auto simp: write_all_def split: list.splits option.splits fault.splits)

lemma write_file_frame:
  "write_file p d s = (r, t) \<Longrightarrow> q \<noteq> p \<Longrightarrow> contents t q = contents s q"
  unfolding write_file_def
  by (erule and_then_cases) (simp_all add: open_write_frame write_all_frame [of p d _ r t q])

lemma open_truncate_OkD: "open_write True True p s = (Ok u, t) \<Longrightarrow> contents t p = Some []"
  by (auto simp: call_defs contents_def create_node_def elim!: syscall_cases split: option.splits)

lemma write_all_OkD:
  "write_all p d s = (Ok u, t) \<Longrightarrow> contents t p = map_option (\<lambda>c. c @ d) (contents s p)"
  by (auto simp: write_all_def split: list.splits option.splits fault.splits)

lemma write_file_OkD: "write_file p d s = (Ok u, t) \<Longrightarrow> contents t p = Some d"
  by (auto simp: write_file_def dest!: and_then_OkD open_truncate_OkD write_all_OkD)

lemma rename_file_OkD:
  "rename_file p q s = (Ok u, t) \<Longrightarrow>
     contents s p \<noteq> None \<and> contents t = (contents s)(p := None, q := contents s p)"
  by (auto simp: call_defs contents_def fun_eq_iff elim!: syscall_cases split: option.splits)

lemma rename_file_ErrD: "rename_file p q s = (Err e, t) \<Longrightarrow> contents t = contents s"
  by (auto simp: call_defs elim!: syscall_cases split: option.splits)

lemma syscall_no_panic: "(\<And>s t. m s \<noteq> (Panic p, t)) \<Longrightarrow> syscall m s \<noteq> (Panic p, t)"
  by (auto elim!: syscall_cases)

lemma calls_no_panic:
  "open_read p s \<noteq> (Panic m, t)" "open_write cr tr p s \<noteq> (Panic m, t)"
  "read_string p s \<noteq> (Panic m, t)" "rename_file p q s \<noteq> (Panic m, t)"
  "file_inode p s \<noteq> (Panic m, t)" "set_mode p md s \<noteq> (Panic m, t)"
  "remove_file p s \<noteq> (Panic m, t)" "create_dir_all p s \<noteq> (Panic m, t)"
  unfolding call_defs by (rule syscall_no_panic; simp split: option.split)+

lemma write_all_no_panic: "write_all p d s \<noteq> (Panic m, t)"
  by (simp add: write_all_def split: list.split option.split fault.split)

lemma and_then_no_panic:
  assumes "m s \<noteq> (Panic p, t)" and "\<And>x u. f x u \<noteq> (Panic p, t)"
  shows "and_then m f s \<noteq> (Panic p, t)"
  using assms by (auto elim!: and_then_cases)

lemma composed_no_panic:
  "read_to_string p s \<noteq> (Panic m, t)" "write_file p d s \<noteq> (Panic m, t)"
  unfolding read_to_string_def write_file_def
  by (rule and_then_no_panic; rule calls_no_panic write_all_no_panic)+

section \<open>Replacing a file\<close>

locale file_store =
  fixes holds :: "'s \<Rightarrow> bytes \<Rightarrow> bytes option"
    and put :: "bytes \<Rightarrow> bytes \<Rightarrow> ('s, 'e, unit) comp"
    and move :: "bytes \<Rightarrow> bytes \<Rightarrow> ('s, 'e, unit) comp"
  assumes put_frame: "put p d s = (r, t) \<Longrightarrow> q \<noteq> p \<Longrightarrow> holds t q = holds s q"
    and put_Ok: "put p d s = (Ok u, t) \<Longrightarrow> holds t p = Some d"
    and rename_Ok: "move p q s = (Ok u, t) \<Longrightarrow> holds t = (holds s)(p := None, q := holds s p)"
    and rename_Err: "move p q s = (Err e, t) \<Longrightarrow> holds t = holds s"
    and rename_no_panic: "move p q s \<noteq> (Panic m, t)"
begin

text \<open>
  Writing next to the file and renaming over it: whatever fails, the file has its old content or
  the new one, it has the new one exactly on success, and no third file is touched.
\<close>

lemma replaced_or_kept:
  assumes run: "and_then (put tmp d) (\<lambda>_. move tmp p) s = (r, t)" and tmp: "tmp \<noteq> p"
  shows "holds t p = (if is_ok r then Some d else holds s p)
    \<and> (is_ok r \<longrightarrow> holds t tmp = None)
    \<and> (\<forall>q. q \<noteq> p \<longrightarrow> q \<noteq> tmp \<longrightarrow> holds t q = holds s q)"
  using run
proof (cases rule: and_then_cases)
  case (cont u s')
  have frame: "\<forall>q. q \<noteq> tmp \<longrightarrow> holds s' q = holds s q" and put: "holds s' tmp = Some d"
    using put_frame [OF cont(1)] put_Ok [OF cont(1)] by blast+
  show ?thesis
  proof (cases r)
    case (Ok v)
    from rename_Ok [OF cont(2) [unfolded Ok]] frame put tmp show ?thesis by (simp add: Ok)
  next
    case (Err e)
    from rename_Err [OF cont(2) [unfolded Err]] frame tmp show ?thesis by (simp add: Err)
  qed (use rename_no_panic cont(2) in blast)
next
  case (error e)
  have "\<forall>q. q \<noteq> tmp \<longrightarrow> holds t q = holds s q"
    using put_frame [OF error(1)] by blast
  with error(2) tmp show ?thesis by simp
next
  case (panic m)
  have "\<forall>q. q \<noteq> tmp \<longrightarrow> holds t q = holds s q"
    using put_frame [OF panic(1)] by blast
  with panic(2) tmp show ?thesis by simp
qed

end

interpretation fs: file_store contents write_file rename_file
proof unfold_locales
  show "write_file p d s = (r, t) \<Longrightarrow> q \<noteq> p \<Longrightarrow> contents t q = contents s q"
    for p d r q and s t :: "'a disk_scheme" by (rule write_file_frame)
qed (rule write_file_OkD rename_file_OkD [THEN conjunct2] rename_file_ErrD calls_no_panic(4); assumption?)+

end
