(* ===== verification/FlakeHub.thy ===== *)
theory FlakeHub
  imports Config Files
begin

text \<open>
  \<open>magic-nix-cache/src/flakehub.rs\<close>: reading the credentials from a netrc file, setting up the
  FlakeHub cache, and the two loops that keep the client's token fresh. They run on a \<open>host\<close>: the
  disk with the netrc file, what was recorded, printed and slept, the refresh task that was spawned,
  and the token that the API client last accepted. The netrc parser, URLs, the attic client, JSON and
  HTTP authentication come from other crates and are fields of \<open>flakehub_env\<close>.
\<close>

section \<open>Hosts\<close>

text \<open>The fields of a netrc \<open>Machine\<close> that the code reads, and a spawned refresh task with its state.\<close>

record netrc_machine =
  m_name :: "string option"
  m_login :: "string option"
  m_password :: "string option"

datatype refresher =
    No_Refresh
  | Refresh_GitHub bytes string
  | Refresh_Determinate bytes "64 word"

record 'w host = disk +
  recorded :: "fact list"
  stdout :: "string list"
  sleeps :: "nat list"
  spawned :: refresher
  api_token :: string
  world :: 'w

record 'w flakehub_env = "'w server_env" +
  vars :: env_vars
  var_error :: "string \<Rightarrow> string"
  netrc_parse :: "string \<Rightarrow> string + netrc_machine list"
  url_host :: "string \<Rightarrow> string option"
  url_join :: "string \<Rightarrow> string \<Rightarrow> string + string"
  basic_auth :: "string \<Rightarrow> string \<Rightarrow> string"
  api_client_new :: "string \<Rightarrow> string \<Rightarrow> string + unit"
  accept_token :: "string \<Rightarrow> 'w \<Rightarrow> (string + unit) \<times> 'w"
  get_cache_config :: "string \<Rightarrow> string \<Rightarrow> 'w \<Rightarrow> (string + unit) \<times> 'w"
  response_text :: "bytes \<Rightarrow> string"
  json_project_info :: "bytes \<Rightarrow> string + string \<times> string"
  json_token :: "bytes \<Rightarrow> string + string"
  debug_path :: "bytes \<Rightarrow> string"

definition on_world :: "('w \<Rightarrow> ('x + 'a) \<times> 'w) \<Rightarrow> ('w host, 'x, 'a) comp" where
  "on_world f s = (case f (world s) of (r, w) \<Rightarrow> (result_of_sum r, s\<lparr>world := w\<rparr>))"

definition sleep :: "nat \<Rightarrow> 'w host \<Rightarrow> 'w host" where
  "sleep secs s = s\<lparr>sleeps := sleeps s @ [secs]\<rparr>"

text \<open>\<open>api.set_token\<close>: the client goes on with the old token when it does not accept the new one.\<close>

definition set_token :: "'w flakehub_env \<Rightarrow> string \<Rightarrow> ('w host, server_error, unit) comp" where
  "set_token env token =
     and_then (map_err_comp FlakeHub (on_world (accept_token env token)))
       (\<lambda>_. modify (\<lambda>s. s\<lparr>api_token := token\<rparr>))"

definition FLAKEHUB_USER_AGENT :: string where
  "FLAKEHUB_USER_AGENT = ''magic-nix-cache''"

section \<open>Credentials from a netrc file\<close>

record netrc_info =
  ni_machines :: "netrc_machine list"
  ni_cache_host :: string
  ni_login :: string
  ni_password :: string

definition find_machine :: "string option \<Rightarrow> netrc_machine list \<Rightarrow> netrc_machine option" where
  "find_machine name ms = List.find (\<lambda>m. m_name m = name) ms"

definition quoted :: "string \<Rightarrow> string" where
  "quoted s = CHR 0x27 # s @ [CHR 0x27]"

definition netrc_info_of ::
  "'w flakehub_env \<Rightarrow> string \<Rightarrow> string \<Rightarrow> string \<Rightarrow> (server_error, netrc_info) result" where
  "netrc_info_of env api_server cache_server text =
     (case netrc_parse env text of
        Inl e \<Rightarrow> Err (Netrc e)
      | Inr ms \<Rightarrow>
     (case find_machine (url_host env api_server) ms of
        None \<Rightarrow> Err (MissingCreds api_server)
      | Some m \<Rightarrow>
     (case url_host env cache_server of
        None \<Rightarrow> Err (BadUrl cache_server)
      | Some h \<Rightarrow>
     (case m_login m of
        None \<Rightarrow> Err (Config (''netrc file does not contain a login for '' @ quoted api_server))
      | Some l \<Rightarrow>
     (case m_password m of
        None \<Rightarrow> Err (Config (''netrc file does not contain a password for '' @ quoted api_server))
      | Some p \<Rightarrow> Ok \<lparr>ni_machines = ms, ni_cache_host = h, ni_login = l, ni_password = p\<rparr>)))))"

definition extract_info_from_netrc ::
  "'w flakehub_env \<Rightarrow> bytes \<Rightarrow> string \<Rightarrow> string \<Rightarrow> ('w host, server_error, netrc_info) comp" where
  "extract_info_from_netrc env netrc_path api_server cache_server =
     and_then (map_err_comp (\<lambda>e. Internal (''Failed to open '' @ display netrc_path @ '': '' @ e))
                 (open_read netrc_path))
       (\<lambda>_. and_then (map_err_comp
                 (\<lambda>e. Internal (''Failed to read '' @ display netrc_path @ '' contents: '' @ e))
                 (read_string netrc_path))
       (\<lambda>text. lift_result (netrc_info_of env api_server cache_server text)))"

definition netrc_entry :: "netrc_info \<Rightarrow> string" where
  "netrc_entry info =
     ''\<newline>machine '' @ ni_cache_host info @ '' login '' @ ni_login info
     @ '' password '' @ ni_password info @ ''\<newline>\<newline>''"

text \<open>
  An entry for the cache server is appended once, and only to a netrc the user gave. The last
  \<open>map_err\<close> is never reached: the write is buffered.
\<close>

definition append_cache_entry ::
  "flakehub_auth_source \<Rightarrow> netrc_info \<Rightarrow> ('w host, server_error, unit) comp" where
  "append_cache_entry auth_method info =
     (case auth_method of
        Netrc_File netrc_path \<Rightarrow>
          if \<exists>m \<in> set (ni_machines info). m_name m = Some (ni_cache_host info) then return_ok ()
          else
            and_then (map_err_comp
                 (\<lambda>e. Internal (''Failed to open '' @ display netrc_path @ '' for appending: '' @ e))
                 (open_write False False netrc_path))
              (\<lambda>_. map_err_comp
                 (\<lambda>e. Internal (''Failed to write credentials to '' @ display netrc_path @ '': '' @ e))
                 (buffered_write netrc_path (netrc_entry info)))
      | DeterminateNixd \<Rightarrow> return_ok ())"

section \<open>Setting up the cache\<close>

text \<open>The refresh task that is spawned; the inode is read before, from the file as it is then.\<close>

definition start_refresh ::
  "environment \<Rightarrow> flakehub_auth_source \<Rightarrow> string \<Rightarrow> ('w host, server_error, refresher) comp" where
  "start_refresh environment auth_method password =
     (if is_gitlab_ci environment then return_ok No_Refresh
      else case auth_method of
             Netrc_File path \<Rightarrow>
               return_ok (if is_github_actions environment then Refresh_GitHub path password else No_Refresh)
           | DeterminateNixd \<Rightarrow>
               and_then (map_err_comp (\<lambda>e. Io e (''getting metadata of '' @ display DETERMINATE_NETRC_PATH))
                           (file_inode DETERMINATE_NETRC_PATH))
                 (\<lambda>i. return_ok (Refresh_Determinate DETERMINATE_NETRC_PATH i)))"

definition spawn_refresh :: "refresher \<Rightarrow> ('w host, 'e, unit) comp" where
  "spawn_refresh r = modify (\<lambda>s. s\<lparr>spawned := r\<rparr>)"

definition http_request_of ::
  "'w flakehub_env \<Rightarrow> http_client \<Rightarrow> http_request \<Rightarrow> ('w host, string, http_response) comp" where
  "http_request_of env cl rq = on_world (http_send env cl rq)"

definition plain_client :: http_client where
  "plain_client = \<lparr>user_agent = '''', default_headers = []\<rparr>"

definition project_url ::
  "'w flakehub_env \<Rightarrow> string \<Rightarrow> string option \<Rightarrow> (server_error, string) result" where
  "project_url env api_server flake_name =
     (let bad = Config (''bad URL '' @ quoted api_server);
          at = (\<lambda>p. map_err (\<lambda>_. bad) (result_of_sum (url_join env api_server p)))
      in case at ''project'' of
           Ok u \<Rightarrow>
             (case flake_name of
                Some name \<Rightarrow> if name \<noteq> [] then at (''project/'' @ name) else Ok u
              | None \<Rightarrow> Ok u)
         | r \<Rightarrow> r)"

text \<open>The body is read for the error message of a failed request, too, and reading it may fail.\<close>

definition project_response ::
  "'w flakehub_env \<Rightarrow> http_response \<Rightarrow> (server_error, string) result" where
  "project_response env res =
     (case rs_body res of
        Inl e \<Rightarrow> Err (FlakeHubHttp e)
      | Inr body \<Rightarrow>
          if \<not> is_success (rs_status res) then Err (GetCacheName (rs_status res) (response_text env body))
          else (case json_project_info env body of
                  Inl e \<Rightarrow> Err (FlakeHubHttp e)
                | Inr (org, project) \<Rightarrow> Ok (org @ '':'' @ project)))"

definition fetch_cache_name ::
  "'w flakehub_env \<Rightarrow> string \<Rightarrow> string option \<Rightarrow> netrc_info \<Rightarrow> ('w host, server_error, string) comp" where
  "fetch_cache_name env api_server flake_name info =
     and_then (lift_result (project_url env api_server flake_name))
       (\<lambda>url. and_then (map_err_comp FlakeHubHttp (http_request_of env plain_client
            \<lparr>rq_method = GET, rq_url = url, rq_query = [],
             rq_headers = [(''User-Agent'', FLAKEHUB_USER_AGENT),
                           (''Authorization'', basic_auth env (ni_login info) (ni_password info))],
             rq_body = No_Body\<rparr>))
       (\<lambda>res. lift_result (project_response env res)))"

text \<open>
  \<open>init_cache\<close>. The result is the name of the cache that the push session is opened on; opening it
  does nothing to the host.
\<close>

definition init_cache ::
  "'w flakehub_env \<Rightarrow> environment \<Rightarrow> string \<Rightarrow> string \<Rightarrow> string option \<Rightarrow> flakehub_auth_source
     \<Rightarrow> ('w host, server_error, string) comp" where
  "init_cache env environment api_server cache_server flake_name auth_method =
     and_then (extract_info_from_netrc env (as_path_buf auth_method) api_server cache_server)
       (\<lambda>info. and_then (append_cache_entry auth_method info)
       (\<lambda>_. and_then (lift_result (map_err FlakeHub
              (result_of_sum (api_client_new env cache_server (ni_password info)))))
       (\<lambda>_. and_then (modify (\<lambda>s. s\<lparr>api_token := ni_password info\<rparr>))
       (\<lambda>_. and_then (start_refresh environment auth_method (ni_password info))
       (\<lambda>task. and_then (spawn_refresh task)
       (\<lambda>_. and_then (fetch_cache_name env api_server flake_name info)
       (\<lambda>cache_name. and_then (map_err_comp FlakeHub
              (\<lambda>s. on_world (get_cache_config env (api_token s) cache_name) s))
       (\<lambda>_. return_ok cache_name))))))))"

section \<open>Refreshing a GitHub token\<close>

definition env_var :: "'w flakehub_env \<Rightarrow> string \<Rightarrow> (server_error, string) result" where
  "env_var env name =
     (case vars env name of
        Some v \<Rightarrow> Ok v
      | None \<Rightarrow> Err (Internal (name @ '' was invalid unicode: '' @ var_error env name)))"

text \<open>\<open>error_for_status_ref\<close> refuses the client and server errors only.\<close>

definition token_of_response :: "'w flakehub_env \<Rightarrow> http_response \<Rightarrow> (server_error, string) result" where
  "token_of_response env res =
     (if 400 \<le> rs_status res \<and> rs_status res < 600
      then Err (FlakeHubHttp ''HTTP status error'')
      else case rs_body res of
             Inl e \<Rightarrow> Err (FlakeHub ''converting response into json'')
           | Inr body \<Rightarrow>
               (case json_token env body of
                  Inl e \<Rightarrow> Err (FlakeHub ''converting response into json'')
                | Inr v \<Rightarrow> Ok v))"

definition request_token ::
  "'w flakehub_env \<Rightarrow> http_client \<Rightarrow> ('w host, server_error, string) comp" where
  "request_token env cl =
     and_then (lift_result (env_var env ''ACTIONS_ID_TOKEN_REQUEST_TOKEN''))
       (\<lambda>runtime_token. and_then (lift_result (env_var env ''ACTIONS_ID_TOKEN_REQUEST_URL''))
       (\<lambda>runtime_url.
          let token_request_url = runtime_url @ ''&audience=api.flakehub.com''
          in and_then (map_err_comp (\<lambda>_. FlakeHub (''sending request to '' @ token_request_url))
                 (http_request_of env cl
                    \<lparr>rq_method = GET, rq_url = token_request_url, rq_query = [],
                     rq_headers = [(''Authorization'', ''Bearer '' @ runtime_token)], rq_body = No_Body\<rparr>))
               (\<lambda>res. lift_result (token_of_response env res))))"

text \<open>Storing the token: the netrc is written anew beside the old one and renamed over it.\<close>

definition replace_in_netrc ::
  "'w flakehub_env \<Rightarrow> bytes \<Rightarrow> string \<Rightarrow> string \<Rightarrow> ('w host, server_error, unit) comp" where
  "replace_in_netrc env netrc_path old_jwt new_jwt =
     (let tmp = with_extension netrc_path ''tmp'' in
      and_then (map_err_comp (\<lambda>_. FlakeHub (''failed to read '' @ debug_path env netrc_path @ '' to string''))
                  (read_to_string netrc_path))
        (\<lambda>text. and_then (map_err_comp (\<lambda>_. FlakeHub (''writing new JWT to '' @ debug_path env tmp))
                  (write_file tmp (str_replace old_jwt new_jwt text)))
        (\<lambda>_. map_err_comp (\<lambda>_. FlakeHub (''renaming '' @ debug_path env tmp @ '' to '' @ debug_path env netrc_path))
                  (rename_file tmp netrc_path))))"

definition rewrite_github_actions_token ::
  "'w flakehub_env \<Rightarrow> http_client \<Rightarrow> bytes \<Rightarrow> string \<Rightarrow> ('w host, server_error, string) comp" where
  "rewrite_github_actions_token env cl netrc_path old_jwt =
     and_then (request_token env cl)
       (\<lambda>new_jwt. and_then (replace_in_netrc env netrc_path old_jwt new_jwt)
       (\<lambda>_. return_ok new_jwt))"

text \<open>
  The task: two minutes of sleep, its HTTP client, then for ever turns of its loop. A token that the
  client does not accept ends the task, after the netrc has been rewritten.
\<close>

definition refresh_client :: http_client where
  "refresh_client =
     \<lparr>user_agent = FLAKEHUB_USER_AGENT,
      default_headers = [(''Accept'', ''application/json;api-version=2.0''),
                         (''Content-Type'', ''application/json'')]\<rparr>"

definition github_refresh_start :: "'w flakehub_env \<Rightarrow> 'w host \<Rightarrow> http_client option \<times> 'w host" where
  "github_refresh_start env s =
     (case client_build env refresh_client of
        Inr cl \<Rightarrow> (Some cl, sleep 120 s)
      | Inl e \<Rightarrow> (None, (sleep 120 s)\<lparr>spawned := No_Refresh\<rparr>))"

definition github_refresh_turn :: "'w flakehub_env \<Rightarrow> http_client \<Rightarrow> 'w host \<Rightarrow> 'w host" where
  "github_refresh_turn env cl s =
     (case spawned s of
        Refresh_GitHub netrc_path jwt \<Rightarrow>
          (case rewrite_github_actions_token env cl netrc_path jwt s of
             (Ok new, t) \<Rightarrow>
               (case set_token env new (t\<lparr>spawned := Refresh_GitHub netrc_path new\<rparr>) of
                  (Ok _, u) \<Rightarrow> sleep 120 u
                | (_, u) \<Rightarrow> u\<lparr>spawned := No_Refresh\<rparr>)
           | (Err e, t) \<Rightarrow> sleep 10 t
           | (Panic p, t) \<Rightarrow> t\<lparr>spawned := No_Refresh\<rparr>)
      | _ \<Rightarrow> s)"

section \<open>Following the token of determinate-nixd\<close>

text \<open>
  One turn in two steps, between which determinate-nixd may replace the file: looking at the inode,
  and, when it has changed, reading the token. The second step remembers the inode of the first.
\<close>

definition determinate_look :: "bytes \<Rightarrow> 64 word \<Rightarrow> 'w host \<Rightarrow> 64 word option \<times> 'w host" where
  "determinate_look netrc_file known s =
     (case file_inode netrc_file s of
        (Ok current_inode, t) \<Rightarrow> (if current_inode = known then None else Some current_inode, t)
      | (_, t) \<Rightarrow> (None, t))"

definition determinate_update ::
  "'w flakehub_env \<Rightarrow> string \<Rightarrow> string \<Rightarrow> bytes \<Rightarrow> 64 word \<Rightarrow> 'w host \<Rightarrow> 'w host" where
  "determinate_update env api_server cache_server netrc_file current_inode s =
     (case extract_info_from_netrc env netrc_file api_server cache_server s of
        (Ok info, t) \<Rightarrow>
          (case set_token env (ni_password info) t of
             (Ok _, u) \<Rightarrow> u\<lparr>spawned := Refresh_Determinate netrc_file current_inode\<rparr>
           | (_, u) \<Rightarrow> u)
      | (_, t) \<Rightarrow> t)"

definition determinate_refresh_turn ::
  "'w flakehub_env \<Rightarrow> string \<Rightarrow> string \<Rightarrow> 'w host \<Rightarrow> 'w host" where
  "determinate_refresh_turn env api_server cache_server s =
     (case spawned s of
        Refresh_Determinate netrc_file known \<Rightarrow>
          (case determinate_look netrc_file known (sleep 3 s) of
             (None, t) \<Rightarrow> t
           | (Some i, t) \<Rightarrow> determinate_update env api_server cache_server netrc_file i t)
      | _ \<Rightarrow> s)"

end
