(* ===== verification/Hook.thy ===== *)
theory Hook
  imports ActionApi FlakeHub
begin

text \<open>
  The rest of \<open>magic-nix-cache/src/pbh.rs\<close>: the loop that keeps subscribing to determinate-nixd's
  build events, the post-build hook script that is set up where there is no determinate-nixd, and
  what the daemon's executable does when Nix runs it as that hook. Also \<open>github.rs\<close>, the message
  that is printed when FlakeHub cannot be used. \<open>host_env\<close> adds what these take from outside: the
  socket of determinate-nixd, running \<open>nix\<close>, temporary names, the listening socket, the clock, JSON.
\<close>

section \<open>Errors and environment\<close>

text \<open>An \<open>anyhow::Error\<close>: a message, an error of another type, or either with a context.\<close>

datatype cli_error =
    Anyhow string
  | From_Io io_error
  | From_Http string
  | From_Attic string
  | From_Server server_error
  | With_Context string cli_error

text \<open>The part of \<open>GITHUB_CONTEXT\<close> that is decoded.\<close>

record workflow_owner =
  login :: string
  kind :: string

record workflow_repo =
  owner :: workflow_owner

record workflow_event =
  repository :: workflow_repo

record workflow_data =
  event :: workflow_event

record 'w host_env = "'w flakehub_env" +
  json_workflow_data :: "string \<Rightarrow> string + workflow_data"
  json_enqueue_request :: "string list \<Rightarrow> string + string"
  json_enqueue_response :: "bytes \<Rightarrow> string + unit"
  status_text :: "status_code \<Rightarrow> string"
  temp_dir :: bytes
  temp_name :: "string \<Rightarrow> 'w \<Rightarrow> bytes \<times> 'w"
  current_exe :: "io_error + bytes"
  run_nix :: "string list \<Rightarrow> 'w \<Rightarrow> (io_error + bool \<times> bytes) \<times> 'w"
  dnixd_connect :: "bytes \<Rightarrow> 'w \<Rightarrow> bool \<times> 'w"
  dnixd_handshake :: "'w \<Rightarrow> bool \<times> 'w"
  events_request :: bool
  dnixd_subscribe :: "'w \<Rightarrow> (string + (string + bytes) list) \<times> 'w"
  tcp_bind :: "string \<Rightarrow> 'w \<Rightarrow> (io_error + string) \<times> 'w"
  store_connect :: "'w \<Rightarrow> (string + unit) \<times> 'w"
  clock :: "'w \<Rightarrow> system_time \<times> 'w"
  json_address :: "string \<Rightarrow> string"

definition with_context :: "string \<Rightarrow> ('e \<Rightarrow> cli_error) \<Rightarrow> ('s, 'e, 'a) comp \<Rightarrow> ('s, cli_error, 'a) comp" where
  "with_context msg wrap m = map_err_comp (\<lambda>e. With_Context msg (wrap e)) m"

section \<open>The message for an unauthenticated user\<close>

definition GITHUB_ACTOR_TYPE_USER :: string where
  "GITHUB_ACTOR_TYPE_USER = ''User''"

definition GITHUB_ACTOR_TYPE_ORGANIZATION :: string where
  "GITHUB_ACTOR_TYPE_ORGANIZATION = ''Organization''"

definition get_actions_event_data :: "'w host_env \<Rightarrow> workflow_data option" where
  "get_actions_event_data env =
     (case vars env ''GITHUB_CONTEXT'' of
        None \<Rightarrow> None
      | Some github_context \<Rightarrow>
          (case json_workflow_data env github_context of Inl e \<Rightarrow> None | Inr d \<Rightarrow> Some d))"

definition registration_required :: "string \<Rightarrow> string" where
  "registration_required rest = ''::error title=FlakeHub registration required.::'' @ rest"

definition unauthenticated_message :: "'w host_env \<Rightarrow> string" where
  "unauthenticated_message env =
     (let msg = registration_required (''Unable to authenticate to FlakeHub. Individuals must register at ''
            @ ''FlakeHub.com; Organizations must create an organization at FlakeHub.com.'')
      in case get_actions_event_data env of
           None \<Rightarrow> msg
         | Some d \<Rightarrow>
             (let who = owner (repository (event d))
              in if kind who = GITHUB_ACTOR_TYPE_USER
                 then registration_required
                        (''Please create an account for '' @ login who @ '' on FlakeHub.com to publish flakes.'')
                 else if kind who = GITHUB_ACTOR_TYPE_ORGANIZATION
                 then registration_required
                        (''Please create an organization for '' @ login who @ '' on FlakeHub.com to publish flakes.'')
                 else msg))"

definition print_unauthenticated_error :: "'w host_env \<Rightarrow> ('w host, 'e, unit) comp" where
  "print_unauthenticated_error env =
     modify (\<lambda>s. s\<lparr>stdout := stdout s @ [unauthenticated_message env]\<rparr>)"

section \<open>Subscribing to build events\<close>

text \<open>
  One turn of \<open>handle_events\<close>: connect, shake hands, subscribe, and handle the frames until the
  stream ends. The result says how many seconds the turn slept before the next one.
\<close>

definition events_turn ::
  "'w host_env \<Rightarrow> server_config \<Rightarrow> bytes \<Rightarrow> 'w server \<Rightarrow> nat \<times> 'w server" where
  "events_turn env cfg socket s =
     (case dnixd_connect env socket (ext s) of
        (False, w) \<Rightarrow> (10, s\<lparr>ext := w\<rparr>)
      | (True, w) \<Rightarrow>
     (case dnixd_handshake env w of
        (False, w1) \<Rightarrow> (0, s\<lparr>ext := w1\<rparr>)
      | (True, w1) \<Rightarrow>
          if \<not> events_request env then (0, s\<lparr>ext := w1\<rparr>)
          else
     (case dnixd_subscribe env w1 of
        (Inl e, w2) \<Rightarrow> (0, s\<lparr>ext := w2\<rparr>)
      | (Inr frames, w2) \<Rightarrow> (0, handle_stream (server_env.truncate env) cfg frames (s\<lparr>ext := w2\<rparr>)))))"

text \<open>The loop ends only by the shutdown token; \<open>n\<close> bounds the turns that are looked at.\<close>

fun handle_events ::
  "'w host_env \<Rightarrow> server_config \<Rightarrow> bytes \<Rightarrow> nat \<Rightarrow> 'w server \<Rightarrow> 'w server" where
  "handle_events env cfg socket 0 s = s"
| "handle_events env cfg socket (Suc n) s =
     (if shutdown_cancelled s then s
      else handle_events env cfg socket n (snd (events_turn env cfg socket s)))"

section \<open>The post-build hook\<close>

definition hook_script :: "bytes \<Rightarrow> string \<Rightarrow> string" where
  "hook_script exe listen =
     ''#! /bin/sh\<newline>RUST_LOG=trace RUST_BACKTRACE=full '' @ display exe @ '' --server '' @ listen @ '' || :\<newline>''"

text \<open>
  \<open>NamedTempFile\<close>: created for the user alone (mode 600, octal); when the handle is dropped before \<open>keep\<close>, the file
  goes with it, whatever became of it.
\<close>

definition create_temp :: "bytes \<Rightarrow> ('z disk_scheme, io_error, unit) comp" where
  "create_temp p =
     syscall (\<lambda>s. (Ok (), create_node p (s\<lparr>create_mode := 0x180\<rparr>) \<lparr>create_mode := create_mode s\<rparr>))"

definition drop_temp :: "bytes \<Rightarrow> 'e \<Rightarrow> 'z disk_scheme \<Rightarrow> 'z disk_scheme" where
  "drop_temp p e s = s\<lparr>files := (files s)(p := None)\<rparr>"

definition write_hook ::
  "'w host_env \<Rightarrow> string \<Rightarrow> ('w host, cli_error, bytes) comp" where
  "write_hook env listen s0 =
     (case temp_name env ''magic-nix-cache-build-hook-'' (world s0) of (path, w) \<Rightarrow>
      and_then (with_context ''Creating a temporary file for the post-build hook'' From_Io (create_temp path))
        (\<lambda>_. and_then (inspect_err (drop_temp path)
               (and_then (with_context ''Getting the path of magic-nix-cache'' From_Io
                            (lift_result (result_of_sum (current_exe env))))
                  (\<lambda>exe. with_context ''Writing the post-build hook'' From_Io
                            (write_all path (hook_script exe listen)))))
        (\<lambda>_. and_then (with_context ''Setting permissions on the post-build hook'' From_Io
                          (set_mode path 0x1ED))
        (\<lambda>_. return_ok path))) (s0\<lparr>world := w\<rparr>))"

text \<open>The script goes to the Nix store if \<open>nix\<close> can put it there, and stays where it is otherwise.\<close>

definition add_hook_to_store :: "'w host_env \<Rightarrow> bytes \<Rightarrow> ('w host, cli_error, bytes) comp" where
  "add_hook_to_store env path =
     and_then (with_context (''Running nix to add the post-build-hook to the store from '' @ display path) From_Io
                 (on_world (run_nix env [''--extra-experimental-features'', ''nix-command'', ''store'',
                                         ''add-path'', display path])))
       (\<lambda>(success, out). if success
          then and_then (with_context (''Cleaning up the temporary post-build-hook at '' @ display path) From_Io
                           (remove_file path))
                 (\<lambda>_. return_ok (trim (display out)))
          else return_ok path)"

definition hook_conf_line :: "bytes \<Rightarrow> string" where
  "hook_conf_line script = ''post-build-hook = '' @ display script @ ''\<newline>''"

definition setup_legacy_post_build_hook ::
  "'w host_env \<Rightarrow> string \<Rightarrow> bytes \<Rightarrow> ('w host, cli_error, unit) comp" where
  "setup_legacy_post_build_hook env listen nix_conf =
     and_then (write_hook env listen)
       (\<lambda>path. and_then (add_hook_to_store env path)
       (\<lambda>script. with_context ''Writing to nix.conf'' From_Io
                   (write_all nix_conf (hook_conf_line script))))"

section \<open>Running as the hook\<close>

definition hook_paths :: "string \<Rightarrow> string list" where
  "hook_paths out_paths = map trim (split_whitespace out_paths)"

definition hook_request :: "string \<Rightarrow> string \<Rightarrow> http_request" where
  "hook_request server body =
     \<lparr>rq_method = POST, rq_url = ''http://'' @ server @ ''/api/enqueue-paths'', rq_query = [],
      rq_headers = [(''Content-Type'', ''application/json'')], rq_body = Octets body\<rparr>"

definition hook_response ::
  "'w host_env \<Rightarrow> string + http_response \<Rightarrow> (cli_error, unit) result" where
  "hook_response env response =
     (case response of
        Inl e \<Rightarrow> Err (With_Context ''magic-nix-cache server failed to send the enqueue request'' (From_Http e))
      | Inr res \<Rightarrow>
          if \<not> is_success (rs_status res) then
            Err (Anyhow (''magic-nix-cache server failed to enqueue the push request: ''
                   @ status_text env (rs_status res) @ ''\<newline>''
                   @ (case rs_body res of Inr b \<Rightarrow> response_text env b | Inl e \<Rightarrow> ''<no response text>'')))
          else
            (let invalid = (\<lambda>e. With_Context ''magic-nix-cache-server didn't return a valid response'' (From_Http e))
             in case rs_body res of
                  Inl e \<Rightarrow> Err (invalid e)
                | Inr b \<Rightarrow>
                    (case json_enqueue_response env b of Inl e \<Rightarrow> Err (invalid e) | Inr _ \<Rightarrow> Ok ())))"

definition handle_legacy_post_build_hook ::
  "'w host_env \<Rightarrow> string \<Rightarrow> string \<Rightarrow> ('w host, cli_error, unit) comp" where
  "handle_legacy_post_build_hook env server out_paths =
     and_then (with_context ''Decoding the response from the magic-nix-cache server'' Anyhow
                 (lift_result (result_of_sum (json_enqueue_request env (hook_paths out_paths)))))
       (\<lambda>body s. case http_send env plain_client (hook_request server body) (world s) of
          (response, w) \<Rightarrow> (hook_response env response, s\<lparr>world := w\<rparr>))"

section \<open>Lemmas\<close>

lemma hook_paths_join:
  "\<forall>p \<in> set ps. p \<noteq> [] \<and> no_white p \<Longrightarrow> hook_paths (join '' '' ps) = ps"
  by (simp add: hook_paths_def split_whitespace_join trim_no_white map_idI)

lemma handle_stream_append:
  "handle_stream env cfg (map Inr frames @ rest) s
     = handle_stream env cfg rest (fold (handle_frame env cfg) frames s)"
  by (induction frames arbitrary: s) auto

text \<open>Only data frames that decode as build events do anything.\<close>

definition build_frame :: "'w server_env \<Rightarrow> bytes \<Rightarrow> bool" where
  "build_frame env frame \<longleftrightarrow>
     (case strip_prefix data_prefix frame of
        None \<Rightarrow> False
      | Some body \<Rightarrow> (case json_built_path env body of Inl e \<Rightarrow> False | Inr _ \<Rightarrow> True))"

lemma handle_frame_other: "\<not> build_frame env frame \<Longrightarrow> handle_frame env cfg frame s = s"
  by (auto simp: build_frame_def handle_frame_def split: option.splits sum.splits)

lemma handle_stream_filter:
  "handle_stream env cfg (map Inr frames) s
     = handle_stream env cfg (map Inr (filter (build_frame env) frames)) s"
  by (induction frames arbitrary: s) (auto simp: handle_frame_other)

end
