(* ===== verification/MainCli.thy ===== *)
theory MainCli
  imports Hook ServerRun
begin

text \<open>
  \<open>magic-nix-cache/src/main.rs\<close>: \<open>main_cli\<close> from the first log file to the last report, and \<open>main\<close>.
  Startup runs on a \<open>host\<close> and yields what the server is started with; serving is a parameter (axum),
  a function from the server's first state to its last, of which the theorems assume at most that it
  takes steps of \<open>ServerRun\<close>. The facts given to the recorder, which the server's telemetry report
  shares, are part of the host.
\<close>

section \<open>Arguments and logging\<close>

record cli_args = args +
  opt_listen :: string
  opt_cache_version :: "string option"
  opt_upstream :: "string option"
  opt_flakehub_api_server :: string
  opt_flakehub_cache_server :: string
  opt_flakehub_flake_name :: "string option"
  opt_nix_conf :: bytes
  opt_startup_notification_url :: "string option"
  opt_startup_notification_file :: "bytes option"
  opt_diff_store :: bool

definition DETERMINATE_NIXD_SOCKET_NAME :: string where
  "DETERMINATE_NIXD_SOCKET_NAME = ''determinate-nixd.socket''"

definition debug_logfile :: "'w host_env \<Rightarrow> bytes" where
  "debug_logfile env = path_join (temp_dir env) ''magic-nix-cache-tracing.log''"

text \<open>
  The default of \<open>--nix-conf\<close>, from the XDG configuration directory: there is none without a home
  directory, and the error is a panic of the \<open>expect\<close>.
\<close>

definition default_nix_conf :: "string + bytes \<Rightarrow> ('e, bytes) result" where
  "default_nix_conf config_home =
     (case config_home of
        Inl e \<Rightarrow> Panic ''Could not identify your home directory. Try setting the HOME environment variable.''
      | Inr dir \<Rightarrow> Ok (path_join dir ''nix/nix.conf''))"

text \<open>The first of the three variables that is set decides.\<close>

definition debug_requested :: "env_vars \<Rightarrow> bool" where
  "debug_requested vs =
     (case (case vs ''RUNNER_DEBUG'' of
              Some v \<Rightarrow> Some v
            | None \<Rightarrow> (case vs ''ACTIONS_STEP_DEBUG'' of
                         Some v \<Rightarrow> Some v
                       | None \<Rightarrow> vs ''ACTIONS_RUNNER_DEBUG'')) of
        Some v \<Rightarrow> v = ''1'' \<or> v = ''true''
      | None \<Rightarrow> False)"

definition init_logging :: "'w host_env \<Rightarrow> ('w host, cli_error, bytes option) comp" where
  "init_logging env =
     (if debug_requested (vars env)
      then and_then (map_err_comp From_Io (open_write True True (debug_logfile env)))
             (\<lambda>_. return_ok (Some (debug_logfile env)))
      else return_ok None)"

definition set_fact :: "string \<Rightarrow> string \<Rightarrow> ('w host, 'e, unit) comp" where
  "set_fact name text = modify (\<lambda>s. s\<lparr>recorded := recorded s @ [(name, Fact_Text text)]\<rparr>)"

fun set_facts :: "facts \<Rightarrow> ('w host, 'e, unit) comp" where
  "set_facts [] = return_ok ()"
| "set_facts ((name, text) # fs) = and_then (set_fact name text) (\<lambda>_. set_facts fs)"

text \<open>The \<open>Debug\<close> texts that go into facts.\<close>

fun trinary_debug :: "cache_trinary \<Rightarrow> string" where
  "trinary_debug NoPreference = ''NoPreference''"
| "trinary_debug Enabled = ''Enabled''"
| "trinary_debug Disabled = ''Disabled''"

fun dnixd_debug :: "dnixd \<Rightarrow> string" where
  "dnixd_debug Available = ''Available''"
| "dnixd_debug Missing = ''Missing''"

fun auth_debug :: "'w host_env \<Rightarrow> flakehub_auth_source option \<Rightarrow> string" where
  "auth_debug env None = ''None''"
| "auth_debug env (Some DeterminateNixd) = ''Some(DeterminateNixd)''"
| "auth_debug env (Some (Netrc_File p)) = ''Some(Netrc('' @ debug_path env p @ ''))''"

section \<open>nix.conf\<close>

definition append_conf :: "string \<Rightarrow> bytes \<Rightarrow> string \<Rightarrow> ('w host, cli_error, unit) comp" where
  "append_conf msg nix_conf line = with_context msg From_Io (write_all nix_conf line)"

definition open_nix_conf :: "bytes \<Rightarrow> ('w host, cli_error, unit) comp" where
  "open_nix_conf nix_conf =
     and_then (if has_parent nix_conf
               then and_then (with_context ''Creating parent directories of nix.conf'' From_Io
                                (create_dir_all nix_conf))
                      (\<lambda>_. set_fact ''nix_conf_path'' (display nix_conf))
               else return_ok ())
       (\<lambda>_. and_then (with_context ''Creating nix.conf'' From_Io (open_write True False nix_conf))
       (\<lambda>_. append_conf ''Setting fallback in nix.conf'' nix_conf fallback_line))"

section \<open>The caches\<close>

text \<open>Whether the user's netrc exists is looked up in one arm of the \<open>match\<close> only.\<close>

definition choose_auth ::
  "'w host_env \<Rightarrow> cli_args \<Rightarrow> dnixd \<Rightarrow> ('w host, cli_error, flakehub_auth_source option) comp" where
  "choose_auth env a dn =
     (let pref = flakehub_preference (args.truncate a); user = flakehub_api_server_netrc a in
      and_then
        (case user of
           Some path \<Rightarrow> if pref \<noteq> Disabled \<and> dn = Missing then path_exists path else return_ok False
         | None \<Rightarrow> return_ok False)
        (\<lambda>there. case flakehub_auth_method (\<lambda>_. there) pref user dn of
           (fs, r) \<Rightarrow> and_then (set_facts fs) (\<lambda>_. lift_result (map_err Anyhow r))))"

text \<open>A FlakeHub cache that cannot be set up is reported and done without.\<close>

definition setup_flakehub ::
  "'w host_env \<Rightarrow> cli_args \<Rightarrow> environment \<Rightarrow> flakehub_auth_source option \<Rightarrow> ('w host, cli_error, bool) comp" where
  "setup_flakehub env a environment auth s =
     (case auth of
        None \<Rightarrow> (Ok False, s)
      | Some auth_method \<Rightarrow>
          (case init_cache (flakehub_env.truncate env) environment (opt_flakehub_api_server a)
                  (opt_flakehub_cache_server a) (opt_flakehub_flake_name a) auth_method s of
             (Ok _, t) \<Rightarrow>
               (case auth_method of
                  Netrc_File path \<Rightarrow>
                    and_then (append_conf ''Writing to nix.conf'' (opt_nix_conf a)
                                (flakehub_conf_lines (opt_flakehub_cache_server a) auth_method))
                      (\<lambda>_. return_ok True) t
                | DeterminateNixd \<Rightarrow> (Ok True, t))
           | (Err e, t) \<Rightarrow> and_then (print_unauthenticated_error env) (\<lambda>_. return_ok False) t
           | (Panic p, t) \<Rightarrow> (Panic p, t)))"

text \<open>The client of \<open>GhaCache::new\<close>; the rest of what it sets up is the server's first state.\<close>

definition gha_client ::
  "'w host_env \<Rightarrow> credentials \<Rightarrow> string option \<Rightarrow> (gha_error, telemetry_report api) result" where
  "gha_client env c cv =
     (case api_new (gha_env.truncate env) c mark_tripped of
        Ok a \<Rightarrow> Ok (case cv of Some v \<Rightarrow> mutate_version (gha_env.truncate env) v a | None \<Rightarrow> a)
      | r \<Rightarrow> r)"

definition setup_gha ::
  "'w host_env \<Rightarrow> cli_args \<Rightarrow> string \<Rightarrow> bool \<Rightarrow> ('w host, cli_error, telemetry_report api option) comp" where
  "setup_gha env a addr flakehub =
     (if uses_gha_cache (args.truncate a) flakehub then
        and_then (lift_result (case load_from_env (vars env) of
                     Some c \<Rightarrow> Ok c
                   | None \<Rightarrow> Err (Anyhow ''Failed to load credentials from environment (see README.md)'')))
          (\<lambda>c. and_then (with_context ''Failed to initialize GitHub Actions Cache API'' (From_Server \<circ> Api)
                           (lift_result (gha_client env c (opt_cache_version a))))
          (\<lambda>client. and_then (append_conf ''Writing to nix.conf'' (opt_nix_conf a) (gha_conf_line addr))
          (\<lambda>_. return_ok (Some client))))
      else return_ok None)"

section \<open>Notifications\<close>

definition notify_url :: "'w host_env \<Rightarrow> string \<Rightarrow> string option \<Rightarrow> ('w host, cli_error, unit) comp" where
  "notify_url env blob target s =
     (case target of
        None \<Rightarrow> (Ok (), s)
      | Some u \<Rightarrow>
          (case http_send env plain_client
                  \<lparr>rq_method = POST, rq_url = u, rq_query = [],
                   rq_headers = [(''Content-Type'', ''application/json'')], rq_body = Octets blob\<rparr> (world s) of
             (Inl e, w) \<Rightarrow> (Err (With_Context ''Startup notification failed'' (From_Http e)), s\<lparr>world := w\<rparr>)
           | (Inr res, w) \<Rightarrow>
               (if is_success (rs_status res) then Ok ()
                else Err (Anyhow (''Startup notification returned an error: ''
                       @ status_text env (rs_status res) @ ''\<newline>''
                       @ (case rs_body res of Inr b \<Rightarrow> response_text env b | Inl e \<Rightarrow> ''<no response text>''))),
                s\<lparr>world := w\<rparr>)))"

definition notify_file :: "string \<Rightarrow> bytes option \<Rightarrow> ('w host, cli_error, unit) comp" where
  "notify_file blob target =
     (case target of
        None \<Rightarrow> return_ok ()
      | Some path \<Rightarrow>
          and_then (if has_parent path
                    then with_context (''failed to create parent directory for startup notification file path: ''
                           @ display path) From_Io (create_dir_all path)
                    else return_ok ())
            (\<lambda>_. and_then (with_context (''failed to create startup notification file to path: '' @ display path)
                     From_Io (open_write True True path))
            (\<lambda>_. with_context (''failed to write startup notification file to path: '' @ display path)
                     From_Io (buffered_write path blob))))"

section \<open>main_cli\<close>

text \<open>What the server is started with.\<close>

record launched =
  l_config :: server_config
  l_flakehub :: bool
  l_dnixd :: dnixd
  l_address :: string
  l_started :: system_time

definition dnixd_socket :: bytes where
  "dnixd_socket = path_join DETERMINATE_STATE_DIR DETERMINATE_NIXD_SOCKET_NAME"

definition read_clock :: "'w host_env \<Rightarrow> ('w host, 'e, system_time) comp" where
  "read_clock env s = (case clock env (world s) of (t, w) \<Rightarrow> (Ok t, s\<lparr>world := w\<rparr>))"

text \<open>Up to the connection to the store: the socket, the clock of the report, nix.conf.\<close>

definition startup_prepare ::
  "'w host_env \<Rightarrow> cli_args \<Rightarrow> environment \<Rightarrow> ('w host, cli_error, string \<times> system_time \<times> dnixd) comp" where
  "startup_prepare env a environment =
     and_then (set_fact ''environment'' (environment_text environment))
       (\<lambda>_. and_then (lift_result (map_err From_Server (validate (args.truncate a) environment)))
       (\<lambda>_. and_then (map_err_comp From_Io (on_world (tcp_bind env (opt_listen a))))
       (\<lambda>addr. and_then (read_clock env)
       (\<lambda>now. and_then (path_exists dnixd_socket)
       (\<lambda>there. and_then (open_nix_conf (opt_nix_conf a))
       (\<lambda>_. and_then (map_err_comp From_Attic (on_world (store_connect env)))
       (\<lambda>_. return_ok (addr, now, dnixd_from there))))))))"

definition startup_caches ::
  "'w host_env \<Rightarrow> cli_args \<Rightarrow> environment \<Rightarrow> string \<Rightarrow> dnixd
     \<Rightarrow> ('w host, cli_error, bool \<times> telemetry_report api option) comp" where
  "startup_caches env a environment addr dn =
     and_then (set_fact ''flakehub_cache_option'' (trinary_debug (flakehub_preference (args.truncate a))))
       (\<lambda>_. and_then (set_fact ''dnixd_availability'' (dnixd_debug dn))
       (\<lambda>_. and_then (choose_auth env a dn)
       (\<lambda>auth. and_then (set_fact ''flakehub_auth_method'' (auth_debug env auth))
       (\<lambda>_. and_then (setup_flakehub env a environment auth)
       (\<lambda>flakehub. and_then (set_fact ''github_action_cache_option''
                               (trinary_debug (github_cache_preference (args.truncate a))))
       (\<lambda>_. and_then (setup_gha env a addr flakehub)
       (\<lambda>client. return_ok (flakehub, client))))))))"

definition startup_announce ::
  "'w host_env \<Rightarrow> cli_args \<Rightarrow> string \<Rightarrow> dnixd \<Rightarrow> ('w host, cli_error, unit) comp" where
  "startup_announce env a addr dn =
     and_then (if dn = Available then return_ok ()
               else setup_legacy_post_build_hook env addr (opt_nix_conf a))
       (\<lambda>_. and_then (notify_url env (json_address env addr) (opt_startup_notification_url a))
       (\<lambda>_. notify_file (json_address env addr) (opt_startup_notification_file a)))"

definition main_startup :: "'w host_env \<Rightarrow> cli_args \<Rightarrow> ('w host, cli_error, launched) comp" where
  "main_startup env a =
     (let environment = determine (vars env) in
      and_then (init_logging env)
        (\<lambda>log. and_then (startup_prepare env a environment)
        (\<lambda>(addr, now, dn). and_then (startup_caches env a environment addr dn)
        (\<lambda>(flakehub, client). and_then (startup_announce env a addr dn)
        (\<lambda>_. return_ok \<lparr>l_config = \<lparr>gha_api = client, upstream = opt_upstream a,
                                    diff_store = opt_diff_store a, logfile = log\<rparr>,
                        l_flakehub = flakehub, l_dnixd = dn, l_address = addr, l_started = now\<rparr>)))))"

text \<open>The server's first state, from the host as startup leaves it.\<close>

definition first_state :: "'w host_env \<Rightarrow> launched \<Rightarrow> 'w host \<Rightarrow> 'w server" where
  "first_state env l s =
     startup (server_env.truncate env) (l_config l) (recorded s) (l_started l) (l_flakehub l) (world s)"

text \<open>
  \<open>main_cli\<close>. \<open>run_server\<close> gives the outcome of \<open>axum::serve\<close> with the
  routers of a configuration, and the state it leaves. The report is sent
  after serving has ended, well or not; a startup that fails sends none.
\<close>

definition main_cli ::
  "'w host_env \<Rightarrow> cli_args \<Rightarrow> (server_config \<Rightarrow> 'w server \<Rightarrow> (io_error + unit) \<times> 'w server) \<Rightarrow> 'w host
     \<Rightarrow> (cli_error, unit) result \<times> telemetry_report option \<times> 'w host" where
  "main_cli env a run_server s =
     (case main_startup env a s of
        (Ok l, t) \<Rightarrow>
          (case run_server (l_config l) (first_state env l t) of (ret, u) \<Rightarrow>
           case clock env (ext u) of (now, w) \<Rightarrow>
             (map_err From_Io (result_of_sum ret), Some (send_report now (cb_state u)), t\<lparr>world := w\<rparr>))
      | (Err e, t) \<Rightarrow> (Err e, None, t)
      | (Panic p, t) \<Rightarrow> (Panic p, None, t))"

text \<open>\<open>main\<close>: as a post-build hook when Nix says so, with the server address of its own arguments.\<close>

definition main ::
  "'w host_env \<Rightarrow> cli_args \<Rightarrow> string \<Rightarrow> (server_config \<Rightarrow> 'w server \<Rightarrow> (io_error + unit) \<times> 'w server) \<Rightarrow> 'w host
     \<Rightarrow> (cli_error, unit) result \<times> telemetry_report option \<times> 'w host" where
  "main env a hook_server run_server s =
     (case vars env ''OUT_PATHS'' of
        Some out_paths \<Rightarrow>
          (case handle_legacy_post_build_hook env hook_server out_paths s of (r, t) \<Rightarrow> (r, None, t))
      | None \<Rightarrow> main_cli env a run_server s)"

end
