(* ===== verification/NetrcFacts.thy ===== *)
theory NetrcFacts
  imports FlakeHub
begin

text \<open>
  What the FlakeHub operations leave alone, and the netrc file: its credentials, the entry that is
  appended once, and the rewriting of its token.
\<close>

section \<open>Frames\<close>

text \<open>A disk operation leaves everything of a host but its disk alone; \<open>quiet\<close> allows the world too.\<close>

definition disk_only :: "'z disk_scheme \<Rightarrow> 'z disk_scheme \<Rightarrow> bool" where
  "disk_only s t \<longleftrightarrow> disk.more t = disk.more s"

definition quiet :: "'w host \<Rightarrow> 'w host \<Rightarrow> bool" where
  "quiet s t \<longleftrightarrow> recorded t = recorded s \<and> stdout t = stdout s \<and> sleeps t = sleeps s
     \<and> spawned t = spawned s \<and> api_token t = api_token s"

interpretation dsk: evolution disk_only
  by unfold_locales (auto simp: disk_only_def)

interpretation qu: evolution quiet
  by unfold_locales (auto simp: quiet_def)

lemma disk_only_quiet: "disk_only s t \<Longrightarrow> quiet s t \<and> world t = world s"
  unfolding disk_only_def quiet_def by (cases s; cases t) simp

lemma keeps_quiet: "keeps disk_only m \<Longrightarrow> keeps quiet m"
  by (simp add: keeps_def disk_only_quiet)

lemma keeps_syscall:
  assumes "\<And>s. disk_only s (snd (m s))"
  shows "keeps disk_only (syscall m)"
proof (rule keepsI)
  fix s
  obtain r t where "syscall m s = (r, t)" by fastforce
  then have "disk_only s t"
  proof (cases rule: syscall_cases)
    case (works fs)
    with assms [of "s\<lparr>faults := fs\<rparr>"] show ?thesis by (simp add: disk_only_def)
  qed (simp add: disk_only_def)
  then show "disk_only s (snd (syscall m s))" using \<open>syscall m s = (r, t)\<close> by simp
qed

lemma disk_calls:
  "keeps disk_only (open_read p)" "keeps disk_only (open_write cr tr p)"
  "keeps disk_only (read_string p)" "keeps disk_only (rename_file p q)"
  "keeps disk_only (file_inode p)" "keeps disk_only (set_mode p md)"
  "keeps disk_only (remove_file p)" "keeps disk_only (create_dir_all p)"
  unfolding call_defs
  by (rule keeps_syscall; simp add: disk_only_def create_node_def split: option.split)+

lemma disk_writes: "keeps disk_only (write_all p d)"
  by (rule keepsI) (simp add: write_all_def append_bytes_def disk_only_def split: list.split option.split fault.split)

lemma disk_buffered: "keeps disk_only (buffered_write p d)"
  by (rule keepsI) (simp add: buffered_write_def keeps_snd [OF disk_writes])

lemma disk_composed: "keeps disk_only (read_to_string p)" "keeps disk_only (write_file p d)"
  unfolding read_to_string_def write_file_def by (intro dsk.and_then disk_calls disk_writes)+

lemmas disk_frames = disk_calls disk_writes disk_buffered disk_composed
lemmas quiet_frames = disk_frames [THEN keeps_quiet]

lemma on_world_quiet: "keeps quiet (on_world f)"
  by (rule keepsI) (simp add: on_world_def quiet_def split: prod.split)

lemma on_world_disk: "on_world f s = (r, t) \<Longrightarrow> files t = files s \<and> faults t = faults s"
  by (auto simp: on_world_def split: prod.splits)

lemma on_world_no_panic: "on_world f s \<noteq> (Panic p, t)"
  by (simp add: on_world_def split: prod.split)

lemma map_err_sym [simp]:
  "Ok a = map_err f r \<longleftrightarrow> r = Ok a" "Err e = map_err f r \<longleftrightarrow> (\<exists>e'. r = Err e' \<and> e = f e')"
  "Panic p = map_err f r \<longleftrightarrow> r = Panic p"
  by (cases r; auto)+

lemma map_err_comp_cases:
  assumes "map_err_comp g m s = (r, t)"
  obtains r' where "m s = (r', t)" and "r = map_err g r'"
  using assms by (auto simp: map_err_comp_def split: prod.splits)

lemma map_err_comp_no_panic: "m s \<noteq> (Panic p, t) \<Longrightarrow> map_err_comp g m s \<noteq> (Panic p, t)"
  by (auto elim!: map_err_comp_cases)

lemma map_err_comp_OkD: "map_err_comp g m s = (Ok x, t) \<Longrightarrow> m s = (Ok x, t)"
  by (auto elim!: map_err_comp_cases)

section \<open>Reading credentials\<close>

lemma extract_OkD:
  assumes "extract_info_from_netrc env p a c s = (Ok info, t)"
  shows "disk_only s t" "contents t = contents s"
    "\<exists>text. contents s p = Some text \<and> utf8_valid text \<and> netrc_info_of env a c text = Ok info"
proof -
  have "keeps disk_only (extract_info_from_netrc env p a c)"
    unfolding extract_info_from_netrc_def
    by (intro dsk.and_then dsk.map_err_comp dsk.lift_result disk_frames)
  from keepsD [OF this assms] show "disk_only s t" .
  from assms obtain u v c0 where o: "open_read p s = (Ok u, v)" and r: "read_string p v = (Ok c0, t)"
    and i: "netrc_info_of env a c c0 = Ok info"
    by (auto simp: extract_info_from_netrc_def dest!: and_then_OkD map_err_comp_OkD)
  from reading_keeps_contents(1) [OF o] reading_keeps_contents(2) [OF r] show "contents t = contents s"
    by simp
  from read_string_OkD [OF r] reading_keeps_contents(1) [OF o] i
  show "\<exists>text. contents s p = Some text \<and> utf8_valid text \<and> netrc_info_of env a c text = Ok info" by auto
qed

lemma extract_keeps_contents:
  "extract_info_from_netrc env p a c s = (r, t) \<Longrightarrow> contents t = contents s"
  by (auto simp: extract_info_from_netrc_def elim!: and_then_cases map_err_comp_cases
      dest!: reading_keeps_contents)

lemma extract_disk_only: "keeps disk_only (extract_info_from_netrc env p a c)"
  unfolding extract_info_from_netrc_def
  by (intro dsk.and_then dsk.map_err_comp dsk.lift_result disk_frames)

lemma netrc_info_OkD:
  assumes "netrc_info_of env a c text = Ok info"
  obtains m where "netrc_parse env text = Inr (ni_machines info)"
    and "find_machine (url_host env a) (ni_machines info) = Some m"
    and "m_login m = Some (ni_login info)" and "m_password m = Some (ni_password info)"
    and "url_host env c = Some (ni_cache_host info)"
  using assms by (auto simp: netrc_info_of_def split: sum.splits option.splits)

lemma netrc_infoI:
  assumes "netrc_parse env text = Inr ms" and "find_machine (url_host env a) ms = Some m"
    and "m_login m = Some l" and "m_password m = Some p" and "url_host env c = Some h"
  shows "netrc_info_of env a c text = Ok \<lparr>ni_machines = ms, ni_cache_host = h, ni_login = l, ni_password = p\<rparr>"
  using assms by (simp add: netrc_info_of_def)

text \<open>With an undisturbed disk, extraction reads the file as it is.\<close>

lemma extract_free:
  assumes "faults s = []" and "contents s p = Some text" and "utf8_valid text"
  shows "extract_info_from_netrc env p a c s = (netrc_info_of env a c text, s)"
proof -
  from assms(2) have "files s p \<noteq> None" by (auto simp: contents_def)
  with assms have "open_read p s = (Ok (), s)" and "read_string p s = (Ok text, s)"
    by (simp_all add: open_read_def read_string_def)
  then show ?thesis
    by (cases "netrc_info_of env a c text") (simp_all add: extract_info_from_netrc_def map_err_comp_def and_then_def)
qed

section \<open>The appended entry\<close>

lemma buffered_write_appends:
  assumes "buffered_write p d s = (r, t)"
  obtains d' where "contents t = (contents s)(p := map_option (\<lambda>c. c @ d') (contents s p))"
    and "faults s = [] \<Longrightarrow> d' = d"
proof -
  let ?upd = "\<lambda>d'. (contents s)(p := map_option (\<lambda>c. c @ d') (contents s p))"
  obtain r' where w: "write_all p d s = (r', t)"
    using assms unfolding buffered_write_def by (metis prod.collapse snd_conv)
  then have "contents t q = contents s q" if "q \<noteq> p" for q using write_all_frame that by blast
  moreover define d' where "d' = (case faults s of Some (Refused e) # fs \<Rightarrow> [] | Some (Cut e n) # fs \<Rightarrow> take n d | _ \<Rightarrow> d)"
  from w have "contents t p = map_option (\<lambda>c. c @ d') (contents s p)"
    by (auto simp: d'_def write_all_def contents_def append_bytes_def option.map_comp option.map_ident comp_def
        split: list.splits option.splits fault.splits)
  ultimately have "contents t = ?upd d'" by (simp add: fun_eq_iff)
  then show ?thesis by (rule that) (simp add: d'_def)
qed

lemma append_cache_entry_OkD:
  assumes "append_cache_entry (Netrc_File p) info s = (Ok u, t)"
  obtains d where "contents t = (if \<exists>m \<in> set (ni_machines info). m_name m = Some (ni_cache_host info) then contents s
           else (contents s)(p := map_option (\<lambda>c. c @ d) (contents s p)))"
    and "faults s = [] \<Longrightarrow> d = netrc_entry info"
proof (cases "\<exists>m \<in> set (ni_machines info). m_name m = Some (ni_cache_host info)")
  case False
  with assms obtain v w where o: "open_write False False p s = (Ok v, w)"
    and a: "buffered_write p (netrc_entry info) w = (Ok u, t)"
    by (auto simp: append_cache_entry_def dest!: and_then_OkD map_err_comp_OkD)
  from o have "contents w = contents s" and "faults s = [] \<Longrightarrow> faults w = []"
    by (auto simp: open_write_def elim!: syscall_cases split: option.splits)
  with False show ?thesis by (rule_tac buffered_write_appends [OF a]) (auto intro: that)
qed (use assms that [of "netrc_entry info"] in \<open>simp add: append_cache_entry_def\<close>)

text \<open>When the disk refuses the write, the entry is missing and nobody knows.\<close>

lemma failed_append_goes_unnoticed:
  assumes "\<nexists>m. m \<in> set (ni_machines info) \<and> m_name m = Some (ni_cache_host info)"
    and "files s p = Some node" and "faults s = [None, Some (Refused e)]"
  shows "\<exists>t. append_cache_entry (Netrc_File p) info s = (Ok (), t) \<and> contents t = contents s"
  using assms
  by (auto simp: append_cache_entry_def open_write_def syscall_def buffered_write_def write_all_def
      map_err_comp_def contents_def fun_eq_iff)

text \<open>
  What is relied on of the netrc format: a file is read as words, and a new line with the words
  \<open>machine\<close> h \<open>login\<close> l \<open>password\<close> p at its end is one more machine.
\<close>

definition reads_machines :: "'w flakehub_env \<Rightarrow> string \<Rightarrow> bool" where
  "reads_machines env txt \<longleftrightarrow>
     (\<forall>ms ln h l p. netrc_parse env txt = Inr ms \<longrightarrow>
        split_whitespace ln = [''machine'', h, ''login'', l, ''password'', p] \<longrightarrow>
        netrc_parse env (txt @ CHR ''\<newline>'' # ln)
          = Inr (ms @ [\<lparr>m_name = Some h, m_login = Some l, m_password = Some p\<rparr>]))"

text \<open>The credentials that can be written as words.\<close>

definition plain_credentials :: "netrc_info \<Rightarrow> bool" where
  "plain_credentials info \<longleftrightarrow>
     (\<forall>w \<in> {ni_cache_host info, ni_login info, ni_password info}. w \<noteq> [] \<and> no_white w)"

lemma entry_words:
  assumes "plain_credentials info"
  obtains ln where "netrc_entry info = CHR ''\<newline>'' # ln"
    and "split_whitespace ln =
      [''machine'', ni_cache_host info, ''login'', ni_login info, ''password'', ni_password info]"
proof -
  let ?ws = "[''machine'', ni_cache_host info, ''login'', ni_login info, ''password'', ni_password info]"
  let ?ln = "join '' '' ?ws @ CHR ''\<newline>'' # ''\<newline>''"
  have "no_white ''machine''" "no_white ''login''" "no_white ''password''" by (simp_all add: no_white_def)
  with assms have "\<forall>w \<in> set ?ws. w \<noteq> [] \<and> no_white w" by (simp add: plain_credentials_def)
  moreover have "split_whitespace ''\<newline>'' = []"
    by (simp add: split_whitespace_def split_ws_newline split_ws_end flush_word_def)
  ultimately have "split_whitespace ?ln = ?ws"
    using split_whitespace_line [of ?ws "''\<newline>''"] by simp
  moreover have "netrc_entry info = CHR ''\<newline>'' # ?ln" by (simp add: netrc_entry_def)
  ultimately show thesis by (rule that [rotated])
qed

lemma entry_is_read:
  assumes "netrc_parse env txt = Inr (ni_machines info)" and "reads_machines env txt" and "plain_credentials info"
  shows "netrc_parse env (txt @ netrc_entry info) =
    Inr (ni_machines info @ [\<lparr>m_name = Some (ni_cache_host info), m_login = Some (ni_login info),
                              m_password = Some (ni_password info)\<rparr>])"
  using assms(1,2) by (rule_tac entry_words [OF assms(3)]) (simp add: reads_machines_def)

lemma find_machine_append: "find_machine n ms = Some m \<Longrightarrow> find_machine n (ms @ ms') = Some m"
  by (induction ms) (auto simp: find_machine_def split: if_splits)

lemma find_machine_mem: "find_machine n ms = Some m \<Longrightarrow> m \<in> set ms"
  by (auto simp: find_machine_def find_Some_iff)

lemma info_after_entry:
  assumes "netrc_info_of env a c text = Ok info" and "reads_machines env text" and "plain_credentials info"
  shows "\<exists>info'. netrc_info_of env a c (text @ netrc_entry info) = Ok info'
    \<and> ni_login info' = ni_login info \<and> ni_password info' = ni_password info
    \<and> ni_cache_host info' = ni_cache_host info
    \<and> ni_machines info' = ni_machines info @ [\<lparr>m_name = Some (ni_cache_host info),
        m_login = Some (ni_login info), m_password = Some (ni_password info)\<rparr>]"
  using assms(1)
proof (rule netrc_info_OkD)
  fix m
  assume parsed: "netrc_parse env text = Inr (ni_machines info)"
    and m: "find_machine (url_host env a) (ni_machines info) = Some m"
    "m_login m = Some (ni_login info)" "m_password m = Some (ni_password info)"
    "url_host env c = Some (ni_cache_host info)"
  have "find_machine (url_host env a) (ni_machines info @ ms) = Some m" for ms
    using m(1) by (rule find_machine_append)
  from netrc_infoI [OF entry_is_read [OF parsed assms(2,3)] this m(2-)] show ?thesis by auto
qed

section \<open>Rewriting the token\<close>

lemma request_token_frame: "request_token env cl s = (r, t) \<Longrightarrow> quiet s t \<and> files t = files s"
proof -
  assume run: "request_token env cl s = (r, t)"
  have "keeps quiet (request_token env cl)"
    unfolding request_token_def Let_def http_request_of_def
    by (intro qu.and_then qu.map_err_comp qu.lift_result on_world_quiet)
  then have "quiet s t" using run by (rule keepsD)
  moreover have "files t = files s"
    using run unfolding request_token_def Let_def http_request_of_def
    by (auto elim!: and_then_cases map_err_comp_cases dest: on_world_disk)
  ultimately show ?thesis ..
qed

lemma request_token_no_panic: "request_token env cl s \<noteq> (Panic p, t)"
  unfolding request_token_def Let_def http_request_of_def
  by (intro and_then_no_panic map_err_comp_no_panic on_world_no_panic)
     (auto simp: env_var_def token_of_response_def split: option.split sum.split)

lemma replace_in_netrc_quiet: "keeps quiet (replace_in_netrc env p old new)"
  unfolding replace_in_netrc_def Let_def
  by (intro qu.and_then qu.map_err_comp quiet_frames)

lemma replace_in_netrc_no_panic: "replace_in_netrc env p old new s \<noteq> (Panic m, t)"
  unfolding replace_in_netrc_def Let_def
  by (intro and_then_no_panic map_err_comp_no_panic composed_no_panic calls_no_panic)

end
