(* ===== verification/TokenFacts.thy ===== *)
theory TokenFacts
  imports NetrcFacts
begin

text \<open>
  The token refresh loops of \<open>flakehub.rs\<close> as state machines. The GitHub task owns its netrc file;
  between its turns anything else of the host may change. The task that follows determinate-nixd
  takes two steps per turn, and determinate-nixd may put a new netrc in place at any moment.
\<close>

section \<open>Rewriting is atomic\<close>

interpretation netrc: file_store contents
    "\<lambda>p d. map_err_comp (g p) (write_file p d)" "\<lambda>p q. map_err_comp (h p q) (rename_file p q)"
  for g h
proof unfold_locales
  show "map_err_comp (g p) (write_file p d) s = (r, t) \<Longrightarrow> q \<noteq> p \<Longrightarrow> contents t q = contents s q"
    for p d r q and s t :: "'a disk_scheme"
    by (erule map_err_comp_cases) (rule write_file_frame)
  show "map_err_comp (h p q) (rename_file p q) s = (Err e, t) \<Longrightarrow> contents t = contents s"
    for p q e and s t :: "'a disk_scheme"
    by (elim map_err_comp_cases) (auto dest: rename_file_ErrD)
qed (auto dest!: map_err_comp_OkD dest: write_file_OkD rename_file_OkD
      simp: map_err_comp_no_panic calls_no_panic)

lemma rewrite_atomic:
  assumes run: "rewrite_github_actions_token env cl p old s = (r, t)"
    and tmp: "with_extension p ''tmp'' \<noteq> p"
  shows "(case r of
            Ok new \<Rightarrow> (\<exists>c. contents s p = Some c \<and> contents t p = Some (str_replace old new c))
              \<and> contents t (with_extension p ''tmp'') = None
          | Err e \<Rightarrow> contents t p = contents s p
          | Panic m \<Rightarrow> False)
    \<and> (\<forall>q. q \<noteq> p \<longrightarrow> q \<noteq> with_extension p ''tmp'' \<longrightarrow> contents t q = contents s q)"
    and "quiet s t"
proof -
  have frame: "quiet u v \<and> contents v = contents u" if "request_token env cl u = (r', v)" for u v r'
    using request_token_frame [OF that] by (simp add: contents_def fun_eq_iff)
  have "keeps quiet (rewrite_github_actions_token env cl p old)"
    unfolding rewrite_github_actions_token_def
    by (intro qu.and_then qu.return_ok replace_in_netrc_quiet keepsI) (metis frame prod.collapse)
  from keepsD [OF this run] show "quiet s t" .
  show "(case r of
            Ok new \<Rightarrow> (\<exists>c. contents s p = Some c \<and> contents t p = Some (str_replace old new c))
              \<and> contents t (with_extension p ''tmp'') = None
          | Err e \<Rightarrow> contents t p = contents s p
          | Panic m \<Rightarrow> False)
    \<and> (\<forall>q. q \<noteq> p \<longrightarrow> q \<noteq> with_extension p ''tmp'' \<longrightarrow> contents t q = contents s q)"
    using run unfolding rewrite_github_actions_token_def
  proof (cases rule: and_then_cases)
    case (cont new s1)
    from cont(2) have "\<exists>r'. replace_in_netrc env p old new s1 = (r', t) \<and> (is_ok r' \<longrightarrow> r = Ok new)
        \<and> (\<not> is_ok r' \<longrightarrow> (\<exists>e. r = Err e))"
      by (elim and_then_cases) (auto dest: replace_in_netrc_no_panic [THEN notE])
    then obtain r' where rep: "replace_in_netrc env p old new s1 = (r', t)"
      and r: "is_ok r' \<longrightarrow> r = Ok new" "\<not> is_ok r' \<longrightarrow> (\<exists>e. r = Err e)" by blast
    from rep have "(\<exists>c. contents s1 p = Some c \<and>
           contents t p = (if is_ok r' then Some (str_replace old new c) else contents s1 p)
           \<and> (is_ok r' \<longrightarrow> contents t (with_extension p ''tmp'') = None)
           \<and> (\<forall>q. q \<noteq> p \<longrightarrow> q \<noteq> with_extension p ''tmp'' \<longrightarrow> contents t q = contents s1 q))
         \<or> (\<not> is_ok r' \<and> contents t = contents s1)"
      unfolding replace_in_netrc_def Let_def
    proof (cases rule: and_then_cases)
      case (cont c s2)
      from cont(1) have "read_to_string p s1 = (Ok c, s2)" by (rule map_err_comp_OkD)
      then have "contents s1 p = Some c" "contents s2 = contents s1"
        by (auto dest: read_to_string_OkD read_to_string_keeps)
      with netrc.replaced_or_kept
          [where g = "\<lambda>q e. FlakeHub (''writing new JWT to '' @ debug_path env q)"
             and h = "\<lambda>q q' e. FlakeHub (''renaming '' @ debug_path env q @ '' to '' @ debug_path env q')",
           OF cont(2) tmp] show ?thesis by simp
    qed (auto elim!: map_err_comp_cases dest: read_to_string_keeps)
    with r frame [OF cont(1)] show ?thesis by (cases "is_ok r'") auto
  next
    case (error e)
    with frame [OF error(1)] show ?thesis by simp
  next
    case (panic m)
    with request_token_no_panic show ?thesis by blast
  qed
qed

section \<open>The GitHub task\<close>

text \<open>
  What happens to a host while the task runs: a turn of its loop, or anything that leaves the netrc,
  the task and the client's token alone (the outside world, printing, other files).
\<close>

definition elsewhere :: "bytes \<Rightarrow> 'w host \<Rightarrow> 'w host \<Rightarrow> bool" where
  "elsewhere p s t \<longleftrightarrow>
     contents t p = contents s p \<and> spawned t = spawned s \<and> api_token t = api_token s"

text \<open>
  A state is the task's HTTP client, once it is built, and the host: the task sleeps, builds its client,
  which may fail and end it, and then takes turns of its loop.
\<close>

inductive github_refresh ::
  "'w flakehub_env \<Rightarrow> bytes \<Rightarrow> http_client option \<times> 'w host \<Rightarrow> http_client option \<times> 'w host \<Rightarrow> bool"
  for env :: "'w flakehub_env" and p :: bytes
where
  start: "spawned s \<noteq> No_Refresh \<Longrightarrow> github_refresh env p (None, s) (github_refresh_start env s)"
| turn: "github_refresh env p (Some cl, s) (Some cl, github_refresh_turn env cl s)"
| other: "elsewhere p s t \<Longrightarrow> github_refresh env p (client_built, s) (client_built, t)"

text \<open>The specification: the netrc after the tokens \<open>j # js\<close> were stored one after the other.\<close>

fun token_chain :: "string \<Rightarrow> string list \<Rightarrow> string \<Rightarrow> string" where
  "token_chain j [] c = c"
| "token_chain j (k # ks) c = token_chain k ks (str_replace j k c)"

lemma token_chain_snoc:
  "token_chain j (ks @ [k]) c = str_replace (last (j # ks)) k (token_chain j ks c)"
  by (induction ks arbitrary: j c) auto

lemma token_chain_contains: "contains_str c j \<Longrightarrow> contains_str (token_chain j ks c) (last (j # ks))"
proof (induction ks arbitrary: j c)
  case (Cons k ks)
  have "contains_str (str_replace j k c) k"
  proof (cases "j = []")
    case True
    then show ?thesis
      by (metis append_Nil2 contains_str_iff replace_empty_def str_replace_def)
  qed (simp add: str_replace_contains Cons.prems)
  from Cons.IH [OF this] show ?case by simp
qed simp

text \<open>
  Why a task that started from \<open>x\<close> has ended: it has no client, or a token \<open>k\<close> that it fetched and wrote
  to the netrc was then not accepted by the API client, which goes on with the one before.
\<close>

definition refused_token ::
  "'w flakehub_env \<Rightarrow> bytes \<Rightarrow> http_client option \<times> 'w host \<Rightarrow> string \<Rightarrow> string \<Rightarrow> bool" where
  "refused_token env p x j k \<longleftrightarrow>
     (\<exists>cl v w. (github_refresh env p)\<^sup>*\<^sup>* x (Some cl, v) \<and> spawned v = Refresh_GitHub p j
        \<and> rewrite_github_actions_token env cl p j v = (Ok k, w)
        \<and> fst (accept_token env k (world w)) \<noteq> Inr ())"

definition refresh_ended ::
  "'w flakehub_env \<Rightarrow> bytes \<Rightarrow> http_client option \<times> 'w host \<Rightarrow> string \<Rightarrow> string list \<Rightarrow> 'w host \<Rightarrow> bool" where
  "refresh_ended env p x j ks s \<longleftrightarrow>
     (\<exists>e. client_build env refresh_client = Inl e) \<and> ks = [] \<and> api_token s = j
     \<or> (\<exists>ks' k. ks = ks' @ [k] \<and> api_token s = last (j # ks') \<and> refused_token env p x (last (j # ks')) k)"

definition github_refresh_inv ::
  "'w flakehub_env \<Rightarrow> bytes \<Rightarrow> http_client option \<times> 'w host \<Rightarrow> string \<Rightarrow> string
     \<Rightarrow> http_client option \<times> 'w host \<Rightarrow> bool" where
  "github_refresh_inv env p x j c y \<longleftrightarrow>
     (\<exists>ks. contents (snd y) p = Some (token_chain j ks c)
        \<and> (fst y = None \<longrightarrow> ks = [])
        \<and> (spawned (snd y) = Refresh_GitHub p (last (j # ks)) \<and> api_token (snd y) = last (j # ks)
           \<or> spawned (snd y) = No_Refresh \<and> refresh_ended env p x j ks (snd y)))"

lemma set_token_cases:
  assumes "set_token env k s = (r, t)"
  obtains (accepted) w where "r = Ok ()" and "t = s\<lparr>world := w, api_token := k\<rparr>"
  | (refused) e w where "r = Err e" and "t = s\<lparr>world := w\<rparr>" and "fst (accept_token env k (world s)) \<noteq> Inr ()"
  using assms
  by (cases "accept_token env k (world s)"; cases "fst (accept_token env k (world s))")
     (auto simp: set_token_def on_world_def map_err_comp_def and_then_def)

lemma set_token_accepted:
  assumes "\<And>w. fst (accept_token env k w) = Inr ()"
  shows "\<exists>w. set_token env k s = (Ok (), s\<lparr>world := w, api_token := k\<rparr>)"
  using assms [of "world s"]
  by (cases "accept_token env k (world s)") (auto simp: set_token_def on_world_def map_err_comp_def)

lemma contents_host [simp]:
  "contents (s\<lparr>world := w\<rparr>) = contents (s :: 'w host)" "contents (s\<lparr>api_token := k\<rparr>) = contents s"
  "contents (s\<lparr>spawned := r\<rparr>) = contents s" "contents (sleep n s) = contents s"
  "contents (s\<lparr>sleeps := ns\<rparr>) = contents s"
  by (simp_all add: contents_def fun_eq_iff sleep_def)

lemma sleep_simps [simp]:
  "spawned (sleep n s) = spawned s" "api_token (sleep n s) = api_token s" "world (sleep n s) = world s"
  "files (sleep n s) = files s" "faults (sleep n s) = faults s"
  by (simp_all add: sleep_def)

lemma github_turn_inv:
  assumes tmp: "with_extension p ''tmp'' \<noteq> p" and inv: "github_refresh_inv env p x j c (Some cl, s)"
    and run: "(github_refresh env p)\<^sup>*\<^sup>* x (Some cl, s)"
  shows "github_refresh_inv env p x j c (Some cl, github_refresh_turn env cl s)"
proof -
  from inv obtain ks where c: "contents s p = Some (token_chain j ks c)"
    and s: "spawned s = Refresh_GitHub p (last (j # ks)) \<and> api_token s = last (j # ks)
      \<or> spawned s = No_Refresh \<and> refresh_ended env p x j ks s"
    by (auto simp: github_refresh_inv_def)
  show ?thesis
  proof (cases "spawned s = No_Refresh")
    case False
    with s have sp: "spawned s = Refresh_GitHub p (last (j # ks))" and tk: "api_token s = last (j # ks)" by auto
    obtain r t where rw: "rewrite_github_actions_token env cl p (last (j # ks)) s = (r, t)" by fastforce
    note at = rewrite_atomic [OF rw tmp]
    show ?thesis
    proof (cases r)
      case (Ok new)
      with at(1) c have ct: "contents t p = Some (token_chain j (ks @ [new]) c)"
        by (auto simp: token_chain_snoc)
      obtain r' u where st: "set_token env new (t\<lparr>spawned := Refresh_GitHub p new\<rparr>) = (r', u)" by fastforce
      then show ?thesis
      proof (cases rule: set_token_cases)
        case (accepted w)
        with sp rw st Ok ct show ?thesis
          by (auto simp: github_refresh_turn_def github_refresh_inv_def intro!: exI [of _ "ks @ [new]"])
      next
        case (refused e w)
        with run sp rw Ok have "refused_token env p x (last (j # ks)) new"
          unfolding refused_token_def by fastforce
        moreover have "api_token t = last (j # ks)" using at(2) tk by (simp add: quiet_def)
        ultimately have "refresh_ended env p x j (ks @ [new]) (u\<lparr>spawned := No_Refresh\<rparr>)"
          using refused(2) by (simp add: refresh_ended_def)
        with sp rw st Ok ct refused show ?thesis
          by (auto simp: github_refresh_turn_def github_refresh_inv_def intro!: exI [of _ "ks @ [new]"])
      qed
    next
      case (Err e)
      with at c sp tk rw show ?thesis
        by (auto simp: github_refresh_turn_def github_refresh_inv_def quiet_def intro!: exI [of _ ks])
    qed (use at in auto)
  qed (use inv in \<open>simp add: github_refresh_turn_def\<close>)
qed

lemma github_start_inv:
  assumes "github_refresh_inv env p x j c (None, s)" and "spawned s \<noteq> No_Refresh"
  shows "github_refresh_inv env p x j c (github_refresh_start env s)"
  using assms
  by (cases "client_build env refresh_client")
     (auto simp: github_refresh_start_def github_refresh_inv_def refresh_ended_def)

lemma github_refresh_keeps_inv:
  assumes "github_refresh env p y z" and "with_extension p ''tmp'' \<noteq> p"
    and "github_refresh_inv env p x j c y" and "(github_refresh env p)\<^sup>*\<^sup>* x y"
  shows "github_refresh_inv env p x j c z"
  using assms(1)
proof cases
  case (start s)
  with assms(3) github_start_inv show ?thesis by blast
next
  case (turn cl s)
  with github_turn_inv [OF assms(2)] assms(3,4) show ?thesis by blast
next
  case (other s t client_built)
  then have t: "contents t p = contents s p" "spawned t = spawned s" "api_token t = api_token s"
    by (simp_all add: elsewhere_def)
  from assms(3) [unfolded other(1)] obtain ks where ks: "contents s p = Some (token_chain j ks c)"
    "client_built = None \<longrightarrow> ks = []"
    "spawned s = Refresh_GitHub p (last (j # ks)) \<and> api_token s = last (j # ks)
      \<or> spawned s = No_Refresh \<and> refresh_ended env p x j ks s"
    unfolding github_refresh_inv_def fst_conv snd_conv by blast
  have ended: "refresh_ended env p x j ks t" if "refresh_ended env p x j ks s"
    using that unfolding refresh_ended_def t(3) .
  with ks t show ?thesis unfolding github_refresh_inv_def other(2) fst_conv snd_conv by (intro exI [of _ ks]) (auto simp del: last.simps)
qed

lemma github_refresh_run_inv:
  assumes "(github_refresh env p)\<^sup>*\<^sup>* x y" and "with_extension p ''tmp'' \<noteq> p"
    and "github_refresh_inv env p x j c x"
  shows "github_refresh_inv env p x j c y"
  using assms by (induction rule: rtranclp_induct) (auto intro: github_refresh_keeps_inv)

lemma github_refresh_inv_start:
  "contents s p = Some c \<Longrightarrow> spawned s = Refresh_GitHub p j \<Longrightarrow> api_token s = j \<Longrightarrow>
   github_refresh_inv env p x j c (None, s)"
  unfolding github_refresh_inv_def by (rule exI [of _ "[]"]) simp

end
