(* ===== verification/RefreshFacts.thy ===== *)
theory RefreshFacts
  imports TokenFacts
begin

text \<open>
  The task that follows determinate-nixd's netrc, as a step relation with determinate-nixd as a
  second actor, and what \<open>init_cache\<close> hands to either task.
\<close>

section \<open>Following determinate-nixd\<close>

text \<open>The token that a netrc text holds for the API server.\<close>

definition token_in :: "'w flakehub_env \<Rightarrow> string \<Rightarrow> string \<Rightarrow> bytes \<Rightarrow> string option" where
  "token_in env a c txt =
     (if utf8_valid txt
      then case netrc_info_of env a c txt of Ok info \<Rightarrow> Some (ni_password info) | _ \<Rightarrow> None
      else None)"

text \<open>
  A state is the inode seen in the first half of a turn, if the second half is due, whether the file was
  last put in place under the very inode that the task remembers (it was rewritten in place, or the inode
  was used again), and the host. determinate-nixd may replace, rewrite or remove the file at any moment.
\<close>

type_synonym 'w following = "64 word option \<times> bool \<times> 'w host"

definition keeps_inode :: "64 word \<Rightarrow> file_node option \<Rightarrow> bool" where
  "keeps_inode known nd \<longleftrightarrow> (\<exists>node. nd = Some node \<and> inode node = known)"

inductive determinate_step ::
  "'w flakehub_env \<Rightarrow> string \<Rightarrow> string \<Rightarrow> 'w following \<Rightarrow> 'w following \<Rightarrow> bool"
  for env :: "'w flakehub_env" and a c :: string
where
  look: "\<lbrakk>spawned s = Refresh_Determinate f known; determinate_look f known (sleep 3 s) = (seen, t)\<rbrakk> \<Longrightarrow>
    determinate_step env a c (None, masked, s) (seen, masked, t)"
| update: "\<lbrakk>spawned s = Refresh_Determinate f known; determinate_update env a c f i s = t\<rbrakk> \<Longrightarrow>
    determinate_step env a c (Some i, masked, s) (None, masked \<and> spawned t = spawned s, t)"
| renew: "spawned s = Refresh_Determinate f known \<Longrightarrow>
    determinate_step env a c (seen, masked, s) (seen, keeps_inode known nd, s\<lparr>files := (files s)(f := nd)\<rparr>)"
| elsewhere: "\<lbrakk>spawned s = Refresh_Determinate f known; files t f = files s f; spawned t = spawned s;
     api_token t = api_token s\<rbrakk> \<Longrightarrow>
    determinate_step env a c (seen, masked, s) (seen, masked, t)"

text \<open>In sync: a file under the remembered inode holds the token that the client has.\<close>

definition in_sync :: "'w flakehub_env \<Rightarrow> string \<Rightarrow> string \<Rightarrow> 'w host \<Rightarrow> bool" where
  "in_sync env a c s \<longleftrightarrow>
     (\<forall>f known node. spawned s = Refresh_Determinate f known \<longrightarrow> files s f = Some node
        \<longrightarrow> inode node = known \<longrightarrow> token_in env a c (content node) = Some (api_token s))"

definition sync_inv ::
  "'w flakehub_env \<Rightarrow> string \<Rightarrow> string \<Rightarrow> 'w following \<Rightarrow> bool" where
  "sync_inv env a c x \<longleftrightarrow> (case x of (seen, masked, s) \<Rightarrow> \<not> masked \<longrightarrow> in_sync env a c s)"

lemma file_inode_run:
  assumes "file_inode p s = (r, t)"
  shows "files t = files s" "disk_only s t" "r = Ok i \<Longrightarrow> \<exists>node. files s p = Some node \<and> inode node = i"
proof -
  show "disk_only s t" using disk_calls(5) assms by (rule keepsD)
  show "files t = files s" "r = Ok i \<Longrightarrow> \<exists>node. files s p = Some node \<and> inode node = i"
    using assms by (auto simp: file_inode_def elim!: syscall_cases split: option.splits)
qed

lemma look_frame:
  assumes "determinate_look f known s = (seen, t)"
  shows "files t = files s \<and> spawned t = spawned s \<and> api_token t = api_token s"
proof -
  obtain r u where "file_inode f s = (r, u)" by fastforce
  with assms file_inode_run(1,2) [of f s r u] show ?thesis
    by (cases r) (auto simp: determinate_look_def disk_only_quiet quiet_def dest: disk_only_quiet)
qed

lemma extract_files: "extract_info_from_netrc env p a c s = (r, t) \<Longrightarrow> files t = files s"
  by (auto simp: extract_info_from_netrc_def call_defs
      elim!: and_then_cases map_err_comp_cases syscall_cases split: if_splits option.splits)

text \<open>The second half of a turn either changes nothing that matters or leaves the task in sync.\<close>

lemma update_cases:
  assumes sp: "spawned s = Refresh_Determinate f known"
  obtains (kept) t where "determinate_update env a c f i s = t" and "files t = files s"
      and "spawned t = spawned s" and "api_token t = api_token s"
  | (updated) t node where "determinate_update env a c f i s = t" and "files t = files s"
      and "spawned t = Refresh_Determinate f i" and "files s f = Some node"
      and "token_in env a c (content node) = Some (api_token t)"
proof -
  obtain r t where ex: "extract_info_from_netrc env f a c s = (r, t)" by fastforce
  have t: "files t = files s" "spawned t = spawned s" "api_token t = api_token s"
    using extract_files [OF ex] keepsD [OF extract_disk_only ex]
    by (auto dest!: disk_only_quiet simp: quiet_def)
  show ?thesis
  proof (cases r)
    case (Ok info)
    from extract_OkD(3) [OF ex [unfolded Ok]] obtain c0 where "contents s f = Some c0"
      and "utf8_valid c0" and "netrc_info_of env a c c0 = Ok info" by blast
    then obtain node where node: "files s f = Some node"
      and tok: "token_in env a c (content node) = Some (ni_password info)"
      by (auto simp: contents_def token_in_def)
    obtain r' u where st: "set_token env (ni_password info) t = (r', u)" by fastforce
    then show ?thesis
    proof (cases rule: set_token_cases)
      case (accepted w)
      with ex Ok st t node tok show ?thesis
        by (intro updated [of "determinate_update env a c f i s" node]) (simp_all add: determinate_update_def)
    next
      case (refused e w)
      with ex Ok st t show ?thesis
        by (intro kept [of "determinate_update env a c f i s"]) (simp_all add: determinate_update_def)
    qed
  qed (use t kept ex in \<open>auto simp: determinate_update_def\<close>)
qed

lemma determinate_step_inv:
  assumes "determinate_step env a c x y" and "sync_inv env a c x"
  shows "sync_inv env a c y"
  using assms
proof (induction rule: determinate_step.induct)
  case (look s f known seen t masked)
  with look_frame [OF look(2)] show ?case by (simp add: sync_inv_def in_sync_def)
next
  case (update s f known i t masked)
  show ?case
    by (rule update_cases [OF update(1), of env a c i])
       (use update in \<open>auto simp: sync_inv_def in_sync_def\<close>)
next
  case (renew s f known seen masked nd)
  then show ?case by (auto simp: sync_inv_def in_sync_def keeps_inode_def)
next
  case (elsewhere s f known t seen masked)
  then show ?case by (auto simp: sync_inv_def in_sync_def)
qed

lemma determinate_run_inv:
  "(determinate_step env a c)\<^sup>*\<^sup>* x y \<Longrightarrow> sync_inv env a c x \<Longrightarrow> sync_inv env a c y"
  by (induction rule: rtranclp_induct) (auto intro: determinate_step_inv)

text \<open>A turn of the loop is the two halves, one after the other.\<close>

lemma determinate_turn_steps:
  assumes "spawned s = Refresh_Determinate f known"
  shows "\<exists>masked'. (determinate_step env a c)\<^sup>*\<^sup>* (None, masked, s) (None, masked', determinate_refresh_turn env a c s)"
proof -
  obtain seen t where l: "determinate_look f known (sleep 3 s) = (seen, t)" by fastforce
  then have step: "determinate_step env a c (None, masked, s) (seen, masked, t)"
    using assms by (intro determinate_step.look)
  from look_frame [OF l] assms have sp: "spawned t = Refresh_Determinate f known" by simp
  show ?thesis
  proof (cases seen)
    case None
    with l assms step show ?thesis by (auto simp: determinate_refresh_turn_def)
  next
    case (Some i)
    with l assms have "determinate_refresh_turn env a c s = determinate_update env a c f i t"
      by (simp add: determinate_refresh_turn_def)
    with determinate_step.update [OF sp refl, of env a c i masked] step Some show ?thesis
      by (metis (no_types, lifting) r_into_rtranclp rtranclp.rtrancl_into_rtrancl)
  qed
qed

text \<open>A file under the remembered inode is never read, whatever it holds.\<close>

lemma remembered_inode_turn:
  assumes "spawned s = Refresh_Determinate f known" and "files s f = Some node" and "inode node = known"
  shows "spawned (determinate_refresh_turn env a c s) = spawned s
    \<and> api_token (determinate_refresh_turn env a c s) = api_token s
    \<and> files (determinate_refresh_turn env a c s) = files s"
proof -
  obtain seen t where l: "determinate_look f known (sleep 3 s) = (seen, t)" by fastforce
  obtain r u where i: "file_inode f (sleep 3 s) = (r, u)" by fastforce
  with file_inode_run(3) [OF i] assms have "r = Ok j \<Longrightarrow> j = known" for j by auto
  with l i have "seen = None" by (cases r) (auto simp: determinate_look_def)
  with l assms(1) look_frame [OF l] show ?thesis by (simp add: determinate_refresh_turn_def)
qed

lemma remembered_inode_turns:
  assumes "spawned s = Refresh_Determinate f known" and "files s f = Some node" and "inode node = known"
  shows "api_token ((determinate_refresh_turn env a c ^^ n) s) = api_token s"
proof -
  have "spawned ((determinate_refresh_turn env a c ^^ n) s) = spawned s
    \<and> api_token ((determinate_refresh_turn env a c ^^ n) s) = api_token s
    \<and> files ((determinate_refresh_turn env a c ^^ n) s) = files s"
  proof (induction n)
    case (Suc n)
    with remembered_inode_turn [of "(determinate_refresh_turn env a c ^^ n) s" f known node env a c] assms
    show ?case by simp
  qed simp
  then show ?thesis by blast
qed

text \<open>One undisturbed turn from a state in sync takes up the token of the file.\<close>

lemma undisturbed_turn:
  assumes sp: "spawned s = Refresh_Determinate f known" and sync: "in_sync env a c s"
    and quietly: "faults s = []" and node: "files s f = Some node"
    and tok: "token_in env a c (content node) = Some k"
    and ok: "\<And>w. fst (accept_token env k w) = Inr ()"
  shows "api_token (determinate_refresh_turn env a c s) = k"
    and "spawned (determinate_refresh_turn env a c s) = Refresh_Determinate f (inode node)"
proof -
  have "api_token (determinate_refresh_turn env a c s) = k
    \<and> spawned (determinate_refresh_turn env a c s) = Refresh_Determinate f (inode node)"
  proof (cases "inode node = known")
    case True
    with remembered_inode_turn [OF sp node] sync sp node tok show ?thesis by (auto simp: in_sync_def)
  next
    case False
    let ?s = "sleep 3 s"
    have "determinate_look f known ?s = (Some (inode node), ?s)"
      using False quietly node by (simp add: determinate_look_def file_inode_def)
    moreover from tok obtain info where info: "utf8_valid (content node)"
      "netrc_info_of env a c (content node) = Ok info" "ni_password info = k"
      by (auto simp: token_in_def split: if_splits result.splits)
    have "extract_info_from_netrc env f a c ?s = (Ok info, ?s)"
      using extract_free [of ?s f "content node" env a c] quietly node info(1,2) by (simp add: contents_def)
    moreover from set_token_accepted [OF ok, of ?s]
    obtain w where "set_token env k ?s = (Ok (), ?s\<lparr>world := w, api_token := k\<rparr>)" by blast
    ultimately show ?thesis
      using sp info(3) by (simp add: determinate_refresh_turn_def determinate_update_def)
  qed
  then show "api_token (determinate_refresh_turn env a c s) = k"
    and "spawned (determinate_refresh_turn env a c s) = Refresh_Determinate f (inode node)" by auto
qed

section \<open>What init_cache starts from\<close>

text \<open>
  What is relied on of the netrc parser here: a password it reports is written in the text.
\<close>

definition reports_passwords :: "'w flakehub_env \<Rightarrow> bool" where
  "reports_passwords env \<longleftrightarrow>
     (\<forall>txt ms m k. netrc_parse env txt = Inr ms \<longrightarrow> m \<in> set ms \<longrightarrow> m_password m = Some k
        \<longrightarrow> contains_str txt k)"

lemma start_refresh_OkD:
  assumes "start_refresh e auth k s = (Ok task, t)"
  shows "disk_only s t \<and> contents t = contents s"
    and "is_github_actions e \<Longrightarrow> auth = Netrc_File p \<Longrightarrow> task = Refresh_GitHub p k"
    and "\<not> is_gitlab_ci e \<Longrightarrow> auth = DeterminateNixd \<Longrightarrow>
      \<exists>node. files s DETERMINATE_NETRC_PATH = Some node
        \<and> task = Refresh_Determinate DETERMINATE_NETRC_PATH (inode node)"
proof -
  have "keeps disk_only (start_refresh e auth k)"
    unfolding start_refresh_def
    by (cases auth) (auto simp del: return_ok_simp intro!: dsk.and_then dsk.map_err_comp dsk.return_ok disk_frames)
  from keepsD [OF this assms] have "disk_only s t" .
  moreover have "contents t = contents s"
    using assms unfolding start_refresh_def
    by (auto simp: contents_def fun_eq_iff dest: file_inode_run(1) elim!: and_then_cases map_err_comp_cases
        split: if_splits flakehub_auth_source.splits)
  ultimately show "disk_only s t \<and> contents t = contents s" ..
  show "is_github_actions e \<Longrightarrow> auth = Netrc_File p \<Longrightarrow> task = Refresh_GitHub p k"
    using assms by (cases e) (auto simp: start_refresh_def)
  show "\<not> is_gitlab_ci e \<Longrightarrow> auth = DeterminateNixd \<Longrightarrow>
      \<exists>node. files s DETERMINATE_NETRC_PATH = Some node
        \<and> task = Refresh_Determinate DETERMINATE_NETRC_PATH (inode node)"
    using assms by (auto simp: start_refresh_def dest!: and_then_OkD map_err_comp_OkD dest: file_inode_run(3))
qed

lemma fetch_cache_name_frame:
  "fetch_cache_name env a fl info s = (r, t) \<Longrightarrow> quiet s t \<and> contents t = contents s"
proof -
  assume run: "fetch_cache_name env a fl info s = (r, t)"
  have "keeps (\<lambda>s t. quiet s t \<and> contents t = contents s) (on_world f)" for f :: "'a \<Rightarrow> ('x + 'y) \<times> 'a"
    by (rule keepsI) (simp add: on_world_def quiet_def contents_def fun_eq_iff split: prod.split)
  moreover have "evolution (\<lambda>s t :: 'a host. quiet s t \<and> contents t = contents s)"
    by unfold_locales (auto intro: qu.stays qu.chain)
  ultimately have "keeps (\<lambda>s t. quiet s t \<and> contents t = contents s) (fetch_cache_name env a fl info)"
    unfolding fetch_cache_name_def http_request_of_def
    by (intro evolution.and_then evolution.map_err_comp evolution.lift_result) 
  then show ?thesis using run by (rule keepsD)
qed

lemma get_cache_config_frame:
  "map_err_comp FlakeHub (\<lambda>s. on_world (g s) s) s = (r, t) \<Longrightarrow>
     spawned t = spawned s \<and> api_token t = api_token s \<and> files t = files s"
  by (auto simp: map_err_comp_def on_world_def split: prod.splits)

text \<open>The stages of a successful \<open>init_cache\<close>, with what each leaves as it was.\<close>

lemma init_cache_OkD:
  assumes "init_cache env e a c fl auth s = (Ok name, t)"
  obtains info s1 s2 s3 task where
    "extract_info_from_netrc env (as_path_buf auth) a c s = (Ok info, s1)"
    and "append_cache_entry auth info s1 = (Ok (), s2)"
    and "start_refresh e auth (ni_password info) (s2\<lparr>api_token := ni_password info\<rparr>) = (Ok task, s3)"
    and "spawned t = task" and "api_token t = ni_password info" and "contents t = contents s3"
proof -
  from assms obtain info s1 s2 task s3 s5 where x: "extract_info_from_netrc env (as_path_buf auth) a c s = (Ok info, s1)"
    and y: "append_cache_entry auth info s1 = (Ok (), s2)"
    and z: "start_refresh e auth (ni_password info) (s2\<lparr>api_token := ni_password info\<rparr>) = (Ok task, s3)"
    and f: "fetch_cache_name env a fl info (s3\<lparr>spawned := task\<rparr>) = (Ok name, s5)"
    and g: "map_err_comp FlakeHub (\<lambda>s. on_world (get_cache_config env (api_token s) name) s) s5 = (Ok (), t)"
    unfolding init_cache_def spawn_refresh_def by (fastforce dest!: and_then_OkD)
  from start_refresh_OkD(1) [OF z] have "api_token s3 = ni_password info"
    by (auto dest!: disk_only_quiet simp: quiet_def)
  moreover have "contents t = contents s5"
    using get_cache_config_frame [OF g] by (simp add: contents_def fun_eq_iff)
  ultimately show ?thesis
    using that [OF x y z] fetch_cache_name_frame [OF f] get_cache_config_frame [OF g]
    by (simp add: quiet_def)
qed

lemma init_cache_github:
  assumes "init_cache env GitHubActions a c fl (Netrc_File p) s = (Ok name, t)"
    and "reports_passwords env"
  shows "\<exists>k c0. spawned t = Refresh_GitHub p k \<and> api_token t = k \<and> contents t p = Some c0
    \<and> contains_str c0 k"
  using assms(1)
proof (rule init_cache_OkD)
  fix info s1 s2 s3 task
  assume x: "extract_info_from_netrc env (as_path_buf (Netrc_File p)) a c s = (Ok info, s1)"
    and y: "append_cache_entry (Netrc_File p) info s1 = (Ok (), s2)"
    and z: "start_refresh GitHubActions (Netrc_File p) (ni_password info)
      (s2\<lparr>api_token := ni_password info\<rparr>) = (Ok task, s3)"
    and t: "spawned t = task" "api_token t = ni_password info" "contents t = contents s3"
  from extract_OkD(2,3) [OF x] obtain c0 where c0: "contents s1 p = Some c0"
    and i: "netrc_info_of env a c c0 = Ok info" by auto
  from i have "contains_str c0 (ni_password info)"
    by (rule netrc_info_OkD)
       (use assms(2) find_machine_mem in \<open>unfold reports_passwords_def, blast\<close>)
  then have "contains_str (c0 @ d) (ni_password info)" for d
    by (force simp: contains_str_iff)
  moreover have "contents t p = contents s2 p"
    using t(3) start_refresh_OkD(1) [OF z] by simp
  moreover have "task = Refresh_GitHub p (ni_password info)"
    using start_refresh_OkD(2) [OF z] by simp
  ultimately show ?thesis
    using c0 t \<open>contains_str c0 _\<close>
    by (cases rule: append_cache_entry_OkD [OF y]) (auto split: if_splits)
qed

text \<open>Undisturbed, \<open>init_cache\<close> leaves the task in sync with determinate-nixd's file.\<close>

lemma init_cache_in_sync:
  assumes "init_cache env e a c fl DeterminateNixd s = (Ok name, t)" and "\<not> is_gitlab_ci e"
  shows "in_sync env a c t"
  using assms(1)
proof (rule init_cache_OkD)
  fix info s1 s2 s3 task
  assume x: "extract_info_from_netrc env (as_path_buf DeterminateNixd) a c s = (Ok info, s1)"
    and y: "append_cache_entry DeterminateNixd info s1 = (Ok (), s2)"
    and z: "start_refresh e DeterminateNixd (ni_password info)
      (s2\<lparr>api_token := ni_password info\<rparr>) = (Ok task, s3)"
    and t: "spawned t = task" "api_token t = ni_password info" "contents t = contents s3"
  from y have "s2 = s1" by (simp add: append_cache_entry_def)
  with start_refresh_OkD(1) [OF z] have "contents s3 = contents s1" by simp
  moreover from extract_OkD(2,3) [OF x] obtain c0 where
    "contents s1 DETERMINATE_NETRC_PATH = Some c0" "utf8_valid c0" "netrc_info_of env a c c0 = Ok info"
    unfolding as_path_buf_determinate by auto
  ultimately have "token_in env a c (content node) = Some (ni_password info)"
    if "files t DETERMINATE_NETRC_PATH = Some node" for node
    using that t(3) by (auto simp: token_in_def contents_def fun_eq_iff dest!: spec [of _ DETERMINATE_NETRC_PATH])
  moreover from start_refresh_OkD(3) [OF z assms(2)] obtain i where "task = Refresh_Determinate DETERMINATE_NETRC_PATH i"
    by auto
  ultimately show ?thesis using t by (simp add: in_sync_def)
qed

text \<open>The entry for the cache server: once appended, a second start finds it and appends nothing.\<close>

lemma append_cache_entry_once:
  assumes x: "extract_info_from_netrc env p a c s = (Ok info, s1)"
    and y: "append_cache_entry (Netrc_File p) info s1 = (Ok u, s2)" and works: "faults s = []"
    and parser: "contents s p = Some c0" "reads_machines env c0" and plain: "plain_credentials info"
    and x': "extract_info_from_netrc env p a c s2 = (Ok info', s3)"
  shows "append_cache_entry (Netrc_File p) info' s3 = (Ok (), s3)
    \<and> ni_login info' = ni_login info \<and> ni_password info' = ni_password info
    \<and> ni_machines info' = (if \<exists>m \<in> set (ni_machines info). m_name m = Some (ni_cache_host info) then ni_machines info
        else ni_machines info @ [\<lparr>m_name = Some (ni_cache_host info), m_login = Some (ni_login info),
                                   m_password = Some (ni_password info)\<rparr>])"
proof -
  from extract_OkD(2,3) [OF x] parser(1) have c0: "contents s1 p = Some c0" "contents s p = Some c0"
    and i: "netrc_info_of env a c c0 = Ok info" by auto
  have "s1 = s"
    using extract_free [OF works c0(2)] extract_OkD(3) [OF x] c0 x by auto
  with works append_cache_entry_OkD [OF y] have s2: "contents s2 =
      (if \<exists>m \<in> set (ni_machines info). m_name m = Some (ni_cache_host info) then contents s1
       else (contents s1)(p := map_option (\<lambda>c. c @ netrc_entry info) (contents s1 p)))" by metis
  from extract_OkD(3) [OF x'] obtain c1 where c1: "contents s2 p = Some c1"
    and i': "netrc_info_of env a c c1 = Ok info'" by auto
  show ?thesis
  proof (cases "\<exists>m \<in> set (ni_machines info). m_name m = Some (ni_cache_host info)")
    case True
    with s2 c0 c1 i i' show ?thesis
      by (auto simp: append_cache_entry_def)
  next
    case False
    with s2 c0 c1 have "c1 = c0 @ netrc_entry info" by auto
    with info_after_entry [OF i parser(2) plain] i' False show ?thesis
      by (auto simp: append_cache_entry_def)
  qed
qed

end
