(* ===== verification/StartupFacts.thy ===== *)
theory StartupFacts
  imports MainCli RefreshFacts
begin

text \<open>
  What startup does to the disk, to \<open>nix.conf\<close> and to the server it starts. \<open>same p\<close> and \<open>grows p\<close>
  are the contracts "the file is as it was" and "the file has at most been appended to"; both are
  evolutions, so they are lifted through the startup sequence by the rules of that locale.
\<close>

section \<open>Files left alone, and files appended to\<close>

definition same :: "bytes \<Rightarrow> 'z disk_scheme \<Rightarrow> 'z disk_scheme \<Rightarrow> bool" where
  "same p s t \<longleftrightarrow> contents t p = contents s p"

definition grows :: "bytes \<Rightarrow> 'z disk_scheme \<Rightarrow> 'z disk_scheme \<Rightarrow> bool" where
  "grows p s t \<longleftrightarrow> (\<forall>c. contents s p = Some c \<longrightarrow> (\<exists>d. contents t p = Some (c @ d)))"

interpretation sm: evolution "same p" for p
  by unfold_locales (auto simp: same_def)

interpretation gr: evolution "grows p" for p
proof unfold_locales
  fix s t u :: "'a disk_scheme"
  show "grows p s s" by (simp add: grows_def)
  assume "grows p s t" and "grows p t u"
  then show "grows p s u" by (fastforce simp: grows_def)
qed

lemma same_grows: "keeps (same p) m \<Longrightarrow> keeps (grows p) m"
  by (auto simp: keeps_def same_def grows_def)

lemma sameI: "(\<And>s r t. m s = (r, t) \<Longrightarrow> contents t p = contents s p) \<Longrightarrow> keeps (same p) m"
  by (rule keepsI) (metis prod.collapse same_def)

text \<open>Operations that never change a content, and those that change only another file.\<close>

lemma same_calls:
  "keeps (same p) (open_read q)" "keeps (same p) (read_string q)" "keeps (same p) (file_inode q)"
  "keeps (same p) (create_dir_all q)" "keeps (same p) (set_mode q md)"
  by (rule sameI; auto simp: call_defs contents_def elim!: syscall_cases split: if_splits option.splits)+

lemma same_path_exists: "keeps (same p) (path_exists q)"
  using same_calls(3) [of p q] by (simp add: keeps_def path_exists_def split_beta)

lemma same_elsewhere:
  assumes "q \<noteq> p"
  shows "keeps (same p) (open_write cr tr q)" "keeps (same p) (write_all q d)"
    "keeps (same p) (buffered_write q d)"
    "keeps (same p) (remove_file q)" "keeps (same p) (create_temp q)"
proof -
  show "keeps (same p) (open_write cr tr q)"
    by (rule sameI) (use assms in \<open>metis open_write_frame\<close>)
  show "keeps (same p) (write_all q d)"
    by (rule sameI) (use assms in \<open>metis write_all_frame\<close>)
  show "keeps (same p) (buffered_write q d)"
    by (rule sameI) (use assms in \<open>auto simp: buffered_write_def intro: write_all_frame [OF prod.collapse [symmetric]]\<close>)
  show "keeps (same p) (remove_file q)" "keeps (same p) (create_temp q)"
    using assms
    by (auto intro!: sameI simp: call_defs create_temp_def contents_def create_node_def elim!: syscall_cases
        split: if_splits)
qed

lemma same_host:
  "keeps (same p) (on_world f)" "keeps (same p) (set_fact n v)"
  "keeps (same p) (print_unauthenticated_error env)" "keeps (same p) (read_clock env)"
  "keeps (same p) (spawn_refresh r)"
  by (rule keepsI; simp add: same_def contents_def on_world_def set_fact_def print_unauthenticated_error_def
      read_clock_def spawn_refresh_def split: prod.split)+

lemma same_set_facts: "keeps (same p) (set_facts fs)"
  by (induction fs rule: set_facts.induct)
     (simp_all del: return_ok_simp add: sm.return_ok sm.and_then same_host)

lemma same_with_context: "keeps (same p) m \<Longrightarrow> keeps (same p) (with_context msg wrap m)"
  unfolding with_context_def by (rule sm.map_err_comp)

lemmas same_rules = sm.and_then sm.return_ok sm.lift_result sm.map_err_comp same_with_context
  same_calls same_path_exists same_host same_set_facts

text \<open>Appending keeps every file growing, even when it fails half-way.\<close>

lemma grows_write_all: "keeps (grows p) (write_all q d)"
proof (cases "q = p")
  case True
  then show ?thesis
    by (intro keepsI) (auto simp: grows_def write_all_def split: list.split option.split fault.split)
qed (use same_elsewhere(2) same_grows in blast)

lemma grows_buffered_write: "keeps (grows p) (buffered_write q d)"
  by (rule keepsI) (simp add: buffered_write_def keeps_snd [OF grows_write_all])

lemma grows_open_append: "keeps (grows p) (open_write cr False q)"
  by (rule keepsI)
     (auto simp: grows_def open_write_def contents_def create_node_def syscall_def
       split: list.split option.split)

lemma grows_with_context: "keeps (grows p) m \<Longrightarrow> keeps (grows p) (with_context msg wrap m)"
  unfolding with_context_def by (rule gr.map_err_comp)

lemmas grows_rules = gr.and_then gr.return_ok gr.lift_result gr.map_err_comp grows_with_context
  grows_write_all grows_buffered_write grows_open_append
  same_calls [THEN same_grows] same_path_exists [THEN same_grows] same_host [THEN same_grows]
  same_set_facts [THEN same_grows]

section \<open>Startup and the other files\<close>

lemma init_logging_grows: "debug_logfile env \<noteq> p \<Longrightarrow> keeps (same p) (init_logging env)"
  unfolding init_logging_def by (auto simp del: return_ok_simp intro!: same_rules same_elsewhere)

lemma open_nix_conf_grows: "keeps (grows p) (open_nix_conf nc)"
  unfolding open_nix_conf_def append_conf_def
  by (cases "has_parent nc") (auto simp del: return_ok_simp intro!: grows_rules)

lemma startup_prepare_grows: "keeps (grows p) (startup_prepare env a e)"
  unfolding startup_prepare_def by (intro grows_rules open_nix_conf_grows)

lemma choose_auth_same: "keeps (same p) (choose_auth env a dn)"
  unfolding choose_auth_def Let_def
  by (auto simp del: return_ok_simp split: option.split prod.split intro!: same_rules)

lemma same_modify_token: "keeps (same p) (modify (\<lambda>s :: 'w host. s\<lparr>api_token := k\<rparr>))"
  by (rule keepsI) (simp add: same_def)

lemma same_get_config: "keeps (same p) (\<lambda>s. on_world (g s) s)"
  by (rule keepsI) (simp add: same_def contents_def on_world_def split: prod.split)

lemma append_cache_entry_grows: "keeps (grows p) (append_cache_entry auth info)"
  unfolding append_cache_entry_def
  by (auto simp del: return_ok_simp split: flakehub_auth_source.split intro!: grows_rules)

lemma init_cache_grows: "keeps (grows p) (init_cache env e api c fl auth)"
proof -
  have ref: "keeps (grows p) (start_refresh e auth k)" for k
    unfolding start_refresh_def
    by (cases auth) (auto simp del: return_ok_simp intro!: grows_rules)
  show ?thesis
    unfolding init_cache_def extract_info_from_netrc_def fetch_cache_name_def http_request_of_def
    by (intro grows_rules append_cache_entry_grows ref same_modify_token [THEN same_grows]
        same_get_config [THEN same_grows])
qed

lemma append_cache_entry_same:
  "as_path_buf auth \<noteq> p \<or> auth = DeterminateNixd \<Longrightarrow> keeps (same p) (append_cache_entry auth info)"
  unfolding append_cache_entry_def
  by (auto simp del: return_ok_simp split: flakehub_auth_source.split intro!: same_rules same_elsewhere)

lemma init_cache_same:
  assumes "as_path_buf auth \<noteq> p \<or> auth = DeterminateNixd"
  shows "keeps (same p) (init_cache env e api c fl auth)"
proof -
  have ref: "keeps (same p) (start_refresh e auth k)" for k
    unfolding start_refresh_def
    by (cases auth) (auto simp del: return_ok_simp intro!: same_rules)
  show ?thesis
    unfolding init_cache_def extract_info_from_netrc_def fetch_cache_name_def http_request_of_def
    by (intro same_rules append_cache_entry_same [OF assms] ref same_modify_token same_get_config)
qed

lemma setup_flakehub_grows: "keeps (grows p) (setup_flakehub env a e auth)"
proof (rule keepsI)
  fix s
  show "grows p s (snd (setup_flakehub env a e auth s))"
  proof (cases auth)
    case (Some m)
    obtain r t where i: "init_cache (flakehub_env.truncate env) e (opt_flakehub_api_server a)
        (opt_flakehub_cache_server a) (opt_flakehub_flake_name a) m s = (r, t)" by fastforce
    have st: "grows p s t" by (rule keepsD [OF init_cache_grows i])
    have conf: "grows p t (snd (and_then (append_conf msg nc line) (\<lambda>_. return_ok True) t))" for msg nc line
      unfolding append_conf_def by (rule keeps_snd) (intro grows_rules)
    have msg: "grows p t (snd (and_then (print_unauthenticated_error env) (\<lambda>_. return_ok False) t))"
      by (rule keeps_snd) (intro grows_rules)
    show ?thesis
    proof (cases r)
      case (Ok n)
      with Some i st gr.chain [OF st conf] show ?thesis
        by (cases m) (simp_all add: setup_flakehub_def)
    next
      case (Err er)
      with Some i gr.chain [OF st msg] show ?thesis by (simp add: setup_flakehub_def)
    next
      case (Panic pm)
      with Some i st show ?thesis by (simp add: setup_flakehub_def)
    qed
  qed (simp add: setup_flakehub_def gr.stays)
qed

lemma setup_gha_grows: "keeps (grows p) (setup_gha env a addr fh)"
  unfolding setup_gha_def append_conf_def
  by (auto simp del: return_ok_simp intro!: grows_rules)

lemma startup_caches_grows: "keeps (grows p) (startup_caches env a e addr dn)"
  unfolding startup_caches_def
  by (intro grows_rules choose_auth_same [THEN same_grows] setup_flakehub_grows setup_gha_grows)

lemma write_hook_same:
  fixes env :: "'w host_env"
  assumes "\<And>w. fst (temp_name env ''magic-nix-cache-build-hook-'' w) \<noteq> p"
  shows "keeps (same p) (write_hook env listen)"
proof (rule keepsI)
  fix s :: "'w host"
  obtain q w where q: "temp_name env ''magic-nix-cache-build-hook-'' (world s) = (q, w)" by fastforce
  with assms [of "world s"] have "q \<noteq> p" by simp
  have "keeps (same p) (inspect_err (drop_temp q)
      (and_then (with_context m1 From_Io (lift_result r)) (\<lambda>exe. with_context m2 From_Io (write_all q (d exe)))))" for m1 m2 r d
    by (rule sm.inspect_err)
       (auto intro!: same_rules same_elsewhere simp: same_def contents_def drop_temp_def \<open>q \<noteq> p\<close> \<open>q \<noteq> p\<close> [symmetric])
  then have "keeps (same p) (and_then (with_context ''Creating a temporary file for the post-build hook'' From_Io (create_temp q))
        (\<lambda>_. and_then (inspect_err (drop_temp q)
               (and_then (with_context ''Getting the path of magic-nix-cache'' From_Io
                            (lift_result (result_of_sum (current_exe env))))
                  (\<lambda>exe. with_context ''Writing the post-build hook'' From_Io
                            (write_all q (hook_script exe listen)))))
        (\<lambda>_. and_then (with_context ''Setting permissions on the post-build hook'' From_Io
                          (set_mode q 0x1ED))
        (\<lambda>_. return_ok q))))"
    using \<open>q \<noteq> p\<close> by (intro same_rules same_elsewhere)
  from keeps_snd [OF this, of "s\<lparr>world := w\<rparr>"] q show "same p s (snd (write_hook env listen s))"
    by (simp add: write_hook_def same_def)
qed

lemma add_hook_same: "q \<noteq> p \<Longrightarrow> keeps (same p) (add_hook_to_store env q)"
  unfolding add_hook_to_store_def
  by (intro same_rules) (auto simp del: return_ok_simp intro!: same_rules same_elsewhere split: prod.split)

text \<open>The path of a hook script is the temporary name it was given.\<close>

lemma write_hook_OkD:
  "write_hook env listen s = (Ok q, t) \<Longrightarrow> q = fst (temp_name env ''magic-nix-cache-build-hook-'' (world s))"
  by (auto simp: write_hook_def split: prod.splits dest!: and_then_OkD)

lemma setup_hook_cases:
  fixes s t :: "'w host"
  assumes run: "setup_legacy_post_build_hook env listen nc s = (r, t)"
    and temp: "\<And>w. fst (temp_name env ''magic-nix-cache-build-hook-'' w) \<noteq> p"
  obtains (failed) e where "r = Err e" and "same p s t"
  | (panicked) m where "r = Panic m" and "same p s t"
  | (written) script u where "same p s u"
      and "with_context ''Writing to nix.conf'' From_Io (write_all nc (hook_conf_line script)) u = (r, t)"
  using run unfolding setup_legacy_post_build_hook_def
proof (cases rule: and_then_cases)
  case (cont q s1)
  have s1: "same p s s1" by (rule keepsD [OF write_hook_same [OF temp] cont(1)])
  have "q \<noteq> p" using write_hook_OkD [OF cont(1)] temp by simp
  then have ad: "keeps (same p) (add_hook_to_store env q)" by (rule add_hook_same)
  from cont(2) show ?thesis
  proof (cases rule: and_then_cases)
    case (cont script u)
    with s1 keepsD [OF ad cont(1)] show ?thesis by (intro written) (auto intro: sm.chain)
  next
    case (error e)
    with s1 keepsD [OF ad error(1)] show ?thesis by (intro failed) (auto intro: sm.chain)
  next
    case (panic m)
    with s1 keepsD [OF ad panic(1)] show ?thesis by (intro panicked) (auto intro: sm.chain)
  qed
next
  case (error e)
  with keepsD [OF write_hook_same [OF temp] error(1)] show ?thesis by (intro failed)
next
  case (panic m)
  with keepsD [OF write_hook_same [OF temp] panic(1)] show ?thesis by (intro panicked)
qed

lemma setup_hook_grows:
  assumes "\<And>w. fst (temp_name env ''magic-nix-cache-build-hook-'' w) \<noteq> p"
  shows "keeps (grows p) (setup_legacy_post_build_hook env listen nc)"
proof (rule keepsI)
  fix s
  obtain r t where run: "setup_legacy_post_build_hook env listen nc s = (r, t)" by fastforce
  have g: "grows p u v" if "same p u v" for u v :: "'a host"
    using that by (auto simp: same_def grows_def)
  have w: "keeps (grows p) (with_context msg From_Io (write_all nc d))" for msg d
    by (intro grows_rules)
  from run assms have "grows p s t"
  proof (cases rule: setup_hook_cases)
    case (written script u)
    with g keepsD [OF w written(2)] show ?thesis by (blast intro: gr.chain)
  qed (use g in auto)
  with run show "grows p s (snd (setup_legacy_post_build_hook env listen nc s))" by simp
qed

lemma notify_url_same: "keeps (same p) (notify_url env blob target)"
  by (rule keepsI) (simp add: notify_url_def same_def split: option.split sum.split prod.split)

lemma notify_file_same: "target \<noteq> Some p \<Longrightarrow> keeps (same p) (notify_file blob target)"
  unfolding notify_file_def
  by (auto simp del: return_ok_simp split: option.split intro!: same_rules same_elsewhere)

text \<open>Startup appends at most, to any file but those it makes itself; whatever fails.\<close>

lemma main_startup_grows:
  assumes "debug_logfile env \<noteq> p" and "opt_startup_notification_file a \<noteq> Some p"
    and "\<And>w. fst (temp_name env ''magic-nix-cache-build-hook-'' w) \<noteq> p"
  shows "keeps (grows p) (main_startup env a)"
proof -
  have hook: "keeps (grows p) (if dn = Available then return_ok ()
      else setup_legacy_post_build_hook env addr (opt_nix_conf a))" for dn addr
    using setup_hook_grows [OF assms(3)] by (auto simp del: return_ok_simp intro: grows_rules)
  have announce: "keeps (grows p) (startup_announce env a addr dn)" for addr dn
    unfolding startup_announce_def
    by (intro grows_rules hook notify_url_same [THEN same_grows]
        notify_file_same [OF assms(2), THEN same_grows])
  note rules = grows_rules init_logging_grows [OF assms(1), THEN same_grows] startup_prepare_grows
    startup_caches_grows announce
  show ?thesis
    unfolding main_startup_def Let_def
    by (intro rules) (auto simp del: return_ok_simp split: prod.split intro!: rules)
qed

section \<open>The server that is started\<close>

text \<open>The stages of a successful startup.\<close>

lemma main_startup_OkD:
  assumes "main_startup env a s = (Ok l, t)"
  obtains log s1 addr now dn s2 fh cl s3 where
    "init_logging env s = (Ok log, s1)"
    and "startup_prepare env a (determine (vars env)) s1 = (Ok (addr, now, dn), s2)"
    and "startup_caches env a (determine (vars env)) addr dn s2 = (Ok (fh, cl), s3)"
    and "startup_announce env a addr dn s3 = (Ok (), t)"
    and "l = \<lparr>l_config = \<lparr>gha_api = cl, upstream = opt_upstream a,
                          diff_store = opt_diff_store a, logfile = log\<rparr>,
              l_flakehub = fh, l_dnixd = dn, l_address = addr, l_started = now\<rparr>"
  using assms unfolding main_startup_def Let_def by (fastforce dest!: and_then_OkD)

lemma setup_gha_OkD:
  assumes "setup_gha env a addr fh s = (Ok cl, t)"
  shows "(cl \<noteq> None) = uses_gha_cache (args.truncate a) fh"
    and "cl = Some c \<Longrightarrow> breaker_callback c = mark_tripped"
    and "contents t = (if cl = None then contents s
          else (contents s)(opt_nix_conf a := map_option (\<lambda>x. x @ gha_conf_line addr) (contents s (opt_nix_conf a))))"
proof -
  have cb: "gha_client env cr cv = Ok c \<Longrightarrow> breaker_callback c = mark_tripped" for cr cv c
    by (auto simp: gha_client_def api_new_def mutate_version_def Let_def split: sum.splits option.splits)
  show "(cl \<noteq> None) = uses_gha_cache (args.truncate a) fh"
    and "cl = Some c \<Longrightarrow> breaker_callback c = mark_tripped"
    using assms cb
    by (auto simp: setup_gha_def with_context_def split: if_splits dest!: and_then_OkD map_err_comp_OkD)
  have "contents t = (contents s)(opt_nix_conf a := map_option (\<lambda>x. x @ line) (contents s (opt_nix_conf a)))"
    if "append_conf msg (opt_nix_conf a) line s = (Ok u, t)" for u msg line
  proof (rule ext)
    fix q
    from that have w: "write_all (opt_nix_conf a) line s = (Ok u, t)"
      unfolding append_conf_def with_context_def by (rule map_err_comp_OkD)
    show "contents t q = ((contents s)(opt_nix_conf a := map_option (\<lambda>x. x @ line) (contents s (opt_nix_conf a)))) q"
      using write_all_OkD [OF w] write_all_frame [OF w, of q] by (cases "q = opt_nix_conf a") auto
  qed
  then show "contents t = (if cl = None then contents s
          else (contents s)(opt_nix_conf a := map_option (\<lambda>x. x @ gha_conf_line addr) (contents s (opt_nix_conf a))))"
    using assms
    by (auto simp: setup_gha_def with_context_def split: if_splits dest!: and_then_OkD map_err_comp_OkD)
qed

lemma startup_config:
  assumes "main_startup env a s = (Ok l, t)"
  shows "validate (args.truncate a) (determine (vars env)) = Ok ()"
    and "(gha_api (l_config l) \<noteq> None) = uses_gha_cache (args.truncate a) (l_flakehub l)"
    and "flagging (l_config l)"
  using assms
proof (atomize (full), rule main_startup_OkD)
  fix log s1 addr now dn s2 fh cl s3
  assume p: "startup_prepare env a (determine (vars env)) s1 = (Ok (addr, now, dn), s2)"
    and c: "startup_caches env a (determine (vars env)) addr dn s2 = (Ok (fh, cl), s3)"
    and l: "l = \<lparr>l_config = \<lparr>gha_api = cl, upstream = opt_upstream a,
                          diff_store = opt_diff_store a, logfile = log\<rparr>,
              l_flakehub = fh, l_dnixd = dn, l_address = addr, l_started = now\<rparr>"
  from p have "validate (args.truncate a) (determine (vars env)) = Ok ()"
    unfolding startup_prepare_def by (auto dest!: and_then_OkD)
  moreover from c obtain u v where "setup_gha env a addr fh u = (Ok cl, v)"
    unfolding startup_caches_def by (auto dest!: and_then_OkD)
  from setup_gha_OkD(1,2) [OF this] have "(cl \<noteq> None) = uses_gha_cache (args.truncate a) fh"
    and "flagging (l_config l)" by (auto simp: l flagging_def split: option.split)
  ultimately show "validate (args.truncate a) (determine (vars env)) = Ok () \<and>
    (gha_api (l_config l) \<noteq> None) = uses_gha_cache (args.truncate a) (l_flakehub l) \<and>
    flagging (l_config l)" by (simp add: l)
qed

end
