(* ===== verification/ConfFacts.thy ===== *)
theory ConfFacts
  imports StartupFacts
begin

text \<open>
  What a successful startup leaves in \<open>nix.conf\<close>, and what the report sent after serving says.
\<close>

section \<open>nix.conf after startup\<close>

definition old_text :: "'z disk_scheme \<Rightarrow> bytes \<Rightarrow> bytes" where
  "old_text s p = (case contents s p of Some c \<Rightarrow> c | None \<Rightarrow> [])"

lemma old_text_same: "same p s t \<Longrightarrow> old_text t p = old_text s p"
  by (simp add: same_def old_text_def)

lemma with_context_OkD: "with_context msg wrap m s = (Ok x, t) \<Longrightarrow> m s = (Ok x, t)"
  unfolding with_context_def by (rule map_err_comp_OkD)

lemma append_conf_OkD:
  "append_conf msg nc line s = (Ok u, t) \<Longrightarrow> contents s nc = Some c \<Longrightarrow> contents t nc = Some (c @ line)"
  by (auto simp: append_conf_def dest!: with_context_OkD write_all_OkD)

lemma open_nix_conf_OkD:
  assumes "open_nix_conf nc s = (Ok u, t)"
  shows "contents t nc = Some (old_text s nc @ fallback_line)"
proof -
  from assms obtain s1 s2 where
    d: "(if has_parent nc
         then and_then (with_context ''Creating parent directories of nix.conf'' From_Io (create_dir_all nc))
                (\<lambda>_. set_fact ''nix_conf_path'' (display nc))
         else return_ok ()) s = (Ok (), s1)"
    and o: "with_context ''Creating nix.conf'' From_Io (open_write True False nc) s1 = (Ok (), s2)"
    and w: "append_conf ''Setting fallback in nix.conf'' nc fallback_line s2 = (Ok u, t)"
    unfolding open_nix_conf_def by (fastforce dest!: and_then_OkD)
  have "keeps (same nc) (if has_parent nc
         then and_then (with_context ''Creating parent directories of nix.conf'' From_Io (create_dir_all nc))
                (\<lambda>_. set_fact ''nix_conf_path'' (display nc))
         else return_ok ())"
    by (auto simp del: return_ok_simp intro!: same_rules)
  from old_text_same [OF keepsD [OF this d]] have "old_text s1 nc = old_text s nc" .
  moreover from with_context_OkD [OF o] have "contents s2 nc = Some (old_text s1 nc)"
    by (auto simp: open_write_def old_text_def contents_def create_node_def elim!: syscall_cases
        split: option.splits)
  ultimately show ?thesis using append_conf_OkD [OF w] by simp
qed

lemma startup_prepare_OkD:
  assumes "startup_prepare env a e s = (Ok x, t)"
  shows "contents t (opt_nix_conf a) = Some (old_text s (opt_nix_conf a) @ fallback_line)"
proof -
  let ?p = "opt_nix_conf a"
  define before where "before = (\<lambda>k :: string \<Rightarrow> system_time \<Rightarrow> bool \<Rightarrow> ('a host, cli_error, string \<times> system_time \<times> dnixd) comp.
     and_then (set_fact ''environment'' (environment_text e))
       (\<lambda>_. and_then (lift_result (map_err From_Server (validate (args.truncate a) e)))
       (\<lambda>_. and_then (map_err_comp From_Io (on_world (tcp_bind env (opt_listen a))))
       (\<lambda>addr. and_then (read_clock env)
       (\<lambda>now. and_then (path_exists dnixd_socket) (\<lambda>there. k addr now there))))))"
  from assms obtain u v addr now there s1 where
    b: "before (\<lambda>addr now there. return_ok (addr, now, dnixd_from there)) s = (Ok (addr, now, dnixd_from there), s1)"
    and o: "open_nix_conf ?p s1 = (Ok u, v)"
    and c: "map_err_comp From_Attic (on_world (store_connect env)) v = (Ok (), t)"
    unfolding startup_prepare_def before_def by (fastforce dest!: and_then_OkD)
  have "keeps (same ?p) (before (\<lambda>addr now there. return_ok (addr, now, dnixd_from there)))"
    unfolding before_def by (intro same_rules)
  from old_text_same [OF keepsD [OF this b]] open_nix_conf_OkD [OF o]
  have "contents v ?p = Some (old_text s ?p @ fallback_line)" by simp
  moreover have "keeps (same ?p) (map_err_comp From_Attic (on_world (store_connect env)))"
    by (intro same_rules)
  from keepsD [OF this c] have "contents t ?p = contents v ?p" by (simp add: same_def)
  ultimately show ?thesis by simp
qed

lemma choose_auth_OkD:
  assumes "choose_auth env a dn s = (Ok auth, t)"
  shows "auth = Some m \<Longrightarrow> (if dn = Available then m = DeterminateNixd
    else \<exists>p. m = Netrc_File p \<and> flakehub_api_server_netrc a = Some p)"
proof -
  from assms obtain there fs where
    "flakehub_auth_method (\<lambda>_. there) (flakehub_preference (args.truncate a))
       (flakehub_api_server_netrc a) dn = (fs, Ok auth)"
    unfolding choose_auth_def Let_def by (auto dest!: and_then_OkD split: prod.splits)
  then have "snd (flakehub_auth_method (\<lambda>_. there) (flakehub_preference (args.truncate a))
       (flakehub_api_server_netrc a) dn) = Ok auth" by simp
  then show "auth = Some m \<Longrightarrow> (if dn = Available then m = DeterminateNixd
    else \<exists>p. m = Netrc_File p \<and> flakehub_api_server_netrc a = Some p)"
    unfolding flakehub_auth_method_result by (cases dn) (auto split: if_splits option.splits)
qed

lemma setup_flakehub_OkD:
  assumes "setup_flakehub env a e auth s = (Ok fh, t)"
    and "contents s (opt_nix_conf a) = Some c" and "\<And>p. auth = Some (Netrc_File p) \<Longrightarrow> p \<noteq> opt_nix_conf a"
  shows "contents t (opt_nix_conf a) = Some (c @ (case auth of
            Some (Netrc_File p) \<Rightarrow> if fh then flakehub_conf_lines (opt_flakehub_cache_server a) (Netrc_File p) else []
          | _ \<Rightarrow> [])) \<and> (auth = None \<longrightarrow> \<not> fh)"
proof (cases auth)
  case None
  with assms(1,2) show ?thesis by (simp add: setup_flakehub_def)
next
  case (Some m)
  obtain r u where i: "init_cache (flakehub_env.truncate env) e (opt_flakehub_api_server a)
      (opt_flakehub_cache_server a) (opt_flakehub_flake_name a) m s = (r, u)" by fastforce
  have "as_path_buf m \<noteq> opt_nix_conf a \<or> m = DeterminateNixd"
    using assms(3) Some by (cases m) auto
  from keepsD [OF init_cache_same [OF this] i] assms(2) have u: "contents u (opt_nix_conf a) = Some c"
    by (simp add: same_def)
  show ?thesis
  proof (cases r)
    case (Ok n)
    show ?thesis
    proof (cases m)
      case DeterminateNixd
      with assms(1) Some i Ok u show ?thesis by (simp add: setup_flakehub_def)
    next
      case (Netrc_File p)
      with assms(1) Some i Ok u show ?thesis
        by (auto simp: setup_flakehub_def dest!: and_then_OkD intro: append_conf_OkD)
    qed
  next
    case (Err er)
    with assms(1) Some i u show ?thesis
      by (cases m) (auto simp: setup_flakehub_def print_unauthenticated_error_def contents_def)
  next
    case (Panic pm)
    with assms(1) Some i show ?thesis by (simp add: setup_flakehub_def)
  qed
qed

lemma set_fact_then:
  "and_then (set_fact n v) k s = k () (s\<lparr>recorded := recorded s @ [(n, Fact_Text v)]\<rparr>)"
  by (simp add: set_fact_def)

lemma contents_recorded [simp]: "contents (s\<lparr>recorded := fs\<rparr> :: 'w host) = contents s"
  by (simp add: contents_def fun_eq_iff)

definition flakehub_lines :: "cli_args \<Rightarrow> dnixd \<Rightarrow> bool \<Rightarrow> string" where
  "flakehub_lines a dn fh =
     (case flakehub_api_server_netrc a of
        Some p \<Rightarrow> if fh \<and> dn = Missing
                  then flakehub_conf_lines (opt_flakehub_cache_server a) (Netrc_File p) else []
      | None \<Rightarrow> [])"

lemma startup_caches_OkD:
  assumes run: "startup_caches env a e addr dn s = (Ok (fh, cl), t)"
    and c: "contents s (opt_nix_conf a) = Some c"
    and netrc: "flakehub_api_server_netrc a \<noteq> Some (opt_nix_conf a)"
  shows "contents t (opt_nix_conf a) =
    Some (c @ flakehub_lines a dn fh @ (if cl = None then [] else gha_conf_line addr))"
proof -
  let ?p = "opt_nix_conf a"
  from run obtain u1 u2 s3 s5 auth where
    ch: "choose_auth env a dn u1 = (Ok auth, s3)" and u1: "contents u1 = contents s"
    and fl: "setup_flakehub env a e auth u2 = (Ok fh, s5)" and u2: "contents u2 = contents s3"
    and gh: "setup_gha env a addr fh (s5\<lparr>recorded := recorded s5 @ [(''github_action_cache_option'',
        Fact_Text (trinary_debug (github_cache_preference (args.truncate a))))]\<rparr>) = (Ok cl, t)"
    unfolding startup_caches_def set_fact_then
    by (clarsimp dest!: and_then_OkD)
  from keepsD [OF choose_auth_same ch] have "contents u2 ?p = Some c"
    using u1 u2 c by (simp add: same_def)
  note setup_flakehub_OkD [OF fl this]
  moreover have "auth = Some (Netrc_File q) \<Longrightarrow> q \<noteq> ?p \<and> dn = Missing \<and> flakehub_api_server_netrc a = Some q" for q
    using choose_auth_OkD [OF ch, of "Netrc_File q"] netrc by (cases dn) auto
  moreover have "dn = Missing \<Longrightarrow> fh \<Longrightarrow> \<exists>q. auth = Some (Netrc_File q)"
    using choose_auth_OkD [OF ch] calculation(1) by (cases auth) auto
  ultimately have "contents s5 ?p = Some (c @ flakehub_lines a dn fh)"
    by (cases auth; cases "the auth"; cases dn; cases fh) (auto simp: flakehub_lines_def split: option.splits)
  then show ?thesis
    using setup_gha_OkD(3) [OF gh] by auto
qed

lemma nix_conf_lines:
  assumes run: "main_startup env a s = (Ok l, t)"
    and log: "debug_logfile env \<noteq> opt_nix_conf a"
    and noti: "opt_startup_notification_file a \<noteq> Some (opt_nix_conf a)"
    and temp: "\<And>w. fst (temp_name env ''magic-nix-cache-build-hook-'' w) \<noteq> opt_nix_conf a"
    and netrc: "flakehub_api_server_netrc a \<noteq> Some (opt_nix_conf a)"
  shows "\<exists>script. contents t (opt_nix_conf a) =
    Some (old_text s (opt_nix_conf a) @ fallback_line @ flakehub_lines a (l_dnixd l) (l_flakehub l)
          @ (if gha_api (l_config l) = None then [] else gha_conf_line (l_address l))
          @ (if l_dnixd l = Available then [] else hook_conf_line script))"
  using run
proof (rule main_startup_OkD)
  let ?p = "opt_nix_conf a"
  fix lg s1 addr now dn s2 fh cl s3
  assume i: "init_logging env s = (Ok lg, s1)"
    and p: "startup_prepare env a (determine (vars env)) s1 = (Ok (addr, now, dn), s2)"
    and c: "startup_caches env a (determine (vars env)) addr dn s2 = (Ok (fh, cl), s3)"
    and an: "startup_announce env a addr dn s3 = (Ok (), t)"
    and l: "l = \<lparr>l_config = \<lparr>gha_api = cl, upstream = opt_upstream a, diff_store = opt_diff_store a, logfile = lg\<rparr>,
              l_flakehub = fh, l_dnixd = dn, l_address = addr, l_started = now\<rparr>"
  let ?text = "old_text s ?p @ fallback_line @ flakehub_lines a dn fh @ (if cl = None then [] else gha_conf_line addr)"
  have s3: "contents s3 ?p = Some ?text"
    using startup_caches_OkD [OF c startup_prepare_OkD [OF p] netrc]
      old_text_same [OF keepsD [OF init_logging_grows [OF log] i]] by simp
  from an obtain s4 s5 where
    h: "(if dn = Available then return_ok () else setup_legacy_post_build_hook env addr ?p) s3 = (Ok (), s4)"
    and u: "notify_url env (json_address env addr) (opt_startup_notification_url a) s4 = (Ok (), s5)"
    and f: "notify_file (json_address env addr) (opt_startup_notification_file a) s5 = (Ok (), t)"
    unfolding startup_announce_def by (fastforce dest!: and_then_OkD)
  have "contents t ?p = contents s4 ?p"
    using keepsD [OF notify_url_same u] keepsD [OF notify_file_same [OF noti] f] by (simp add: same_def)
  moreover have "\<exists>script. contents s4 ?p = Some (?text @ (if dn = Available then [] else hook_conf_line script))"
  proof (cases "dn = Available")
    case False
    with h have "setup_legacy_post_build_hook env addr ?p s3 = (Ok (), s4)" by simp
    then show ?thesis using temp
    proof (cases rule: setup_hook_cases)
      case (written script v)
      from write_all_OkD [OF with_context_OkD [OF written(2)]] written(1) s3 False show ?thesis
        by (auto simp: same_def)
    qed simp_all
  qed (use h s3 in simp)
  ultimately obtain script where
    "contents t ?p = Some (?text @ (if dn = Available then [] else hook_conf_line script))" by auto
  then show ?thesis by (intro exI [of _ script]) (simp only: l launched.simps server_config.simps append_assoc)
qed

section \<open>The report of a whole run\<close>

lemma send_report_balanced: "counts_balanced (send_report now m) = counts_balanced m"
  by (cases "start_time m"; cases "recorder m") (simp_all add: send_report_def counts_balanced_def Let_def)

lemma send_report_flag: "tripped_429 (send_report now m) = tripped_429 m"
  by (cases "start_time m"; cases "recorder m") (simp_all add: send_report_def Let_def)

text \<open>What is relied on of axum: it changes the server only by handing it events.\<close>

definition serves_events :: "'w host_env \<Rightarrow> (server_config \<Rightarrow> 'w server \<Rightarrow> (io_error + unit) \<times> 'w server) \<Rightarrow> bool" where
  "serves_events env run_server \<longleftrightarrow>
     (\<forall>cfg s. server_reachable (server_env.truncate env) cfg s
        \<longrightarrow> server_reachable (server_env.truncate env) cfg (snd (run_server cfg s)))"

text \<open>The server never takes the recorder away, so its last report reaches it.\<close>

definition has_recorder :: "'w server \<Rightarrow> bool" where
  "has_recorder s \<longleftrightarrow> recorder (cb_state s) \<noteq> None"

lemma client_has_recorder:
  "client_evolves a s t \<Longrightarrow> breaker_callback a = mark_tripped \<Longrightarrow> has_recorder s \<Longrightarrow> has_recorder t"
  by (drule (1) client_evolves_mark_tripped) (auto simp: has_recorder_def mark_tripped_def)

interpretation sending: counting_invariant has_recorder
  by unfold_locales (blast intro: client_has_recorder | simp add: has_recorder_def worker_stop_def)+

lemma main_cli_report:
  assumes run: "main_cli env a run_server s = (r, rep, t)" and "serves_events env run_server"
  shows "case rep of
      Some m \<Rightarrow> is_ok (fst (main_startup env a s)) \<and> counts_balanced m
        \<and> (\<exists>earlier. recorder m = Some (earlier @ report_facts m))
    | None \<Rightarrow> \<not> is_ok (fst (main_startup env a s)) \<and> \<not> is_ok r"
proof -
  obtain r0 u where st: "main_startup env a s = (r0, u)" by fastforce
  show ?thesis
  proof (cases r0)
    case (Ok l)
    obtain ret v where rs: "run_server (l_config l) (first_state env l u) = (ret, v)" by fastforce
    obtain now w where ck: "clock env (ext v) = (now, w)" by fastforce
    have "server_reachable (server_env.truncate env) (l_config l) (first_state env l u)"
      unfolding first_state_def by (rule server_reachable.started)
    with assms(2) rs have reach: "server_reachable (server_env.truncate env) (l_config l) v"
      unfolding serves_events_def by (metis snd_conv)
    from st Ok have fl: "flagging (l_config l)" by (auto intro: startup_config(3))
    have "has_recorder v"
      by (rule sending.reachable_invariant [OF fl _ reach]) (simp add: has_recorder_def startup_def new_report_def)
    then obtain early where "recorder (cb_state v) = Some early" by (auto simp: has_recorder_def)
    with reachable_invariants(1) [OF fl reach] run st Ok rs ck show ?thesis
      by (auto simp: main_cli_def send_report_balanced balanced_report_def send_report_recorder)
  qed (use run st in \<open>auto simp: main_cli_def\<close>)
qed

end
