(* ===== verification/RouteFacts.thy ===== *)
theory RouteFacts
  imports Routes ConfFacts
begin

text \<open>
  The daemon behind its HTTP interface: any sequence of requests, build events and turns of the worker
  is a run that \<open>main_cli\<close> may serve, and the executable run as the post-build hook reaches the
  daemon's queue through it.
\<close>

section \<open>Serving\<close>

datatype daemon_event =
    Http_Request verb string "(string \<times> string) list" reader
  | Build_Frame bytes
  | Upload_Turn

fun daemon_step :: "web \<Rightarrow> 'w server_env \<Rightarrow> server_config \<Rightarrow> daemon_event \<Rightarrow> 'w server \<Rightarrow> 'w server" where
  "daemon_step web env cfg (Http_Request v path hs body) s = snd (handle_request web env cfg v path hs body s)"
| "daemon_step web env cfg (Build_Frame frame) s = handle_event env cfg (Build_Event frame) s"
| "daemon_step web env cfg Upload_Turn s = handle_event env cfg Worker_Turn s"

text \<open>\<open>axum::serve\<close> for a given course of events and its outcome.\<close>

definition serve_events ::
  "web \<Rightarrow> 'w server_env \<Rightarrow> daemon_event list \<Rightarrow> io_error + unit \<Rightarrow> server_config \<Rightarrow> 'w server
     \<Rightarrow> (io_error + unit) \<times> 'w server" where
  "serve_events web env evs ret cfg s = (ret, fold (daemon_step web env cfg) evs s)"

lemma daemon_step_reachable:
  "server_reachable env cfg s \<Longrightarrow> server_reachable env cfg (daemon_step web env cfg ev s)"
proof (cases ev)
  case (Http_Request v path hs body)
  assume s: "server_reachable env cfg s"
  from handle_request_event [of web env cfg v path hs body s]
  show ?thesis
  proof
    assume "\<exists>e. snd (handle_request web env cfg v path hs body s) = handle_event env cfg e s"
    with s Http_Request show ?thesis by (auto intro: server_reachable.handled)
  qed (use s Http_Request in simp)
next
  case (Build_Frame frame)
  assume "server_reachable env cfg s"
  from server_reachable.handled [OF this, of "Build_Event frame"] Build_Frame show ?thesis by simp
next
  case Upload_Turn
  assume "server_reachable env cfg s"
  from server_reachable.handled [OF this, of Worker_Turn] Upload_Turn show ?thesis by simp
qed

lemma serve_events_serves: "serves_events env (serve_events web (server_env.truncate env) evs ret)"
proof -
  have "server_reachable (server_env.truncate env) cfg (fold (daemon_step web (server_env.truncate env) cfg) evs s)"
    if "server_reachable (server_env.truncate env) cfg s" for cfg s
    using that by (induction evs arbitrary: s) (simp_all add: daemon_step_reachable)
  then show ?thesis by (simp add: serves_events_def serve_events_def)
qed

section \<open>From the hook to the queue\<close>

text \<open>Run as the hook, the executable sends one request with exactly the paths of \<open>OUT_PATHS\<close>.\<close>

lemma hook_posts_out_paths:
  assumes "vars env ''OUT_PATHS'' = Some (join '' '' ps)" and "\<forall>p \<in> set ps. p \<noteq> [] \<and> no_white p"
  shows "main env a server run_server s =
    (case json_enqueue_request env ps of
       Inl e \<Rightarrow> (Err (With_Context ''Decoding the response from the magic-nix-cache server'' (Anyhow e)), None, s)
     | Inr body \<Rightarrow>
         (case http_send env plain_client (hook_request server body) (world s) of
            (answer, w) \<Rightarrow> (hook_response env answer, None, s\<lparr>world := w\<rparr>)))"
  using assms
  by (simp add: main_def handle_legacy_post_build_hook_def hook_paths_join with_context_def map_err_comp_def
      and_then_def split: sum.split prod.split)

text \<open>
  What is relied on of the HTTP client and the network: a request to the daemon's address is handled
  by it, with at least the headers and exactly the body sent, and its response comes back; when it
  gives none, the request fails.
\<close>

definition delivers ::
  "'v host_env \<Rightarrow> string
     \<Rightarrow> (verb \<Rightarrow> string \<Rightarrow> (string \<times> string) list \<Rightarrow> reader \<Rightarrow> 'v \<Rightarrow> daemon_response option \<times> 'v) \<Rightarrow> bool" where
  "delivers henv address handler \<longleftrightarrow>
     (\<forall>cl rq path b w. rq_url rq = ''http://'' @ address @ path \<longrightarrow> rq_body rq = Octets b \<longrightarrow>
        (\<exists>hs body. set (rq_headers rq) \<subseteq> set hs \<and> reader_content body = b \<and> reader_ending body = None
           \<and> (case handler (Verb (rq_method rq)) path hs body w of
                (Some r, w') \<Rightarrow> http_send henv cl rq w = (Inr \<lparr>rs_status = dr_status r, rs_body = Inr (dr_body r)\<rparr>, w')
              | (None, w') \<Rightarrow> \<exists>e. http_send henv cl rq w = (Inl e, w'))))"

text \<open>What is relied on of JSON: the daemon decodes what the hook has encoded, and the other way round.\<close>

definition json_agrees :: "web \<Rightarrow> 'v host_env \<Rightarrow> string list \<Rightarrow> bool" where
  "json_agrees web henv ps \<longleftrightarrow>
     (\<exists>json. json_enqueue_request henv ps = Inr json
        \<and> (\<forall>hs body. (''Content-Type'', ''application/json'') \<in> set hs \<longrightarrow> reader_content body = json
             \<longrightarrow> reader_ending body = None \<longrightarrow> extract_enqueue_paths web hs body = Inr ps))
     \<and> json_enqueue_response henv (json_enqueue_paths web) = Inr ()"

lemma enqueue_endpoint: "endpoint_of ''/api/enqueue-paths'' = Some At_Enqueue_Paths"
  by code_simp

lemma response_status_failure: "\<not> is_success (response_status e)"
  by (cases e rule: response_status.cases)
     (simp_all add: is_success_def TOO_MANY_REQUESTS_def IM_A_TEAPOT_def NOT_FOUND_def BAD_REQUEST_def
       INTERNAL_SERVER_ERROR_def)

lemma hook_reaches_queue:
  fixes henv :: "'w server host_env"
  assumes "delivers henv address (handle_request web env cfg)" and "json_agrees web henv ps"
    and "\<forall>p \<in> set ps. p \<noteq> [] \<and> no_white p"
  shows "\<exists>r. handle_legacy_post_build_hook henv address (join '' '' ps) s
      = (r, s\<lparr>world := snd (post_enqueue_paths env cfg ps (world s))\<rparr>)
    \<and> (is_ok r \<longleftrightarrow> is_ok (fst (post_enqueue_paths env cfg ps (world s))))"
proof -
  from assms(2) obtain json where json: "json_enqueue_request henv ps = Inr json"
    and decode: "\<And>hs body. (''Content-Type'', ''application/json'') \<in> set hs \<Longrightarrow> reader_content body = json
      \<Longrightarrow> reader_ending body = None \<Longrightarrow> extract_enqueue_paths web hs body = Inr ps"
    and resp: "json_enqueue_response henv (json_enqueue_paths web) = Inr ()"
    by (auto simp: json_agrees_def)
  let ?rq = "hook_request address json"
  have rq: "rq_url ?rq = ''http://'' @ address @ ''/api/enqueue-paths''" "rq_body ?rq = Octets json"
    "rq_method ?rq = POST" "rq_headers ?rq = [(''Content-Type'', ''application/json'')]"
    by (simp_all add: hook_request_def)
  obtain hs body where hs: "set (rq_headers ?rq) \<subseteq> set hs" and body: "reader_content body = json" "reader_ending body = None"
    and sent: "case handle_request web env cfg (Verb POST) ''/api/enqueue-paths'' hs body (world s) of
        (Some r, w') \<Rightarrow> http_send henv plain_client ?rq (world s) = (Inr \<lparr>rs_status = dr_status r, rs_body = Inr (dr_body r)\<rparr>, w')
      | (None, w') \<Rightarrow> \<exists>e. http_send henv plain_client ?rq (world s) = (Inl e, w')"
    using assms(1) [unfolded delivers_def, rule_format, OF rq(1,2), of "plain_client" "world s"] rq(3) by auto
  have ex: "extract_enqueue_paths web hs body = Inr ps" using decode hs body rq(4) by simp
  obtain r t where run: "post_enqueue_paths env cfg ps (world s) = (r, t)" by fastforce
  have "handle_request web env cfg (Verb POST) ''/api/enqueue-paths'' hs body (world s)
      = (respond web (\<lambda>_. json_text (json_enqueue_paths web)) r, t)"
    using run by (simp add: handle_request_def enqueue_endpoint ex reply_def)
  with sent run json resp hook_paths_join [OF assms(3)] show ?thesis
    by (cases r)
       (auto simp: handle_legacy_post_build_hook_def with_context_def map_err_comp_def and_then_def
         hook_response_def json_text_def is_success_def into_response_def plain_text_def
         response_status_failure [unfolded is_success_def])
qed

end
