(* ===== verification/ManifestTypes.thy ===== *)
theory ManifestTypes
  imports Manifest
begin

text \<open>
  Which values have a text in the Nix manifest format: a type system for the serde data model. A
  value is judged with the knowledge whether a map is already open (\<open>seen\<close>); scalars fit always, one
  map or struct fits where none is open, with values that fit inside it. Options and newtypes are
  transparent, an absent option does not fit.
\<close>

function (sequential) fits :: "bool \<Rightarrow> sval \<Rightarrow> bool"
  and fits_entries :: "(sval \<times> sval) list \<Rightarrow> bool"
  and fits_fields :: "(string \<times> sval) list \<Rightarrow> bool"
where
  "fits seen (VSome v) = fits seen v"
| "fits seen (VNewtypeStruct n v) = fits seen v"
| "fits seen (VMap es) = (\<not> seen \<and> fits_entries es)"
| "fits seen (VStruct n fs) = (\<not> seen \<and> fits_fields fs)"
| "fits seen (VBytes v) = False"
| "fits seen VNone = False"
| "fits seen VUnit = False"
| "fits seen (VUnitStruct n) = False"
| "fits seen (VNewtypeVariant n variant v) = False"
| "fits seen (VSeq vs) = False"
| "fits seen (VTuple vs) = False"
| "fits seen (VTupleStruct n vs) = False"
| "fits seen (VTupleVariant n variant vs) = False"
| "fits seen (VStructVariant n variant fs) = False"
| "fits seen (VCustomError msg) = False"
| "fits seen scalar = True"
| "fits_entries [] = True"
| "fits_entries ((k, v) # es) = (fits True k \<and> fits True v \<and> fits_entries es)"
| "fits_fields [] = True"
| "fits_fields ((k, v) # fs) = (fits True v \<and> fits_fields fs)"
  by pat_completeness auto
termination
  by (relation "measure (case_sum (size \<circ> snd)
        (case_sum (size_list (size_prod size size))
                  (size_list (size_prod (\<lambda>_. 0) size))))") simp_all

lemma push_str_run: "push_str v s = (Ok (), s\<lparr>out := out s @ v\<rparr>)"
  by (simp add: push_str_def)

lemma serialize_seen:
  "serialize fe v s = (r, t) \<Longrightarrow> seen_map s \<Longrightarrow> seen_map t"
  "ser_entries fe es s = (r, t) \<Longrightarrow> seen_map s \<Longrightarrow> seen_map t"
  "ser_fields fe fs s = (r, t) \<Longrightarrow> seen_map s \<Longrightarrow> seen_map t"
  using keepsD [OF serialize_appends(1)] keepsD [OF serialize_appends(2)] keepsD [OF serialize_appends(3)]
  by (blast | metis extends_output_def)+

lemma is_ok_and_then:
  "is_ok (fst (and_then m f s)) \<longleftrightarrow> (\<exists>a t. m s = (Ok a, t) \<and> is_ok (fst (f a t)))"
  by (auto simp: and_then_def split: prod.splits result.splits)

lemma is_okE: "is_ok (fst x) \<longleftrightarrow> (\<exists>a t. x = (Ok a, t))"
  by (cases x; cases "fst x") auto

lemma and_then_ok_iff:
  assumes "is_ok (fst (m s)) = P" and "\<And>a t. m s = (Ok a, t) \<Longrightarrow> is_ok (fst (f a t)) = Q"
  shows "is_ok (fst (and_then m f s)) = (P \<and> Q)"
proof -
  obtain r t where m: "m s = (r, t)" by fastforce
  with assms show ?thesis by (cases r) auto
qed

text \<open>Serializing succeeds exactly on the values that fit.\<close>

lemma serialize_ok_iff:
  "is_ok (fst (serialize fe v s)) = fits (seen_map s) v"
  "seen_map s \<Longrightarrow> is_ok (fst (ser_entries fe es s)) = fits_entries es"
  "seen_map s \<Longrightarrow> is_ok (fst (ser_fields fe fs s)) = fits_fields fs"
proof (induction fe v and fe es and fe fs arbitrary: s and s and s
    rule: serialize_ser_entries_ser_fields.induct)
  case (26 fe es)
  then show ?case
    by (simp only: serialize.simps is_ok_and_then) (auto simp: serialize_map_def push_str_run is_okE)
next
  case (27 fe n fs)
  then show ?case
    by (simp only: serialize.simps is_ok_and_then) (auto simp: serialize_map_def is_okE)
next
  case (31 fe k v es)
  have "is_ok (fst (and_then (push_str '': '') (\<lambda>_. and_then (serialize fe v) (\<lambda>_. ser_entries fe es)) t))
      = (fits True v \<and> fits_entries es)"
    if k: "serialize fe k s = (Ok a, t)" for a t
  proof -
    let ?t = "t\<lparr>out := out t @ '': ''\<rparr>"
    have "is_ok (fst (and_then (serialize fe v) (\<lambda>_. ser_entries fe es) ?t)) = (fits True v \<and> fits_entries es)"
    proof (rule and_then_ok_iff)
      show "is_ok (fst (serialize fe v ?t)) = fits True v"
        using 31 serialize_seen(1) [OF k] by simp
      show "is_ok (fst (ser_entries fe es u)) = fits_entries es" if "serialize fe v ?t = (Ok b, u)" for b u
        using 31 serialize_seen(1) [OF k] serialize_seen(1) [OF that] by simp
    qed
    then show ?thesis by (simp add: push_str_run)
  qed
  moreover have "is_ok (fst (serialize fe k s)) = fits True k" using 31 by simp
  ultimately show ?case
    unfolding ser_entries.simps fits_entries.simps by (rule and_then_ok_iff [rotated]) assumption+
next
  case (33 fe k v fs)
  let ?s = "s\<lparr>out := (out s @ k) @ '': ''\<rparr>"
  have "is_ok (fst (and_then (serialize fe v) (\<lambda>_. and_then (push_str ''\<newline>'') (\<lambda>_. ser_fields fe fs)) ?s))
      = (fits True v \<and> fits_fields fs)"
  proof (rule and_then_ok_iff)
    show "is_ok (fst (serialize fe v ?s)) = fits True v" using 33 by simp
    show "is_ok (fst (and_then (push_str ''\<newline>'') (\<lambda>_. ser_fields fe fs) t)) = fits_fields fs"
      if "serialize fe v ?s = (Ok a, t)" for a t
      using 33 serialize_seen(1) [OF that] by (simp add: push_str_run)
  qed
  then show ?case by (simp add: push_str_run serialize_str_def)
qed (auto simp: scalar_defs push_str_run)

lemma manifest_to_string_iff: "(\<exists>text. manifest_to_string fe v = Ok text) \<longleftrightarrow> fits False v"
proof -
  have "(\<exists>text. manifest_to_string fe v = Ok text) \<longleftrightarrow> is_ok (fst (serialize fe v new_serializer))"
    by (auto simp: manifest_to_string_def is_okE split: prod.splits result.splits)
  then show ?thesis by (simp add: serialize_ok_iff(1) new_serializer_def)
qed

end
