(* ===== verification/HostDemo.thy ===== *)
theory HostDemo
  imports Demo RouteFacts ManifestTypes
begin

text \<open>
  A concrete machine for the startup and token refresh properties: the demonstration server with a
  netrc parser that takes the whole text for the password of one machine, a service that answers
  token requests with the scripted bodies, and a disk with a netrc and determinate-nixd's files.
\<close>

definition demo_flake :: "script flakehub_env" where
  "demo_flake = server_env.extend demo_server (flakehub_env.fields
     [''ACTIONS_ID_TOKEN_REQUEST_TOKEN'' \<mapsto> ''t'', ''ACTIONS_ID_TOKEN_REQUEST_URL'' \<mapsto> ''http://id'',
      ''ACTIONS_CACHE_URL'' \<mapsto> ''http://cache'', ''ACTIONS_RESULTS_URL'' \<mapsto> ''http://results/'',
      ''ACTIONS_RUNTIME_TOKEN'' \<mapsto> ''t'', ''ACTIONS_CACHE_SERVICE_V2'' \<mapsto> '''']
     (\<lambda>n. ''environment variable not found'')
     (\<lambda>t. Inr [\<lparr>m_name = Some ''api'', m_login = Some ''l'', m_password = Some t\<rparr>])
     Some (\<lambda>u p. Inr (u @ ''/'' @ p)) (\<lambda>l p. l @ p) (\<lambda>u t. Inr ()) (\<lambda>t w. (Inr (), w))
     (\<lambda>t n w. (Inr (), w)) (\<lambda>b. b) (\<lambda>b. Inr (''org'', ''project'')) Inr (\<lambda>p. p))"

definition demo_host :: "script host_env" where
  "demo_host = flakehub_env.extend demo_flake (host_env.fields
     (\<lambda>t. Inr \<lparr>event = \<lparr>repository = \<lparr>owner = \<lparr>login = ''me'', kind = ''User''\<rparr>\<rparr>\<rparr>\<rparr>)
     (\<lambda>ps. Inr (join '','' ps)) (\<lambda>b. Inr ()) dec_nat ''/tmp'' (\<lambda>p w. (''/tmp/hook'', w))
     (Inr ''/bin/mnc'') (\<lambda>as w. (Inr (True, ''/nix/store/hook''), w))
     (\<lambda>p w. (True, w)) (\<lambda>w. (True, w)) True (\<lambda>w. (Inr [], w))
     (\<lambda>l w. (Inr l, w)) (\<lambda>w. (Inr (), w)) (\<lambda>w. (0, w)) (\<lambda>a. a))"

lemmas demo_host_defs = demo_host_def demo_flake_def server_env.extend_def flakehub_env.extend_def
  flakehub_env.fields_def host_env.fields_def flakehub_env.truncate_def server_env.truncate_def
  gha_env.truncate_def

definition demo_file :: "string \<Rightarrow> 64 word \<Rightarrow> file_node" where
  "demo_file c i = \<lparr>content = c, inode = i, mode = 0\<rparr>"

definition demo_machine :: "script \<Rightarrow> script host" where
  "demo_machine w =
     \<lparr> files = [''/n'' \<mapsto> demo_file ''old'' 1, DETERMINATE_NETRC_PATH \<mapsto> demo_file ''old'' 2,
                dnixd_socket \<mapsto> demo_file '''' 3],
       created = 0, inodes = (\<lambda>n. of_nat (n + 10)), create_mode = 0, faults = [],
       recorded = [], stdout = [], sleeps = [], spawned = No_Refresh, api_token = '''', world = w \<rparr>"

lemma demo_paths:
  "DETERMINATE_NETRC_PATH = ''/nix/var/determinate/netrc''"
  "dnixd_socket = ''/nix/var/determinate/determinate-nixd.socket''"
  by code_simp+

lemma demo_machine_fields [simp]:
  "files (demo_machine w) ''/n'' = Some (demo_file ''old'' 1)"
  "files (demo_machine w) DETERMINATE_NETRC_PATH = Some (demo_file ''old'' 2)"
  "faults (demo_machine w) = []" "world (demo_machine w) = w" "files ((demo_machine w)\<lparr>api_token := k\<rparr>) = files (demo_machine w)"
  "contents (demo_machine w) ''/n'' = Some ''old''" "contents (demo_machine w) ''/c'' = None"
  by (simp_all add: demo_machine_def demo_paths contents_def demo_file_def)

definition demo_token :: "string \<Rightarrow> http_response" where
  "demo_token k = \<lparr>rs_status = 200, rs_body = Inr k\<rparr>"

lemma demo_flake_fields [simp]:
  "http_send demo_flake = http_send demo_server" "netrc_parse demo_flake t =
     Inr [\<lparr>m_name = Some ''api'', m_login = Some ''l'', m_password = Some t\<rparr>]"
  "url_host demo_flake = Some" "url_join demo_flake u p = Inr (u @ ''/'' @ p)"
  "api_client_new demo_flake u t = Inr ()" "accept_token demo_flake t w = (Inr (), w)"
  "get_cache_config demo_flake t n w = (Inr (), w)" "json_token demo_flake = Inr"
  "json_project_info demo_flake b = Inr (''org'', ''project'')" "basic_auth demo_flake l p = l @ p"
  "vars demo_flake ''ACTIONS_ID_TOKEN_REQUEST_TOKEN'' = Some ''t''"
  "vars demo_flake ''ACTIONS_ID_TOKEN_REQUEST_URL'' = Some ''http://id''"
  by (simp_all add: demo_flake_def server_env.extend_def flakehub_env.fields_def demo_server_def)

lemma demo_host_flake [simp]: "flakehub_env.truncate demo_host = demo_flake"
  by (simp add: demo_host_defs)

lemma demo_host_server [simp]: "server_env.truncate demo_host = demo_server"
  "gha_env.truncate demo_host = demo_env"
  by (simp_all add: demo_host_defs demo_env_def)

lemma reports_passwords_demo: "reports_passwords demo_flake"
  by (auto simp: reports_passwords_def contains_str_iff intro: exI [of _ "[]"])

section \<open>Refreshing\<close>

lemma tmp_demo: "with_extension ''/n'' ''tmp'' = ''/n.tmp''"
  by code_simp

lemma demo_rewrite:
  assumes "faults s = []" and "files s ''/n'' = Some (demo_file c i)" and "utf8_valid c"
    and "world s = demo_token k # w"
  shows "\<exists>t. rewrite_github_actions_token demo_flake cl ''/n'' j s = (Ok k, t)
    \<and> contents t ''/n'' = Some (str_replace j k c)"
proof -
  let ?s = "s\<lparr>world := w\<rparr>"
  have rq: "request_token demo_flake cl s = (Ok k, ?s)"
    using assms(4)
    by (simp add: request_token_def env_var_def http_request_of_def on_world_def map_err_comp_def
        demo_token_def token_of_response_def Let_def)
  have "\<exists>t. replace_in_netrc demo_flake ''/n'' j k ?s = (Ok (), t) \<and> contents t ''/n'' = Some (str_replace j k c)"
    using assms(1-3)
    by (auto simp: replace_in_netrc_def Let_def tmp_demo read_to_string_def open_read_def read_string_def
        write_file_def open_write_def write_all_def buffered_write_def rename_file_def map_err_comp_def contents_def
        demo_file_def and_then_def create_node_def append_bytes_def split: option.split)
  with rq show ?thesis by (auto simp: rewrite_github_actions_token_def and_then_def)
qed

lemma demo_init:
  "\<exists>t c. init_cache demo_flake GitHubActions ''api'' ''cache'' None (Netrc_File ''/n'')
         (demo_machine (demo_token ''ok'' # w)) = (Ok ''org:project'', t)
     \<and> spawned t = Refresh_GitHub ''/n'' ''old'' \<and> faults t = [] \<and> world t = w
     \<and> files t ''/n'' = Some (demo_file c 1) \<and> utf8_valid c"
proof -
  have [simp]: "utf8_valid ''old''" "utf8_valid (''old'' @ netrc_entry \<lparr>ni_machines =
      [\<lparr>m_name = Some ''api'', m_login = Some ''l'', m_password = Some ''old''\<rparr>], ni_cache_host = ''cache'',
      ni_login = ''l'', ni_password = ''old''\<rparr>)"
    by code_simp+
  show ?thesis
    by (simp add: init_cache_def extract_info_from_netrc_def open_read_def read_string_def
        netrc_info_of_def find_machine_def append_cache_entry_def open_write_def write_all_def buffered_write_def
        start_refresh_def spawn_refresh_def fetch_cache_name_def project_url_def http_request_of_def
        project_response_def on_world_def map_err_comp_def and_then_def contents_def demo_machine_def
        demo_file_def demo_token_def is_success_def append_bytes_def demo_paths
        exI [of _ "''old'' @ netrc_entry _"] del: append.simps append_Cons)
qed

text \<open>A file of determinate-nixd, and what the task does with it.\<close>

lemma demo_token_in: "utf8_valid c \<Longrightarrow> token_in demo_flake ''api'' ''cache'' c = Some c"
  by (simp add: token_in_def netrc_info_of_def find_machine_def)

lemma demo_init_determinate:
  "\<exists>t. init_cache demo_flake Other ''api'' ''cache'' None DeterminateNixd
         (demo_machine [demo_token ''ok'']) = (Ok ''org:project'', t)
     \<and> spawned t = Refresh_Determinate DETERMINATE_NETRC_PATH 2 \<and> faults t = [] \<and> files t = files (demo_machine [])"
proof -
  have [simp]: "utf8_valid ''old''" by code_simp
  show ?thesis
    by (simp add: init_cache_def extract_info_from_netrc_def open_read_def read_string_def
        netrc_info_of_def find_machine_def append_cache_entry_def file_inode_def as_path_buf_determinate
        start_refresh_def spawn_refresh_def fetch_cache_name_def project_url_def http_request_of_def
        project_response_def on_world_def map_err_comp_def and_then_def contents_def demo_machine_def
        demo_file_def demo_token_def is_success_def append_bytes_def demo_paths del: as_path_buf.simps)
qed

section \<open>Starting up\<close>

definition demo_args :: cli_args where
  "demo_args =
     \<lparr> use_gha_cache = Some None, use_flakehub = Some (Some Disabled), flakehub_api_server_netrc = None,
       opt_listen = ''localhost:3000'', opt_cache_version = None, opt_upstream = Some ''http://up'',
       opt_flakehub_api_server = ''api'', opt_flakehub_cache_server = ''cache'',
       opt_flakehub_flake_name = None, opt_nix_conf = ''/c'', opt_startup_notification_url = None,
       opt_startup_notification_file = Some ''/started'', opt_diff_store = False \<rparr>"

lemma demo_host_fields [simp]:
  "tcp_bind demo_host l w = (Inr l, w)" "store_connect demo_host w = (Inr (), w)"
  "clock demo_host w = (0, w)" "json_address demo_host a = a"
  "temp_name demo_host p w = (''/tmp/hook'', w)" "http_send demo_host = http_send demo_server"
  "json_enqueue_request demo_host ps = Inr (join '','' ps)" "temp_dir demo_host = ''/tmp''"
  "vars demo_host = vars demo_flake"
  by (simp_all add: demo_host_defs demo_server_def)

lemma demo_vars:
  "vars demo_flake n =
     (if n = ''ACTIONS_CACHE_SERVICE_V2'' then Some '''' else if n = ''ACTIONS_RUNTIME_TOKEN'' then Some ''t''
      else if n = ''ACTIONS_RESULTS_URL'' then Some ''http://results/'' else if n = ''ACTIONS_CACHE_URL'' then Some ''http://cache''
      else if n = ''ACTIONS_ID_TOKEN_REQUEST_URL'' then Some ''http://id''
      else if n = ''ACTIONS_ID_TOKEN_REQUEST_TOKEN'' then Some ''t'' else None)"
  by (simp add: demo_flake_def server_env.extend_def flakehub_env.fields_def)

lemma demo_gha_client: "\<exists>cl. gha_client demo_host c None = Ok cl"
proof -
  have "twirp_new demo_env u cl = Inr \<lparr>tw_base_url = u, tw_http = cl\<rparr>" for u cl
    by (simp add: demo_simps)
  then show ?thesis by (simp add: gha_client_def api_new_def)
qed

lemma demo_startup:
  "\<exists>l t. main_startup demo_host demo_args (demo_machine []) = (Ok l, t)
     \<and> l_dnixd l = Available \<and> gha_api (l_config l) \<noteq> None \<and> \<not> l_flakehub l \<and> l_address l = ''localhost:3000''"
proof -
  have env: "determine (vars demo_flake) = Other"
    by (simp add: determine_def env_var_is_true_def demo_vars)
  have log: "init_logging demo_host (demo_machine []) = (Ok None, demo_machine [])"
    by (simp add: init_logging_def debug_requested_def demo_vars)
  have args: "flakehub_preference (args.truncate demo_args) = Disabled"
    "github_cache_preference (args.truncate demo_args) = Enabled"
    "validate (args.truncate demo_args) Other = Ok ()"
    by (simp_all add: demo_args_def args.truncate_def flakehub_preference_def github_cache_preference_def validate_def)
  have prep: "\<exists>s. startup_prepare demo_host demo_args Other (demo_machine []) = (Ok (''localhost:3000'', 0, Available), s)
      \<and> faults s = [] \<and> world s = []"
    using args
    by (simp add: startup_prepare_def set_fact_def on_world_def map_err_comp_def read_clock_def path_exists_def
        file_inode_def open_nix_conf_def create_dir_all_def append_conf_def with_context_def open_write_def
        write_all_def buffered_write_def and_then_def demo_machine_def demo_args_def has_parent_def demo_paths create_node_def
        append_bytes_def)
  then obtain s where s: "startup_prepare demo_host demo_args Other (demo_machine []) = (Ok (''localhost:3000'', 0, Available), s)"
    "faults s = []" "world s = []" by blast
  obtain cl where cl: "gha_client demo_host \<lparr>cache_url = ''http://cache'', results_url = ''http://results/'',
      runtime_token = ''t'', service_v2 = ''''\<rparr> None = Ok cl"
    using demo_gha_client by blast
  have "\<exists>t. startup_caches demo_host demo_args Other ''localhost:3000'' Available s = (Ok (False, Some cl), t) \<and> faults t = []"
    using args s(2) cl
    by (simp add: startup_caches_def set_fact_def choose_auth_def setup_flakehub_def setup_gha_def
        uses_gha_cache_def load_from_env_def demo_vars with_context_def map_err_comp_def append_conf_def
        write_all_def buffered_write_def append_bytes_def demo_args_def and_then_def)
  then obtain t where t: "startup_caches demo_host demo_args Other ''localhost:3000'' Available s = (Ok (False, Some cl), t)"
    "faults t = []" by blast
  then have "\<exists>u. startup_announce demo_host demo_args ''localhost:3000'' Available t = (Ok (), u)"
    by (simp add: startup_announce_def notify_url_def notify_file_def demo_args_def create_dir_all_def
        with_context_def map_err_comp_def open_write_def write_all_def buffered_write_def and_then_def has_parent_def
        create_node_def append_bytes_def split: option.split)
  with env log s t show ?thesis by (auto simp: main_startup_def Let_def and_then_def)
qed

lemma demo_paths_of_run:
  "debug_logfile demo_host = ''/tmp/magic-nix-cache-tracing.log''"
  "opt_startup_notification_file demo_args = Some ''/started''" "opt_nix_conf demo_args = ''/c''"
  "flakehub_api_server_netrc demo_args = None"
  by (simp_all add: debug_logfile_def path_join_def demo_args_def)

lemma demo_hook_response: "json_enqueue_response demo_host b = Inr ()"
  by (simp add: demo_host_defs)

text \<open>
  A host with nothing but the network, and the daemon reached over it: the requests to its address
  are handled by it, with JSON arrays of paths written as the paths separated by spaces.
\<close>

definition bare_host ::
  "(string \<rightharpoonup> string) \<Rightarrow> (http_client \<Rightarrow> http_request \<Rightarrow> 'v \<Rightarrow> (string + http_response) \<times> 'v) \<Rightarrow> 'v host_env" where
  "bare_host vs net =
     \<lparr> http_send = net,
       twirp_create_cache_entry = (\<lambda>tw rq w. (Inl (Twirp_Other []), w)),
       twirp_finalize_cache_entry_upload = (\<lambda>tw rq w. (Inl (Twirp_Other []), w)),
       twirp_get_cache_entry_download_url = (\<lambda>tw rq w. (Inl (Twirp_Other []), w)),
       rand_alphanumeric = (\<lambda>w. (CHR ''r'', w)), header_value = Inr, client_build = Inr,
       twirp_new = (\<lambda>u cl. Inl u), url_parse = Inr, url_append_pair = (\<lambda>u k v. u @ k @ v),
       sha256 = (\<lambda>d. d), hex_encode = (\<lambda>d. d), bom_len = (\<lambda>d. 0), json_cache_entry = (\<lambda>d. Inl d),
       json_cache_id = (\<lambda>d. Inl d), json_error_message = (\<lambda>d. Inl d), nar_format = nar_format demo_server,
       query_path_info = (\<lambda>p w. (Inl p, w)), nar_from_path_zstd = (\<lambda>p w. (Slice p, w)), get_full_path = (\<lambda>p. p),
       store_path_hash = (\<lambda>p. p), hash_base32 = (\<lambda>h. h), compute_fs_closure_multi = (\<lambda>ps w. (Inr ps, w)),
       follow_store_path = (\<lambda>p w. (Inl p, w)), json_to_string = (\<lambda>j. None), store_dir = ''/nix/store'',
       read_store_dir = (\<lambda>w. (Inr [], w)), hash_order = (\<lambda>s. []), push_queue_many = (\<lambda>ps w. (Inr (), w)),
       push_session_wait = (\<lambda>w. (Inr [], w)), json_built_path = (\<lambda>d. Inl d), read_logfile = (\<lambda>f w. (Inr [], w)),
       vars = vs, var_error = (\<lambda>n. n), netrc_parse = (\<lambda>t. Inr []), url_host = Some, url_join = (\<lambda>u p. Inr (u @ p)),
       basic_auth = (\<lambda>l p. l @ p), api_client_new = (\<lambda>u t. Inr ()), accept_token = (\<lambda>t w. (Inr (), w)),
       get_cache_config = (\<lambda>t n w. (Inr (), w)), response_text = (\<lambda>b. b),
       json_project_info = (\<lambda>b. Inl b), json_token = Inr, debug_path = (\<lambda>p. p),
       json_workflow_data = (\<lambda>t. Inl t), json_enqueue_request = (\<lambda>ps. Inr (join '' '' ps)),
       json_enqueue_response = (\<lambda>b. if b = ''{}'' then Inr () else Inl b),
       status_text = dec_nat, temp_dir = ''/tmp'', temp_name = (\<lambda>p w. (p, w)), current_exe = Inr ''/bin/mnc'',
       run_nix = (\<lambda>as w. (Inr (False, []), w)), dnixd_connect = (\<lambda>p w. (False, w)), dnixd_handshake = (\<lambda>w. (False, w)),
       events_request = True, dnixd_subscribe = (\<lambda>w. (Inr [], w)), tcp_bind = (\<lambda>l w. (Inr l, w)),
       store_connect = (\<lambda>w. (Inr (), w)), clock = (\<lambda>w. (0, w)), json_address = (\<lambda>a. a) \<rparr>"

definition demo_web :: web where
  "demo_web =
     \<lparr> status_display = dec_nat, twirp_display = (\<lambda>e. ''twirp''), debug_str = (\<lambda>s. s), decode_param = Some,
       extract_enqueue_paths = (\<lambda>hs body. Inr (split_whitespace (reader_content body))),
       json_workflow_start = (\<lambda>n. ''{}''), json_workflow_finish = (\<lambda>r. ''{}''), json_enqueue_paths = ''{}'' \<rparr>"

definition to_daemon :: "server_config \<Rightarrow> http_client \<Rightarrow> http_request \<Rightarrow> script server \<Rightarrow> (string + http_response) \<times> script server" where
  "to_daemon cfg cl rq s =
     (case strip_prefix ''http://h'' (rq_url rq) of
        None \<Rightarrow> (Inl ''no such host'', s)
      | Some path \<Rightarrow>
          (case handle_request demo_web demo_server cfg (Verb (rq_method rq)) path (rq_headers rq)
                  (Slice (case rq_body rq of Octets b \<Rightarrow> b | _ \<Rightarrow> [])) s of
             (Some r, t) \<Rightarrow> (Inr \<lparr>rs_status = dr_status r, rs_body = Inr (dr_body r)\<rparr>, t)
           | (None, t) \<Rightarrow> (Inl ''connection closed'', t)))"

abbreviation "hook_host cfg vs \<equiv> bare_host vs (to_daemon cfg)"

lemma to_daemon_delivers: "delivers (hook_host cfg vs) ''h'' (handle_request demo_web demo_server cfg)"
  unfolding delivers_def
proof (intro allI impI)
  fix cl and rq :: http_request and path b w
  assume url: "rq_url rq = ''http://'' @ ''h'' @ path" and body: "rq_body rq = Octets b"
  have path: "strip_prefix ''http://h'' (rq_url rq) = Some path"
    by (simp add: url)
  show "\<exists>hs body. set (rq_headers rq) \<subseteq> set hs \<and> reader_content body = b \<and> reader_ending body = None
      \<and> (case handle_request demo_web demo_server cfg (Verb (rq_method rq)) path hs body w of
           (Some r, w') \<Rightarrow> http_send (hook_host cfg vs) cl rq w = (Inr \<lparr>rs_status = dr_status r, rs_body = Inr (dr_body r)\<rparr>, w')
         | (None, w') \<Rightarrow> \<exists>e. http_send (hook_host cfg vs) cl rq w = (Inl e, w'))"
    by (rule exI [of _ "rq_headers rq"], rule exI [of _ "Slice b"])
       (simp add: bare_host_def to_daemon_def path body split: prod.split option.split)
qed

lemma demo_json_agrees:
  "\<forall>p \<in> set ps. p \<noteq> [] \<and> no_white p \<Longrightarrow> json_agrees demo_web (hook_host cfg vs) ps"
  by (auto simp: json_agrees_def bare_host_def demo_web_def split_whitespace_join)

text \<open>A request to the daemon of the demonstration.\<close>

lemma demo_post:
  "post_enqueue_paths demo_server demo_config [''/nix/store/aa-x''] (demo_state w)
     = (Ok (), (demo_state w)\<lparr>channel := [Upload ''aa-x'']\<rparr>)"
proof -
  have "gha_enqueue_paths demo_server [''aa-x''] (demo_state w)
      = (Ok (), (demo_state w)\<lparr>channel := [Upload ''aa-x'']\<rparr>)"
    using gha_enqueue_paths_run [of "demo_state w" demo_server "[''aa-x'']" "[''aa-x'']" w]
    by (simp add: demo_state_def startup_def demo_server_def)
  then show ?thesis
    by (simp add: post_enqueue_paths_def demo_follow enqueue_paths_def demo_config_def and_then_def
        demo_state_def startup_def del: follow_store_paths.simps)
qed

definition bare_machine :: "'w \<Rightarrow> 'w host" where
  "bare_machine w =
     \<lparr> files = (\<lambda>p. None), created = 0, inodes = (\<lambda>n. of_nat n), create_mode = 0, faults = [],
       recorded = [], stdout = [], sleeps = [], spawned = No_Refresh, api_token = '''', world = w \<rparr>"

lemma serves_nothing: "serves_events env (\<lambda>cfg s. (Inr (), s))"
  by (simp add: serves_events_def)

section \<open>A netrc read by words\<close>

lemma demo_flake_client: "client_build demo_flake = Inr"
  by (simp add: demo_flake_def server_env.extend_def demo_server_def)

fun word_machines :: "string list \<Rightarrow> netrc_machine list" where
  "word_machines (m # h # l # u # q # p # ws) =
     (if m = ''machine'' \<and> l = ''login'' \<and> q = ''password''
      then \<lparr>m_name = Some h, m_login = Some u, m_password = Some p\<rparr> # word_machines ws else [])"
| "word_machines ws = []"

abbreviation "word_flake \<equiv> demo_flake\<lparr>netrc_parse := \<lambda>t. Inr (word_machines (split_whitespace t))\<rparr>"

definition word_netrc :: string where
  "word_netrc = join '' '' [''machine'', ''api'', ''login'', ''l'', ''password'', ''p'']"

lemma word_netrc_words: "split_whitespace (word_netrc @ CHR ''\<newline>'' # ln)
    = [''machine'', ''api'', ''login'', ''l'', ''password'', ''p''] @ split_whitespace ln"
  unfolding word_netrc_def by (rule split_whitespace_line) (simp add: no_white_def)

lemma word_netrc_parsed: "word_machines (split_whitespace word_netrc)
    = [\<lparr>m_name = Some ''api'', m_login = Some ''l'', m_password = Some ''p''\<rparr>]"
  unfolding word_netrc_def by (subst split_whitespace_join) (simp_all add: no_white_def)

lemma word_reads_machines: "reads_machines word_flake word_netrc"
  by (simp add: reads_machines_def word_netrc_words word_netrc_parsed)

end
