(* ===== verification/Interleave.thy ===== *)
theory Interleave
  imports ServerRun
begin

text \<open>
  The narinfo handlers of \<open>binary_cache.rs\<close> cut at their \<open>await\<close> points, running next to each other.
  A lookup first asks the negative cache, then the GitHub cache, and only then takes the write lock to
  remember an absent narinfo; a store allocates, sends, and then removes the hash. Between two turns
  of one task any other task may run.
\<close>

section \<open>Tasks and their turns\<close>

datatype narinfo_task =
    Get_Start string
  | Get_Query string string
  | Get_Absent string string
  | Get_Done "(server_error, redirect) result"
  | Put_Start string reader
  | Put_Send string file_allocation reader
  | Put_Remove string
  | Put_Done "(server_error, unit) result"

definition done_with :: "('w server, server_error, redirect) comp \<Rightarrow> 'w server \<Rightarrow> narinfo_task \<times> 'w server" where
  "done_with m s = (case m s of (r, t) \<Rightarrow> (Get_Done r, t))"

fun narinfo_turn ::
  "'w gha_env \<Rightarrow> server_config \<Rightarrow> narinfo_task \<Rightarrow> 'w server \<Rightarrow> narinfo_task \<times> 'w server"
where
  "narinfo_turn env cfg (Get_Start path) s =
     (case narinfo_hash path of
        None \<Rightarrow> (Get_Done (Err NotFound), s)
      | Some hash \<Rightarrow>
          if hash \<in> narinfo_negative_cache s then
            done_with (and_then (bump narinfos_sent_upstream_update)
              (\<lambda>_. and_then (bump narinfos_negative_cache_hits_update)
              (\<lambda>_. pull_through env cfg path))) s
          else (Get_Query path hash, s))"
| "narinfo_turn env cfg (Get_Query path hash) s =
     (case query_cache env cfg (narinfo_key hash) s of
        (Ok (Some u), t) \<Rightarrow> done_with (and_then (bump narinfos_served_update) (\<lambda>_. redirect_temporary env u)) t
      | (Ok None, t) \<Rightarrow> (Get_Absent path hash, t)
      | (Err e, t) \<Rightarrow> (Get_Done (Err e), t)
      | (Panic m, t) \<Rightarrow> (Get_Done (Panic m), t))"
| "narinfo_turn env cfg (Get_Absent path hash) s =
     done_with (and_then (modify (\<lambda>s. s\<lparr>narinfo_negative_cache := insert hash (narinfo_negative_cache s)\<rparr>))
       (\<lambda>_. and_then (bump narinfos_sent_upstream_update)
       (\<lambda>_. and_then (bump narinfos_negative_cache_misses_update)
       (\<lambda>_. pull_through env cfg path)))) s"
| "narinfo_turn env cfg (Get_Done r) s = (Get_Done r, s)"
| "narinfo_turn env cfg (Put_Start path body) s =
     (case narinfo_hash path of
        None \<Rightarrow> (Put_Done (Err BadRequest), s)
      | Some hash \<Rightarrow>
          (case gha_api cfg of
             None \<Rightarrow> (Put_Done (Err GHADisabled), s)
           | Some a \<Rightarrow>
               (case api_call (allocate_file_with_random_suffix env a (narinfo_key hash)) s of
                  (Ok allocation, t) \<Rightarrow> (Put_Send hash allocation body, t)
                | (Err e, t) \<Rightarrow> (Put_Done (Err e), t)
                | (Panic m, t) \<Rightarrow> (Put_Done (Panic m), t))))"
| "narinfo_turn env cfg (Put_Send hash allocation body) s =
     (case gha_api cfg of
        None \<Rightarrow> (Put_Done (Err GHADisabled), s)
      | Some a \<Rightarrow>
          (case api_call (upload_file env a allocation body) s of
             (Ok n, t) \<Rightarrow> (Put_Remove hash, snd (bump narinfos_uploaded_update t :: (server_error, unit) result \<times> _))
           | (Err e, t) \<Rightarrow> (Put_Done (Err e), t)
           | (Panic m, t) \<Rightarrow> (Put_Done (Panic m), t)))"
| "narinfo_turn env cfg (Put_Remove hash) s =
     (Put_Done (Ok ()), s\<lparr>narinfo_negative_cache := narinfo_negative_cache s - {hash}\<rparr>)"
| "narinfo_turn env cfg (Put_Done r) s = (Put_Done r, s)"

text \<open>A task that runs alone does what its handler does, in three turns at most.\<close>

definition undisturbed :: "'w gha_env \<Rightarrow> server_config \<Rightarrow> nat \<Rightarrow> narinfo_task \<times> 'w server \<Rightarrow> narinfo_task \<times> 'w server" where
  "undisturbed env cfg n = ((\<lambda>(t, s). narinfo_turn env cfg t s) ^^ n)"

lemma undisturbed_simps [simp]:
  "undisturbed env cfg 0 x = x"
  "undisturbed env cfg (Suc n) (t, s) = undisturbed env cfg n (narinfo_turn env cfg t s)"
  by (simp_all add: undisturbed_def funpow_swap1)

lemma undisturbed_done [simp]:
  "undisturbed env cfg n (Get_Done r, s) = (Get_Done r, s)"
  "undisturbed env cfg n (Put_Done r', s) = (Put_Done r', s)"
  by (induction n) simp_all

lemma undisturbed_get:
  "undisturbed env cfg 3 (Get_Start p, s) = (case get_narinfo env cfg p s of (r, t) \<Rightarrow> (Get_Done r, t))"
  by (auto simp: numeral_3_eq_3 get_narinfo_def done_with_def and_then_def
      split: option.split prod.split result.split)

lemma undisturbed_put:
  "undisturbed env cfg 3 (Put_Start p body, s) = (case put_narinfo env cfg p body s of (r, t) \<Rightarrow> (Put_Done r, t))"
  by (auto simp: numeral_3_eq_3 put_narinfo_def store_file_def and_then_def bump_run
      split: option.split prod.split result.split)

text \<open>The worker's upload of a narinfo is a store of the document it has made.\<close>

lemma undisturbed_upload_narinfo:
  assumes "gha_api cfg = Some a" and "narinfo_document env pi = Ok doc"
    and "CHR ''.'' \<notin> set (store_path_hash env path)"
  shows "undisturbed (gha_env.truncate env) cfg 3
      (Put_Start (narinfo_key (store_path_hash env path)) (Slice doc), s)
    = (case upload_narinfo env a path pi s of (r, t) \<Rightarrow> (Put_Done r, t))"
  using assms
  by (auto simp: numeral_3_eq_3 upload_narinfo_def Let_def and_then_def bump_run
      split: prod.split result.split)

section \<open>All interleavings\<close>

text \<open>
  A pool of tasks and the server, with the set of hashes for which the service has answered a lookup
  with absence. Anything else that runs may take hashes out of the negative cache, as the upload
  worker does, but puts none in, and keeps the telemetry balanced.
\<close>

record 'w narinfo_pool =
  n_tasks :: "narinfo_task list"
  n_server :: "'w server"
  n_absent :: "string set"

fun absent_answer :: "narinfo_task \<Rightarrow> string set" where
  "absent_answer (Get_Absent path hash) = {hash}"
| "absent_answer t = {}"

inductive narinfo_step :: "'w gha_env \<Rightarrow> server_config \<Rightarrow> 'w narinfo_pool \<Rightarrow> 'w narinfo_pool \<Rightarrow> bool"
  for env :: "'w gha_env" and cfg :: server_config
where
  turn: "\<lbrakk>i < length (n_tasks x); narinfo_turn env cfg (n_tasks x ! i) (n_server x) = (t, s)\<rbrakk> \<Longrightarrow>
    narinfo_step env cfg x (x\<lparr>n_tasks := (n_tasks x)[i := t], n_server := s,
                              n_absent := n_absent x \<union> absent_answer t\<rparr>)"
| get_arrives: "narinfo_step env cfg x (x\<lparr>n_tasks := n_tasks x @ [Get_Start p]\<rparr>)"
| put_arrives: "narinfo_step env cfg x (x\<lparr>n_tasks := n_tasks x @ [Put_Start p body]\<rparr>)"
| elsewhere: "\<lbrakk>narinfo_negative_cache s \<subseteq> narinfo_negative_cache (n_server x);
               balanced_report (n_server x) \<longrightarrow> balanced_report s\<rbrakk> \<Longrightarrow>
    narinfo_step env cfg x (x\<lparr>n_server := s\<rparr>)"

inductive_cases narinfo_stepE: "narinfo_step env cfg x y"

text \<open>What one turn does to the negative cache.\<close>

lemma done_with_keeps:
  assumes "keeps R m" and "done_with m s = (t, s')"
  shows "R s s' \<and> absent_answer t = {}"
  using assms keepsD [OF assms(1)] by (auto simp: done_with_def split: prod.splits)

definition cache_grows :: "string set \<Rightarrow> 'w server \<Rightarrow> 'w server \<Rightarrow> bool" where
  "cache_grows hs s t \<longleftrightarrow> narinfo_negative_cache t \<subseteq> narinfo_negative_cache s \<union> hs"

interpretation cg: evolution "cache_grows hs" for hs
  by unfold_locales (auto simp: cache_grows_def)

lemma cache_steps:
  "keeps (cache_grows hs) (bump u)" "keeps (cache_grows hs) (redirect_temporary env l)"
  "keeps (cache_grows hs) (pull_through env cfg p)" "keeps (cache_grows hs) (query_cache env cfg k)"
  "hash \<in> hs \<Longrightarrow> keeps (cache_grows hs) (modify (\<lambda>s. s\<lparr>narinfo_negative_cache := insert hash (narinfo_negative_cache s)\<rparr>))"
proof -
  show "keeps (cache_grows hs) (query_cache env cfg k)"
    by (rule keepsI) (metis Un_upper1 cache_grows_def prod.collapse query_cache_frame)
  show "hash \<in> hs \<Longrightarrow> keeps (cache_grows hs) (modify (\<lambda>s. s\<lparr>narinfo_negative_cache := insert hash (narinfo_negative_cache s)\<rparr>))"
    by (rule keepsI) (auto simp: cache_grows_def)
qed (rule keepsI; auto simp: cache_grows_def bump_def)+

lemma client_cache_grows: "keeps (client_evolves a) m \<Longrightarrow> keeps (cache_grows hs) m"
  by (rule keepsI) (auto simp: cache_grows_def dest: keeps_snd client_frame(1))

lemma narinfo_turn_cache:
  assumes "narinfo_turn env cfg t s = (t', s')"
  shows "cache_grows (absent_answer t) s s'"
  using assms
proof (induction env cfg t s rule: narinfo_turn.induct)
  case (1 env cfg path s)
  then show ?case
    by (auto split: option.splits if_splits dest!: done_with_keeps [rotated] intro: cg.stays cg.and_then cache_steps)
next
  case (2 env cfg path hash s)
  have served: "keeps (cache_grows {}) (and_then (bump narinfos_served_update) (\<lambda>_. redirect_temporary env u))" for u
    by (intro cg.and_then cache_steps)
  have asked: "query_cache env cfg k s = (r, t) \<Longrightarrow> cache_grows {} s t" for k r t
    by (rule keepsD [OF cache_steps(4)])
  from 2 show ?case
    by (auto split: prod.splits result.splits option.splits elim: cg.chain
        dest!: asked done_with_keeps [OF served])
next
  case (3 env cfg path hash s)
  then show ?case
    by (auto dest!: done_with_keeps [rotated] intro: cg.and_then cache_steps)
next
  case (5 env cfg path body s)
  then show ?case
    using keepsD [OF client_cache_grows [OF api_call_evolves [OF allocate_evolves]]]
    by (auto simp del: api_call_Ok split: prod.splits result.splits option.splits intro: cg.stays)
next
  case (6 env cfg hash allocation body s)
  have sent: "api_call (upload_file env a al r) u = (res, v) \<Longrightarrow> cache_grows {} u v" for a al r u v res
    by (rule keepsD [OF client_cache_grows [OF api_call_evolves [OF upload_file_evolves]]])
  from 6 show ?case
    by (auto split: prod.splits result.splits option.splits intro: cg.stays dest!: sent
        simp: bump_run cache_grows_def simp del: api_call_Ok)
qed (auto simp: cache_grows_def)

text \<open>The invariants of the server hold between the turns, too.\<close>

context counting_invariant
begin

lemma done_with_preserves: "preserves I m \<Longrightarrow> I s \<Longrightarrow> done_with m s = (t, s') \<Longrightarrow> I s'"
  by (auto simp: done_with_def split: prod.splits dest: preservesD_run)

lemma upstream_preserves:
  "preserves I (and_then (bump narinfos_sent_upstream_update)
     (\<lambda>_. and_then (bump narinfos_negative_cache_hits_update) (\<lambda>_. pull_through env cfg p)))"
  "preserves I (and_then (modify (\<lambda>s. s\<lparr>narinfo_negative_cache := insert h (narinfo_negative_cache s)\<rparr>))
     (\<lambda>_. and_then (bump narinfos_sent_upstream_update)
     (\<lambda>_. and_then (bump narinfos_negative_cache_misses_update) (\<lambda>_. pull_through env cfg p))))"
  by (rule preservesI; simp add: bump_run hit; drule negative [THEN miss]; simp)+

lemma narinfo_turn_preserves:
  assumes "flagging cfg" and "narinfo_turn env cfg t s = (t', s')" and "I s"
  shows "I s'"
  using assms
proof (induction env cfg t s rule: narinfo_turn.induct)
  case (1 env cfg path s)
  then show ?case
    by (auto split: option.splits if_splits dest: done_with_preserves [OF upstream_preserves(1)])
next
  case (2 env cfg path hash s)
  note q = preservesD_run [OF query_cache_preserves [OF 2(1)] _ 2(3)]
  have "preserves I (and_then (bump narinfos_served_update) (\<lambda>_. redirect_temporary env u))" for u
    by (intro steps)
  from 2(2) done_with_preserves [OF this] show ?case
    by (auto split: prod.splits result.splits option.splits dest: q)
next
  case (3 env cfg path hash s)
  then show ?case by (auto dest: done_with_preserves [OF upstream_preserves(2)])
next
  case (5 env cfg path body s)
  then show ?case
    by (auto simp: flagging_def simp del: api_call_Ok split: prod.splits result.splits option.splits
        dest: preservesD_run [OF api_call_preserves [OF _ allocate_evolves]])
next
  case (6 env cfg hash allocation body s)
  then show ?case
    by (auto simp: flagging_def bump_run uploaded simp del: api_call_Ok split: prod.splits result.splits option.splits
        dest: preservesD_run [OF api_call_preserves [OF _ upload_file_evolves]])
qed (auto simp: negative)

end

text \<open>
  A hash that is not in the negative cache, and for which no answered lookup waits for the lock, stays
  out of it until the service answers another lookup with absence.
\<close>

definition kept_out :: "string \<Rightarrow> 'w narinfo_pool \<Rightarrow> bool" where
  "kept_out h x \<longleftrightarrow>
     h \<notin> narinfo_negative_cache (n_server x) \<and> (\<forall>t \<in> set (n_tasks x). h \<notin> absent_answer t)"

lemma narinfo_step_absent: "narinfo_step env cfg x y \<Longrightarrow> n_absent x \<subseteq> n_absent y"
  by (elim narinfo_stepE) auto

lemma kept_out_step:
  assumes "narinfo_step env cfg x y" and "kept_out h x" and "h \<notin> n_absent y"
  shows "kept_out h y"
  using assms
proof (induction rule: narinfo_step.induct)
  case (turn i x t s)
  then show ?case
    using narinfo_turn_cache [OF turn(2)] nth_mem [OF turn(1)]
    by (auto simp: kept_out_def cache_grows_def dest!: set_update_subset_insert [THEN subsetD])
qed (auto simp: kept_out_def)

lemma narinfo_run:
  assumes "(narinfo_step env cfg)\<^sup>*\<^sup>* x y"
  shows "kept_out h x \<Longrightarrow> h \<notin> n_absent y \<Longrightarrow> kept_out h y"
    and "flagging cfg \<Longrightarrow> balanced_report (n_server x) \<Longrightarrow> balanced_report (n_server y)"
proof -
  show "kept_out h x \<Longrightarrow> h \<notin> n_absent y \<Longrightarrow> kept_out h y"
    using assms
    by (induction rule: rtranclp_induct) (auto dest: narinfo_step_absent intro: kept_out_step)
  show "flagging cfg \<Longrightarrow> balanced_report (n_server x) \<Longrightarrow> balanced_report (n_server y)"
    using assms
  proof (induction rule: rtranclp_induct)
    case (step y z)
    from step.hyps(2) step.IH step.prems show ?case
      by (elim narinfo_stepE) (auto intro: balance.narinfo_turn_preserves)
  qed simp
qed

text \<open>Any number of turns of one task, while the others wait.\<close>

lemma turns_of_one:
  assumes "i < length ts"
  shows "\<exists>A'. (narinfo_step env cfg)\<^sup>*\<^sup>* \<lparr>n_tasks = ts, n_server = s, n_absent = A\<rparr>
    \<lparr>n_tasks = ts[i := fst (undisturbed env cfg n (ts ! i, s))],
     n_server = snd (undisturbed env cfg n (ts ! i, s)), n_absent = A'\<rparr>"
  using assms
proof (induction n arbitrary: ts s A)
  case 0
  then show ?case by auto
next
  case (Suc n)
  let ?x = "\<lparr>n_tasks = ts, n_server = s, n_absent = A\<rparr>"
  obtain t s' where t: "narinfo_turn env cfg (ts ! i) s = (t, s')" by fastforce
  have "narinfo_step env cfg ?x \<lparr>n_tasks = ts[i := t], n_server = s', n_absent = A \<union> absent_answer t\<rparr>"
    using narinfo_step.turn [of i ?x env cfg t s'] Suc.prems t by simp
  with Suc.IH [of "ts[i := t]" s' "A \<union> absent_answer t"] Suc.prems t show ?case
    by (auto intro: converse_rtranclp_into_rtranclp)
qed

text \<open>A store that ends between a lookup's absent answer and the lock is hidden by that lookup.\<close>

lemma hidden_store:
  assumes "narinfo_hash p = Some h" and "h \<notin> narinfo_negative_cache s"
    and "query_cache env cfg (narinfo_key h) s = (Ok None, s1)"
    and "put_narinfo env cfg p body s1 = (Ok (), s2)"
  shows "\<exists>r y. (narinfo_step env cfg)\<^sup>*\<^sup>*
      \<lparr>n_tasks = [Get_Start p, Put_Start p body], n_server = s, n_absent = {}\<rparr> y
    \<and> n_tasks y = [Get_Done r, Put_Done (Ok ())] \<and> h \<in> narinfo_negative_cache (n_server y)"
proof -
  let ?step = "narinfo_step env cfg"
  have "undisturbed env cfg 2 (Get_Start p, s) = (Get_Absent p h, s1)"
    using assms(1-3) by (simp add: numeral_2_eq_2)
  with turns_of_one [of 0 "[Get_Start p, Put_Start p body]" env cfg s "{}" 2]
  obtain A where asked: "?step\<^sup>*\<^sup>* \<lparr>n_tasks = [Get_Start p, Put_Start p body], n_server = s, n_absent = {}\<rparr>
      \<lparr>n_tasks = [Get_Absent p h, Put_Start p body], n_server = s1, n_absent = A\<rparr>" by auto
  have "undisturbed env cfg 3 (Put_Start p body, s1) = (Put_Done (Ok ()), s2)"
    using assms(4) by (simp add: undisturbed_put)
  with turns_of_one [of 1 "[Get_Absent p h, Put_Start p body]" env cfg s1 A 3]
  obtain B where stored: "?step\<^sup>*\<^sup>* \<lparr>n_tasks = [Get_Absent p h, Put_Start p body], n_server = s1, n_absent = A\<rparr>
      \<lparr>n_tasks = [Get_Absent p h, Put_Done (Ok ())], n_server = s2, n_absent = B\<rparr>" by auto
  obtain r s3 where last: "undisturbed env cfg 1 (Get_Absent p h, s2) = (Get_Done r, s3)"
    and h: "h \<in> narinfo_negative_cache s3"
    by (simp add: done_with_def bump_run split_beta)
  with turns_of_one [of 0 "[Get_Absent p h, Put_Done (Ok ())]" env cfg s2 B 1]
  obtain C where "?step\<^sup>*\<^sup>* \<lparr>n_tasks = [Get_Absent p h, Put_Done (Ok ())], n_server = s2, n_absent = B\<rparr>
      \<lparr>n_tasks = [Get_Done r, Put_Done (Ok ())], n_server = s3, n_absent = C\<rparr>" by auto
  with asked stored have "?step\<^sup>*\<^sup>* \<lparr>n_tasks = [Get_Start p, Put_Start p body], n_server = s, n_absent = {}\<rparr>
      \<lparr>n_tasks = [Get_Done r, Put_Done (Ok ())], n_server = s3, n_absent = C\<rparr>" by (meson rtranclp_trans)
  with h show ?thesis by fastforce
qed

end
