(* ===== verification/Service.thy ===== *)
theory Service
  imports WorkerFacts ChunkPool ServerRun
begin

text \<open>
  The client against the service it talks to. \<open>cache_view\<close> is what a cache service holds: the entries
  that can be found, and the files that are being written, those of version 1 by their id, those of
  version 2 as blobs behind signed URLs. \<open>github_cache\<close> states what is documented of the requests that
  the client sends, as laws on the view of the outside world; nothing is assumed of which answers come.
  This theory has the laws of both versions and what follows for the uploads of version 1.
\<close>

section \<open>The service\<close>

record cache_view =
  cv_entries :: "(string \<times> string \<times> partial_file) set"
  cv_pending :: "cache_id \<rightharpoonup> string \<times> string \<times> partial_file"
  cv_signed :: "string \<times> string \<rightharpoonup> string"
  cv_blobs :: "string \<rightharpoonup> bytes"

text \<open>The requests of version 1, as the client's operations make them.\<close>

definition reserve_rq :: "'c api \<Rightarrow> string \<Rightarrow> usize option \<Rightarrow> http_request" where
  "reserve_rq a key cache_size =
     \<lparr>rq_method = POST, rq_url = construct_url a ''caches'', rq_query = [], rq_headers = [],
      rq_body = Json_Reserve \<lparr>rr_key = key, rr_version = api_version a, rr_cache_size = cache_size\<rparr>\<rparr>"

definition commit_rq :: "'c api \<Rightarrow> cache_id \<Rightarrow> usize \<Rightarrow> http_request" where
  "commit_rq a cid n =
     \<lparr>rq_method = POST, rq_url = construct_url a (''caches/'' @ dec_i64 cid), rq_query = [],
      rq_headers = [], rq_body = Json_Commit \<lparr>cm_size = n\<rparr>\<rparr>"

definition lookup_rq :: "'c api \<Rightarrow> string list \<Rightarrow> http_request" where
  "lookup_rq a keys =
     \<lparr>rq_method = GET, rq_url = construct_url a ''cache'',
      rq_query = [(''version'', api_version a), (''keys'', join '','' keys)],
      rq_headers = [], rq_body = No_Body\<rparr>"

lemmas reserve_v1_rq = reserve_v1_def [folded reserve_rq_def]
lemmas commit_v1_rq = commit_v1_def [folded commit_rq_def]
lemmas get_entry_v1_rq = get_entry_v1_def [folded lookup_rq_def]

abbreviation empty_file :: partial_file where
  "empty_file \<equiv> \<lambda>_. None"

text \<open>The files that a lookup of a key may find: the service matches keys by their prefix.\<close>

definition stored_under :: "cache_view \<Rightarrow> 'c api \<Rightarrow> string \<Rightarrow> partial_file set" where
  "stored_under v a key = {f. \<exists>k. (k, api_version a, f) \<in> cv_entries v \<and> prefix key k}"

text \<open>
  Reserving makes nothing visible; the id that is answered belongs to an empty file under the key and
  version asked for.
\<close>

definition reserves :: "'w gha_env \<Rightarrow> 'c api \<Rightarrow> ('w \<Rightarrow> cache_view) \<Rightarrow> bool" where
  "reserves env a view \<longleftrightarrow>
     (\<forall>key cs w r w'. http_send env (client a) (reserve_rq a key cs) w = (r, w') \<longrightarrow>
        cv_entries (view w') = cv_entries (view w)
        \<and> (\<forall>res cid. r = Inr res \<longrightarrow> check_json env (json_cache_id env) res = Ok cid \<longrightarrow>
             cv_pending (view w') cid = Some (key, api_version a, empty_file)))"

text \<open>
  A chunk of a reserved file, as the protocol has it: bytes \<open>lo\<close> to \<open>lo + length d - 1\<close> of it.
\<close>

definition sends_chunk :: "'c api \<Rightarrow> cache_id \<Rightarrow> bytes \<Rightarrow> http_request \<Rightarrow> bool" where
  "sends_chunk a cid d rq \<longleftrightarrow>
     rq_method rq = PATCH \<and> rq_url rq = construct_url a (''caches/'' @ dec_i64 cid) \<and> rq_body rq = Octets d"

definition has_range :: "nat \<Rightarrow> bytes \<Rightarrow> http_request \<Rightarrow> bool" where
  "has_range lo d rq \<longleftrightarrow> d \<noteq> [] \<and> map_of (rq_headers rq) ''Content-Range'' =
     Some (''bytes '' @ dec_nat lo @ ''-'' @ dec_nat (lo + length d - 1) @ ''/*'')"

definition write_at :: "nat \<Rightarrow> bytes \<Rightarrow> partial_file \<Rightarrow> partial_file" where
  "write_at lo d f = (\<lambda>i. if lo \<le> i \<and> i < lo + length d then Some (d ! (i - lo)) else f i)"

text \<open>
  A chunk sent to a reserved file is written at its range when the answer says so; otherwise the
  file's content is unknown. It makes nothing visible.
\<close>

definition writes :: "'w gha_env \<Rightarrow> 'c api \<Rightarrow> ('w \<Rightarrow> cache_view) \<Rightarrow> bool" where
  "writes env a view \<longleftrightarrow>
     (\<forall>cid d rq w r w' k v f. sends_chunk a cid d rq \<longrightarrow> http_send env (client a) rq w = (r, w') \<longrightarrow>
        cv_pending (view w) cid = Some (k, v, f) \<longrightarrow>
        cv_entries (view w') = cv_entries (view w)
        \<and> (\<exists>f'. cv_pending (view w') cid = Some (k, v, f')
             \<and> (\<forall>lo. has_range lo d rq \<longrightarrow> (\<exists>res. r = Inr res \<and> is_success (rs_status res)) \<longrightarrow> f' = write_at lo d f)))"

text \<open>
  A commit makes the reserved file visible under its key. When the answer is lost or an error, the
  file may have become visible all the same.
\<close>

definition commits :: "'w gha_env \<Rightarrow> 'c api \<Rightarrow> ('w \<Rightarrow> cache_view) \<Rightarrow> bool" where
  "commits env a view \<longleftrightarrow>
     (\<forall>cid n w r w' e. http_send env (client a) (commit_rq a cid n) w = (r, w') \<longrightarrow>
        cv_pending (view w) cid = Some e \<longrightarrow>
        cv_entries (view w') \<in> {cv_entries (view w), insert e (cv_entries (view w))}
        \<and> (\<forall>res. r = Inr res \<longrightarrow> is_success (rs_status res) \<longrightarrow>
             cv_entries (view w') = insert e (cv_entries (view w))))"

text \<open>
  A lookup changes nothing; an entry that is answered has one of the keys' prefixes and its file is
  where the answer says; 204 without an entry means that there is none.
\<close>

definition looks_up ::
  "'w gha_env \<Rightarrow> 'c api \<Rightarrow> ('w \<Rightarrow> cache_view) \<Rightarrow> ('w \<Rightarrow> string \<Rightarrow> partial_file option) \<Rightarrow> bool" where
  "looks_up env a view download \<longleftrightarrow>
     (\<forall>key w res w'. http_send env (client a) (lookup_rq a [key]) w = (Inr res, w') \<longrightarrow>
        (\<forall>e. check_json env (json_cache_entry env) res = Ok e \<longrightarrow>
           (\<exists>f \<in> stored_under (view w) a key. download w' (archive_location e) = Some f))
        \<and> (\<forall>b e. check_json env (json_cache_entry env) res = Err (DecodeError NO_CONTENT b e) \<longrightarrow>
             stored_under (view w) a key = {}))
     \<and> (\<forall>key w r w'. http_send env (client a) (lookup_rq a [key]) w = (r, w') \<longrightarrow> view w' = view w)"

definition v1_service ::
  "'w gha_env \<Rightarrow> 'c api \<Rightarrow> ('w \<Rightarrow> cache_view) \<Rightarrow> ('w \<Rightarrow> string \<Rightarrow> partial_file option) \<Rightarrow> bool" where
  "v1_service env a view download \<longleftrightarrow>
     reserves env a view \<and> writes env a view \<and> commits env a view \<and> looks_up env a view download"

text \<open>
  Version 2. Creating an entry signs a URL for its key and version. What is sent to a signed URL is
  written to the blob there: creating empties it, appending appends when the answer says so, sealing
  leaves its content. Finalizing makes the blob visible under the key. As in version 1, effects of
  requests whose answer is an error or was lost are left open.
\<close>

definition create_msg :: "'c api \<Rightarrow> string \<Rightarrow> create_cache_entry_request" where
  "create_msg a key = \<lparr>ce_metadata = None, ce_key = key, ce_version = api_version a\<rparr>"

definition finalize_msg :: "'c api \<Rightarrow> string \<Rightarrow> usize \<Rightarrow> finalize_cache_entry_upload_request" where
  "finalize_msg a key n = \<lparr>fe_metadata = None, fe_key = key, fe_size_bytes = n, fe_version = api_version a\<rparr>"

definition lookup_msg :: "'c api \<Rightarrow> string \<Rightarrow> get_cache_entry_download_url_request" where
  "lookup_msg a key = \<lparr>ge_metadata = None, ge_key = key, restore_keys = [key], ge_version = api_version a\<rparr>"

definition creates :: "'w gha_env \<Rightarrow> 'c api \<Rightarrow> ('w \<Rightarrow> cache_view) \<Rightarrow> bool" where
  "creates env a view \<longleftrightarrow>
     (\<forall>key w r w'. twirp_create_cache_entry env (twirp a) (create_msg a key) w = (r, w') \<longrightarrow>
        cv_entries (view w') = cv_entries (view w)
        \<and> (\<forall>res. r = Inr res \<longrightarrow> ce_ok res \<longrightarrow>
             cv_signed (view w') (key, api_version a) = Some (signed_upload_url res)))"

definition accepted :: "string + http_response \<Rightarrow> bool" where
  "accepted r \<longleftrightarrow> (case r of Inr res \<Rightarrow> is_success (rs_status res) | Inl e \<Rightarrow> False)"

definition puts_blob :: "string \<Rightarrow> nat \<Rightarrow> request_body \<Rightarrow> http_request \<Rightarrow> bool" where
  "puts_blob u n b rq \<longleftrightarrow>
     rq_method rq = PUT \<and> rq_url rq = u \<and> rq_query rq = [] \<and> rq_body rq = b
     \<and> map_of (rq_headers rq) ''x-ms-blob-type'' = Some ''AppendBlob''
     \<and> map_of (rq_headers rq) ''Content-Length'' = Some (dec_nat n)"

definition creates_blob :: "string \<Rightarrow> http_request \<Rightarrow> bool" where
  "creates_blob loc = puts_blob loc 0 No_Body"

definition appends_block :: "'w gha_env \<Rightarrow> string \<Rightarrow> bytes \<Rightarrow> http_request \<Rightarrow> bool" where
  "appends_block env loc d = puts_blob (url_append_pair env loc ''comp'' ''appendblock'') (length d) (Octets d)"

definition seals_blob :: "'w gha_env \<Rightarrow> string \<Rightarrow> http_request \<Rightarrow> bool" where
  "seals_blob env loc = puts_blob (url_append_pair env loc ''comp'' ''seal'') 0 No_Body"

definition blob_laws :: "'w gha_env \<Rightarrow> ('w \<Rightarrow> cache_view) \<Rightarrow> bool" where
  "blob_laws env view \<longleftrightarrow>
     (\<forall>kv su loc cl rq w r w'. cv_signed (view w) kv = Some su \<longrightarrow> url_parse env su = Inr loc \<longrightarrow>
        http_send env cl rq w = (r, w') \<longrightarrow>
        (creates_blob loc rq \<or> seals_blob env loc rq \<or> (\<exists>d. appends_block env loc d rq) \<longrightarrow>
           cv_entries (view w') = cv_entries (view w) \<and> cv_signed (view w') = cv_signed (view w))
        \<and> (creates_blob loc rq \<and> accepted r \<longrightarrow> cv_blobs (view w') loc = Some [])
        \<and> (\<forall>d c. appends_block env loc d rq \<and> accepted r \<and> cv_blobs (view w) loc = Some c \<longrightarrow>
             cv_blobs (view w') loc = Some (c @ d))
        \<and> (seals_blob env loc rq \<longrightarrow> cv_blobs (view w') loc = cv_blobs (view w) loc))"

lemma blob_put_puts: "puts_blob u n b (blob_put u n b)"
  by (simp add: puts_blob_def blob_put_def)

definition finalizes :: "'w gha_env \<Rightarrow> 'c api \<Rightarrow> ('w \<Rightarrow> cache_view) \<Rightarrow> bool" where
  "finalizes env a view \<longleftrightarrow>
     (\<forall>key n w r w' su loc c. cv_signed (view w) (key, api_version a) = Some su \<longrightarrow>
        url_parse env su = Inr loc \<longrightarrow> cv_blobs (view w) loc = Some c \<longrightarrow>
        twirp_finalize_cache_entry_upload env (twirp a) (finalize_msg a key n) w = (r, w') \<longrightarrow>
        cv_entries (view w') \<in> {cv_entries (view w), insert (key, api_version a, file_of c) (cv_entries (view w))}
        \<and> (\<forall>res. r = Inr res \<longrightarrow> fe_ok res \<longrightarrow>
             cv_entries (view w') = insert (key, api_version a, file_of c) (cv_entries (view w))))"

definition finds_entries ::
  "'w gha_env \<Rightarrow> 'c api \<Rightarrow> ('w \<Rightarrow> cache_view) \<Rightarrow> ('w \<Rightarrow> string \<Rightarrow> partial_file option) \<Rightarrow> bool" where
  "finds_entries env a view download \<longleftrightarrow>
     (\<forall>key w r w'. twirp_get_cache_entry_download_url env (twirp a) (lookup_msg a key) w = (r, w') \<longrightarrow>
        view w' = view w
        \<and> (\<forall>res. r = Inr res \<longrightarrow> ge_ok res \<longrightarrow>
             (\<exists>f \<in> stored_under (view w) a key. download w' (signed_download_url res) = Some f))
        \<and> (\<forall>res. r = Inr res \<longrightarrow> \<not> ge_ok res \<longrightarrow> stored_under (view w) a key = {}))"

definition v2_service ::
  "'w gha_env \<Rightarrow> 'c api \<Rightarrow> ('w \<Rightarrow> cache_view) \<Rightarrow> ('w \<Rightarrow> string \<Rightarrow> partial_file option) \<Rightarrow> bool" where
  "v2_service env a view download \<longleftrightarrow>
     creates env a view \<and> blob_laws env view \<and> finalizes env a view \<and> finds_entries env a view download"

text \<open>The service that the client talks to; random characters come from elsewhere.\<close>

definition github_cache ::
  "'w gha_env \<Rightarrow> 'c api \<Rightarrow> ('w \<Rightarrow> cache_view) \<Rightarrow> ('w \<Rightarrow> string \<Rightarrow> partial_file option) \<Rightarrow> bool" where
  "github_cache env a view download \<longleftrightarrow>
     (if uses_v1 a then v1_service env a view download else v2_service env a view download)
     \<and> (\<forall>w. view (snd (rand_alphanumeric env w)) = view w)"

section \<open>Single requests\<close>

abbreviation entries_of :: "('w \<Rightarrow> cache_view) \<Rightarrow> ('c, 'w, 'z) api_world_scheme \<Rightarrow> (string \<times> string \<times> partial_file) set" where
  "entries_of view s \<equiv> cv_entries (view (ext s))"

abbreviation pending_of :: "('w \<Rightarrow> cache_view) \<Rightarrow> ('c, 'w, 'z) api_world_scheme \<Rightarrow> cache_id \<rightharpoonup> string \<times> string \<times> partial_file" where
  "pending_of view s \<equiv> cv_pending (view (ext s))"

lemma check_err_ext [simp]: "ext (check_err a e s) = ext s"
  by (simp add: check_err_def)

lemma check_result_ext [simp]: "ext (check_result a r s) = ext s"
  by (cases r) simp_all

lemma send_world:
  assumes "send env cl rq s = (r, t)"
  obtains (lost) e where "http_send env cl rq (ext s) = (Inl e, ext t)" and "r = Err (RequestError e)"
  | (answered) res where "http_send env cl rq (ext s) = (Inr res, ext t)" and "r = Ok res"
  using assms by (auto simp: send_def split: prod.splits sum.splits)

lemma check_Ok_iff [simp]: "check env res = Ok u \<longleftrightarrow> is_success (rs_status res)"
  by (simp add: check_def)

lemma reservesD:
  assumes "v1_service env a view download" and "http_send env (client a) (reserve_rq a key cs) w = (r, w')"
  shows "cv_entries (view w') = cv_entries (view w)"
    and "r = Inr res \<Longrightarrow> check_json env (json_cache_id env) res = Ok cid \<Longrightarrow>
         cv_pending (view w') cid = Some (key, api_version a, empty_file)"
proof -
  from assms(1) have "reserves env a view" by (simp add: v1_service_def)
  note law = this [unfolded reserves_def, rule_format, OF assms(2)]
  show "cv_entries (view w') = cv_entries (view w)" using law ..
  show "cv_pending (view w') cid = Some (key, api_version a, empty_file)"
    if "r = Inr res" "check_json env (json_cache_id env) res = Ok cid"
    using law that by blast
qed

lemma reserve_v1_run:
  assumes "v1_service env a view download" and "reserve_v1 env a key cs s = (r, t)"
  shows "entries_of view t = entries_of view s"
    and "r = Ok al \<Longrightarrow> \<exists>cid. al = V1 cid \<and> pending_of view t cid = Some (key, api_version a, empty_file)"
proof -
  obtain x s1 where sent: "send env (client a) (reserve_rq a key cs) s = (x, s1)" by fastforce
  then have "entries_of view t = entries_of view s
    \<and> (\<forall>al. r = Ok al \<longrightarrow> (\<exists>cid. al = V1 cid \<and> pending_of view t cid = Some (key, api_version a, empty_file)))"
  proof (cases rule: send_world)
    case (lost e)
    with assms(2) sent reservesD(1) [OF assms(1) lost(1)] show ?thesis by (auto simp: reserve_v1_rq)
  next
    case (answered res)
    with assms(2) sent have "and_then (lift_result (check_json env (json_cache_id env) res)) (\<lambda>cid. return_ok (V1 cid))
        (check_result a (check_json env (json_cache_id env) res) s1) = (r, t)"
      by (simp add: reserve_v1_rq Let_def)
    with reservesD [OF assms(1) answered(1)] show ?thesis
      by (cases "check_json env (json_cache_id env) res") auto
  qed
  then show "entries_of view t = entries_of view s"
    and "r = Ok al \<Longrightarrow> \<exists>cid. al = V1 cid \<and> pending_of view t cid = Some (key, api_version a, empty_file)"
    by blast+
qed

section \<open>Uploads\<close>

lemma write_chunk_at: "write_chunk t f = write_at (unat (fst t)) (snd t) f"
  by (simp add: write_chunk_def write_at_def)

text \<open>The chunks that fit a file of 64-bit length; their requests have the range of the protocol.\<close>

definition fits_file :: "chunk_task \<Rightarrow> bool" where
  "fits_file t \<longleftrightarrow> snd t \<noteq> [] \<and> unat (fst t) + length (snd t) \<le> 2 ^ 64"

lemma patch_sends: "sends_chunk a cid (snd t) (patch_request a cid t)"
  by (cases t) (simp add: sends_chunk_def patch_request_def)

lemma patch_range:
  assumes "fits_file t"
  shows "has_range (unat (fst t)) (snd t) (patch_request a cid t)"
proof -
  obtain off d where t: "t = (off, d)" by fastforce
  from assms t have d: "d \<noteq> []" "unat off + length d \<le> 2 ^ 64" by (simp_all add: fits_file_def)
  then have len: "0 < length d" by simp
  have small: "unat off + (length d - 1) < 2 ^ LENGTH(64)" using d(2) len by (cases "length d") simp_all
  have "off + of_nat (length d) - 1 = (of_nat (unat off + (length d - 1)) :: 64 word)"
    using len by (simp add: of_nat_diff Suc_leI)
  moreover have "unat (of_nat (unat off + (length d - 1)) :: 64 word) = unat off + (length d - 1)"
    by (rule of_nat_inverse [OF refl small])
  ultimately have "unat (off + of_nat (length d) - 1) = unat off + length d - 1" using len by simp
  with d(1) show ?thesis
    by (simp add: t has_range_def patch_request_def content_range_def dec_usize_def)
qed

lemma spawned_chunks_fit:
  assumes "spawn_chunks 0 r = (ts, res)" and "reader_ending r = None" and "length (reader_content r) < 2 ^ 64"
    and "t \<in> set ts"
  shows "fits_file t"
proof -
  note c = spawn_chunks_complete [OF assms(1,2)]
  have ts: "ts = zip (offsets 0 (map snd ts)) (map snd ts)"
    using c(2) by (simp add: zip_fst_snd)
  have "slice_of (reader_content r) t"
    using offsets_slices [of 0 "map snd ts" "reader_content r"] c(1) assms(3,4) ts by auto
  moreover from spawn_chunks_cuts [OF assms(1)] assms(4) have "snd t \<noteq> []"
    by (auto simp: cuts_source_def)
  ultimately have "unat (fst t) + (length (snd t) - 1) < length (reader_content r)"
    unfolding slice_of_def by (metis diff_less length_greater_0_conv zero_less_one)
  with assms(3) \<open>snd t \<noteq> []\<close> show ?thesis by (cases "snd t") (simp_all add: fits_file_def)
qed

lemma writesD:
  assumes "v1_service env a view download" and "http_send env (client a) (patch_request a cid t) w = (r, w')"
    and "cv_pending (view w) cid = Some (k, v, f)"
  shows "cv_entries (view w') = cv_entries (view w)"
    and "\<exists>f'. cv_pending (view w') cid = Some (k, v, f')
      \<and> (\<forall>res. r = Inr res \<longrightarrow> is_success (rs_status res) \<longrightarrow> fits_file t \<longrightarrow> f' = write_chunk t f)"
proof -
  from assms(1) have "writes env a view" by (simp add: v1_service_def)
  note law = this [unfolded writes_def, rule_format, OF patch_sends assms(2,3)]
  show "cv_entries (view w') = cv_entries (view w)" using law ..
  from law obtain f' where "cv_pending (view w') cid = Some (k, v, f')"
    "\<And>lo res. has_range lo (snd t) (patch_request a cid t) \<Longrightarrow> r = Inr res \<Longrightarrow> is_success (rs_status res)
       \<Longrightarrow> f' = write_at lo (snd t) f" by blast
  then show "\<exists>f'. cv_pending (view w') cid = Some (k, v, f')
      \<and> (\<forall>res. r = Inr res \<longrightarrow> is_success (rs_status res) \<longrightarrow> fits_file t \<longrightarrow> f' = write_chunk t f)"
    using patch_range [of t a cid] by (auto simp: write_chunk_at)
qed

lemma commitsD:
  assumes "v1_service env a view download" and "http_send env (client a) (commit_rq a cid n) w = (r, w')"
    and "cv_pending (view w) cid = Some e"
  shows "cv_entries (view w') \<in> {cv_entries (view w), insert e (cv_entries (view w))}"
    and "r = Inr res \<Longrightarrow> is_success (rs_status res) \<Longrightarrow> cv_entries (view w') = insert e (cv_entries (view w))"
proof -
  from assms(1) have "commits env a view" by (simp add: v1_service_def)
  note law = this [unfolded commits_def, rule_format, OF assms(2,3)]
  show "cv_entries (view w') \<in> {cv_entries (view w), insert e (cv_entries (view w))}" using law ..
  show "cv_entries (view w') = insert e (cv_entries (view w))"
    if "r = Inr res" "is_success (rs_status res)"
    using law that by blast
qed

text \<open>Sending a chunk: nothing becomes visible, and a chunk that is accepted is written.\<close>

lemma send_chunk_run:
  assumes "v1_service env a view download" and "send env (client a) (patch_request a cid t) s = (r, s')"
    and "pending_of view s cid = Some (k, v, f)"
  shows "entries_of view s' = entries_of view s"
    and "\<exists>f'. pending_of view s' cid = Some (k, v, f')
      \<and> (\<forall>res. r = Ok res \<longrightarrow> is_success (rs_status res) \<longrightarrow> fits_file t \<longrightarrow> f' = write_chunk t f)"
  using assms(2)
proof (atomize (full), cases rule: send_world)
  case (lost e)
  from writesD [OF assms(1) lost(1) assms(3)] lost(2)
  show "entries_of view s' = entries_of view s \<and> (\<exists>f'. pending_of view s' cid = Some (k, v, f')
      \<and> (\<forall>res. r = Ok res \<longrightarrow> is_success (rs_status res) \<longrightarrow> fits_file t \<longrightarrow> f' = write_chunk t f))" by simp
next
  case (answered res)
  from writesD [OF assms(1) answered(1) assms(3)] answered(2)
  show "entries_of view s' = entries_of view s \<and> (\<exists>f'. pending_of view s' cid = Some (k, v, f')
      \<and> (\<forall>res. r = Ok res \<longrightarrow> is_success (rs_status res) \<longrightarrow> fits_file t \<longrightarrow> f' = write_chunk t f))" by simp
qed

lemma run_chunk_view:
  assumes "v1_service env a view download" and "run_chunk env a cid t s = (r, s')"
    and "pending_of view s cid = Some (k, v, f)"
  shows "entries_of view s' = entries_of view s"
    and "\<exists>f'. pending_of view s' cid = Some (k, v, f') \<and> (r = Ok () \<longrightarrow> fits_file t \<longrightarrow> f' = write_chunk t f)"
proof -
  obtain x s1 where x: "send env (client a) (patch_request a cid t) s = (x, s1)" by fastforce
  note run = send_chunk_run [OF assms(1) x assms(3)]
  from assms(2) x have outcome: "ext s' = ext s1" "r = Ok () \<Longrightarrow> \<exists>res. x = Ok res \<and> is_success (rs_status res)"
    by (cases x; auto simp: run_chunk_def Let_def)+
  with run(1) show "entries_of view s' = entries_of view s" by simp
  from run(2) obtain f' where f': "pending_of view s1 cid = Some (k, v, f')"
    "\<forall>res. x = Ok res \<longrightarrow> is_success (rs_status res) \<longrightarrow> fits_file t \<longrightarrow> f' = write_chunk t f" by blast
  with outcome show "\<exists>f'. pending_of view s' cid = Some (k, v, f') \<and> (r = Ok () \<longrightarrow> fits_file t \<longrightarrow> f' = write_chunk t f)"
    by (intro exI [of _ f']) auto
qed

lemma run_chunks_view:
  assumes "v1_service env a view download" and "run_chunks env a cid ts s = (rs, s')"
    and "pending_of view s cid = Some (k, v, f)"
  shows "entries_of view s' = entries_of view s
    \<and> (\<exists>f'. pending_of view s' cid = Some (k, v, f') \<and> (first_failure rs = Ok () \<longrightarrow> (\<forall>t \<in> set ts. fits_file t) \<longrightarrow> f' = fold write_chunk ts f))"
  using assms(2,3)
proof (induction ts arbitrary: s rs f)
  case (Cons t ts)
  obtain r s1 where r: "run_chunk env a cid t s = (r, s1)" by fastforce
  obtain rs' where rs: "run_chunks env a cid ts s1 = (rs', s')" "rs = r # rs'"
    using Cons.prems(1) r by (auto split: prod.splits)
  from run_chunk_view [OF assms(1) r Cons.prems(2)] obtain f1 where
    one: "entries_of view s1 = entries_of view s" "pending_of view s1 cid = Some (k, v, f1)"
      "r = Ok () \<longrightarrow> fits_file t \<longrightarrow> f1 = write_chunk t f" by blast
  from Cons.IH [OF rs(1) one(2)] one rs(2) show ?case by (auto simp: first_failure_Ok)
qed simp

lemma commit_v1_view:
  assumes "v1_service env a view download" and "commit_v1 env a cid n s = (r, t)"
    and "pending_of view s cid = Some e"
  shows "entries_of view t \<in> {entries_of view s, insert e (entries_of view s)}"
    and "is_ok r \<Longrightarrow> entries_of view t = insert e (entries_of view s)"
proof -
  obtain x s1 where x: "send env (client a) (commit_rq a cid n) s = (x, s1)" by fastforce
  have "entries_of view t \<in> {entries_of view s, insert e (entries_of view s)}
    \<and> (is_ok r \<longrightarrow> entries_of view t = insert e (entries_of view s))"
    using x
  proof (cases rule: send_world)
    case (lost g)
    from lost x assms(2) have "t = s1" "\<not> is_ok r" by (auto simp: commit_v1_rq)
    then show ?thesis using commitsD(1) [OF assms(1) lost(1) assms(3)] by simp
  next
    case (answered res)
    with x assms(2) have "and_then (inspect_err (check_err a) (lift_result (check env res))) (\<lambda>_. return_ok n) s1 = (r, t)"
      by (simp add: commit_v1_rq)
    then have "ext t = ext s1 \<and> (is_ok r \<longleftrightarrow> is_success (rs_status res))"
      by (cases "is_success (rs_status res)") (auto simp: check_def inspect_err_def and_then_def)
    then show ?thesis using commitsD [OF assms(1) answered(1) assms(3)] by auto
  qed
  then show "entries_of view t \<in> {entries_of view s, insert e (entries_of view s)}"
    and "is_ok r \<Longrightarrow> entries_of view t = insert e (entries_of view s)" by blast+
qed

text \<open>
  What an upload does to the service: the whole source becomes visible, when it succeeds; otherwise
  nothing does, or the whole source (the answer to the commit was lost), and never a part of it.
\<close>

definition whole_or_nothing ::
  "reader \<Rightarrow> string \<times> string \<Rightarrow> (string \<times> string \<times> partial_file) set \<Rightarrow> bool
     \<Rightarrow> (string \<times> string \<times> partial_file) set \<Rightarrow> bool" where
  "whole_or_nothing r kv old ok new \<longleftrightarrow>
     (new = old \<and> \<not> ok
      \<or> reader_ending r = None
        \<and> (\<exists>f. (length (reader_content r) < 2 ^ 64 \<longrightarrow> f = file_of (reader_content r))
              \<and> new = insert (fst kv, snd kv, f) old))"

lemma committed_whole:
  assumes "v1_service env a view download" and "commit_v1 env a cid n s = (x, t)"
    and "pending_of view s cid = Some (k, v, f)" and "reader_ending r = None"
    and "length (reader_content r) < 2 ^ 64 \<longrightarrow> f = file_of (reader_content r)"
  shows "whole_or_nothing r (k, v) (entries_of view s) (is_ok x) (entries_of view t)"
  using commit_v1_view [OF assms(1-3)] assms(4,5)
  by (cases "is_ok x"; cases "entries_of view t = entries_of view s") (auto simp: whole_or_nothing_def)

lemma upload_v1_view:
  assumes "v1_service env a view download" and "upload_v1 env a cid r s = (x, t)"
    and "pending_of view s cid = Some (k, v, empty_file)"
  shows "whole_or_nothing r (k, v) (entries_of view s) (is_ok x) (entries_of view t)"
proof -
  obtain ts res where sp: "spawn_chunks 0 r = (ts, res)" by fastforce
  obtain rs s1 where rc: "run_chunks env a cid ts s = (rs, s1)" by fastforce
  from run_chunks_view [OF assms(1) rc assms(3)] obtain f' where
    same: "entries_of view s1 = entries_of view s" and pend: "pending_of view s1 cid = Some (k, v, f')"
    and f': "first_failure rs = Ok () \<longrightarrow> (\<forall>t \<in> set ts. fits_file t) \<longrightarrow> f' = fold write_chunk ts empty_file" by blast
  from assms(2) sp rc have run: "and_then (lift_result res) (\<lambda>offset. and_then (lift_result (first_failure rs))
      (\<lambda>_. commit_v1 env a cid offset)) s1 = (x, t)" by (simp add: upload_v1_def)
  show ?thesis
  proof (cases "\<exists>n. res = Ok n \<and> first_failure rs = Ok ()")
    case False
    with run same have "t = s1 \<and> \<not> is_ok x"
      by (cases "res"; cases "first_failure rs") auto
    with same show ?thesis by (simp add: whole_or_nothing_def)
  next
    case True
    then obtain n where n: "res = Ok n" "first_failure rs = Ok ()" by blast
    with spawn_chunks_cuts [OF sp] have ending: "reader_ending r = None"
      by (auto simp: cuts_source_def split: option.splits)
    from chunks_rebuild_source [OF sp ending _ refl] spawned_chunks_fit [OF sp ending] f' n
    have "length (reader_content r) < 2 ^ 64 \<longrightarrow> f' = file_of (reader_content r)" by simp
    moreover from run n have "commit_v1 env a cid n s1 = (x, t)" by simp
    ultimately show ?thesis
      using committed_whole [OF assms(1) _ pend ending] same by simp
  qed
qed

text \<open>The same of every interleaving of the chunk tasks.\<close>

definition pool_clean :: "('c, 'w) pool \<Rightarrow> bool" where
  "pool_clean p \<longleftrightarrow> (\<forall>t e. (t, Released (Err e)) \<notin> set (tasks p) \<and> (t, Finished (Err e)) \<notin> set (tasks p))"

definition pool_writing ::
  "('w \<Rightarrow> cache_view) \<Rightarrow> cache_id \<Rightarrow> string \<times> string \<Rightarrow> (string \<times> string \<times> partial_file) set \<Rightarrow> ('c, 'w) pool \<Rightarrow> bool"
where
  "pool_writing view cid kv old p \<longleftrightarrow>
     entries_of view (pool.world p) = old
     \<and> (\<exists>f. pending_of view (pool.world p) cid = Some (fst kv, snd kv, f)
          \<and> (pool_clean p \<longrightarrow> (\<forall>t \<in> set (sent p). fits_file t) \<longrightarrow> f = fold write_chunk (sent p) empty_file))"

lemma pool_step_writing:
  assumes "pool_step env a cid p q" and "v1_service env a view download" and "pool_writing view cid kv old p"
  shows "pool_writing view cid kv old q"
  using assms(1,3)
proof (induction rule: pool_step.induct)
  case (send_fail p xs t ys e w)
  then obtain f where f: "pending_of view (pool.world p) cid = Some (fst kv, snd kv, f)"
    and old: "entries_of view (pool.world p) = old"
    by (auto simp: pool_writing_def)
  have "\<not> pool_clean (p\<lparr>tasks := xs @ (t, Finished (Err e)) # ys, permits := Suc (permits p),
         sent := sent p @ [t], pool.world := w\<rparr>)" (is "\<not> pool_clean ?q")
  proof
    assume "pool_clean ?q"
    then have "(t, Finished (Err e)) \<notin> set (tasks ?q)" unfolding pool_clean_def by blast
    then show False by simp
  qed
  with send_chunk_run [OF assms(2) send_fail.hyps(2) f] old show ?case
    by (auto simp: pool_writing_def)
next
  case (send_ok p xs t ys res w)
  then obtain f where f: "pending_of view (pool.world p) cid = Some (fst kv, snd kv, f)"
    and old: "entries_of view (pool.world p) = old"
    and clean: "pool_clean p \<longrightarrow> (\<forall>t \<in> set (sent p). fits_file t) \<longrightarrow> f = fold write_chunk (sent p) empty_file"
    by (auto simp: pool_writing_def)
  note run = send_chunk_run [OF assms(2) send_ok.hyps(2) f]
  from run(2) obtain f' where f': "pending_of view w cid = Some (fst kv, snd kv, f')"
    "is_success (rs_status res) \<longrightarrow> fits_file t \<longrightarrow> f' = write_chunk t f" by auto
  let ?q = "p\<lparr>tasks := xs @ (t, Released (check env res)) # ys, permits := Suc (permits p),
         sent := sent p @ [t], pool.world := w\<rparr>"
  have "pool_clean p \<and> is_success (rs_status res)" if "pool_clean ?q"
  proof -
    from that have "(t, Released (Err e)) \<notin> set (tasks ?q)" for e unfolding pool_clean_def by blast
    from this [simplified] have "Err e \<noteq> check env res" for e by blast
    from this [of "handle_error env res"] have "is_success (rs_status res)"
      by (simp add: check_def split: if_splits)
    moreover from that send_ok.hyps(1) have "pool_clean p" by (auto simp: pool_clean_def)
    ultimately show ?thesis by simp
  qed
  with f' clean run(1) old show ?case by (auto simp: pool_writing_def)
next
  case (consult p xs t r ys)
  moreover have "pool_clean p"
    if "pool_clean (p\<lparr>tasks := xs @ (t, Finished r) # ys, pool.world := check_result a r (pool.world p)\<rparr>)"
    using that consult.hyps by (auto simp: pool_clean_def)
  ultimately show ?case by (auto simp: pool_writing_def)
qed (auto simp: pool_writing_def pool_clean_def)

lemma pool_outcome_view:
  assumes "v1_service env a view download"
    and "pool_run env a cid (start_pool n r s) p" and "pool_done p"
    and "pending_of view s cid = Some (k, v, empty_file)"
    and "pool_outcome env a cid p = (x, t)"
  shows "whole_or_nothing r (k, v) (entries_of view s) (is_ok x) (entries_of view t)"
proof -
  note inv = pool_run_inv [OF assms(2)]
  from assms(2) have "pool_writing view cid (k, v) (entries_of view s) p"
  proof (induction rule: rtranclp_induct)
    case base
    with assms(4) show ?case by (simp add: pool_writing_def pool_clean_def start_pool_def)
  next
    case (step y z)
    with assms(1) pool_step_writing show ?case by blast
  qed
  then obtain f where pend: "pending_of view (pool.world p) cid = Some (k, v, f)"
    and old: "entries_of view (pool.world p) = entries_of view s"
    and f: "pool_clean p \<longrightarrow> (\<forall>t \<in> set (sent p). fits_file t) \<longrightarrow> f = fold write_chunk (sent p) empty_file"
    by (auto simp: pool_writing_def)
  show ?thesis
  proof (cases "phase p = Joining \<and> first_failure (map (task_result \<circ> snd) (tasks p)) = Ok ()")
    case False
    with assms(3,5) have "t = pool.world p \<and> \<not> is_ok x"
      by (cases "phase p"; cases "first_failure (map (task_result \<circ> snd) (tasks p))")
         (auto simp: pool_outcome_def pool_done_def)
    with old show ?thesis by (simp add: whole_or_nothing_def)
  next
    case True
    then have "task_result st = Ok ()" if "(t, st) \<in> set (tasks p)" for t st
      using that by (force simp: first_failure_Ok)
    then have "pool_clean p"
      unfolding pool_clean_def by (metis result.distinct(1) task_result.simps(1,2))
    from inv True have sp: "spawn_chunks 0 r = (map fst (tasks p), Ok (pool_offset p))"
      by (simp add: pool_inv_def)
    with spawn_chunks_cuts [OF sp] have ending: "reader_ending r = None"
      by (auto simp: cuts_source_def split: option.splits)
    have sent: "set (sent p) = set (map fst (tasks p))"
      using pool_done_sent [OF inv assms(3)] by (metis set_mset_mset)
    have "\<forall>t \<in> set (sent p). fits_file t" if "length (reader_content r) < 2 ^ 64"
      using spawned_chunks_fit [OF sp ending that] sent by auto
    with chunks_rebuild_source [OF sp ending _ sent] f \<open>pool_clean p\<close>
    have "length (reader_content r) < 2 ^ 64 \<longrightarrow> f = file_of (reader_content r)" by simp
    moreover from assms(5) True have "commit_v1 env a cid (pool_offset p) (pool.world p) = (x, t)"
      by (simp add: pool_outcome_def)
    ultimately show ?thesis
      using committed_whole [OF assms(1) _ pend ending] old by simp
  qed
qed

section \<open>Lookups\<close>

lemma looks_upD:
  assumes "v1_service env a view download" and "http_send env (client a) (lookup_rq a [key]) w = (r, w')"
  shows "view w' = view w"
    and "r = Inr res \<Longrightarrow> check_json env (json_cache_entry env) res = Ok e \<Longrightarrow>
         \<exists>f \<in> stored_under (view w) a key. download w' (archive_location e) = Some f"
    and "r = Inr res \<Longrightarrow> check_json env (json_cache_entry env) res = Err (DecodeError NO_CONTENT b g) \<Longrightarrow>
         stored_under (view w) a key = {}"
  using assms unfolding v1_service_def looks_up_def by blast+

lemma get_entry_v1_view:
  assumes "v1_service env a view download" and "get_entry_v1 env a [key] s = (r, t)"
  shows "view (ext t) = view (ext s)"
    and "r = Ok (Some u) \<Longrightarrow> \<exists>f \<in> stored_under (view (ext s)) a key. download (ext t) u = Some f"
    and "r = Ok None \<Longrightarrow> stored_under (view (ext s)) a key = {}"
proof -
  obtain x s1 where x: "send env (client a) (lookup_rq a [key]) s = (x, s1)" by fastforce
  then have "view (ext t) = view (ext s)
    \<and> (\<forall>u. r = Ok (Some u) \<longrightarrow> (\<exists>f \<in> stored_under (view (ext s)) a key. download (ext t) u = Some f))
    \<and> (r = Ok None \<longrightarrow> stored_under (view (ext s)) a key = {})"
  proof (cases rule: send_world)
    case (lost g)
    with assms(2) x looks_upD(1) [OF assms(1) lost(1)] show ?thesis by (auto simp: get_entry_v1_rq)
  next
    case (answered res)
    let ?c = "check_json env (json_cache_entry env) res"
    from assms(2) x answered have t: "ext t = ext s1"
      and r: "r = (case ?c of
              Ok entry \<Rightarrow> Ok (Some (archive_location entry))
            | Err (DecodeError status b e) \<Rightarrow>
                if status = NO_CONTENT then Ok None else Err (DecodeError status b e)
            | Err e \<Rightarrow> Err e
            | Panic p \<Rightarrow> Panic p)"
      by (auto simp: get_entry_v1_rq Let_def)
    from r have "\<exists>e. ?c = Ok e \<and> u = archive_location e" if "r = Ok (Some u)" for u
      using that by (auto split: result.splits gha_error.splits if_splits)
    moreover from r have "\<exists>b e. ?c = Err (DecodeError NO_CONTENT b e)" if "r = Ok None"
      using that by (auto split: result.splits gha_error.splits if_splits)
    ultimately show ?thesis
      using looks_upD [OF assms(1) answered(1)] t by (metis prod.collapse)
  qed
  then show "view (ext t) = view (ext s)"
    and "r = Ok (Some u) \<Longrightarrow> \<exists>f \<in> stored_under (view (ext s)) a key. download (ext t) u = Some f"
    and "r = Ok None \<Longrightarrow> stored_under (view (ext s)) a key = {}" by blast+
qed

end
