(* ===== verification/ServiceV2.thy ===== *)
theory ServiceV2
  imports Service
begin

text \<open>
  Uploads and lookups through version 2 of the service: the entry that is created, the blob behind its
  signed URL (emptied, appended to, sealed), and its finalization.
\<close>

section \<open>Messages\<close>

lemmas reserve_v2_msg = reserve_v2_def [folded create_msg_def]
lemmas finalize_v2_msg = finalize_v2_def [folded finalize_msg_def]

lemma twirp_world:
  assumes "call_twirp f rq s = (r, t)"
  obtains (lost) e where "f rq (ext s) = (Inl e, ext t)" and "r = Err (TwirpError e)"
  | (answered) res where "f rq (ext s) = (Inr res, ext t)" and "r = Ok res"
  using assms by (auto simp: call_twirp_def split: prod.splits sum.splits)

lemma inspected_run:
  assumes "inspect_err (check_err a) m s = (r, t)"
  obtains s1 where "m s = (r, s1)" and "ext t = ext s1"
  using assms by (auto simp: inspect_err_def split: prod.splits result.splits)

lemma reserve_v2_run:
  assumes "v2_service env a view download" and "reserve_v2 env a key s = (r, t)"
  shows "entries_of view t = entries_of view s"
    and "r = Ok al \<Longrightarrow> \<exists>su. al = V2 su \<and> su_key su = key
          \<and> cv_signed (view (ext t)) (key, api_version a) = Some (signed_url su)"
proof -
  from assms(1) have law: "creates env a view" by (simp add: v2_service_def)
  obtain x s1 where x: "call_twirp (twirp_create_cache_entry env (twirp a)) (create_msg a key) s = (x, s1)"
    by fastforce
  have "entries_of view t = entries_of view s
    \<and> (\<forall>al. r = Ok al \<longrightarrow> (\<exists>su. al = V2 su \<and> su_key su = key
          \<and> cv_signed (view (ext t)) (key, api_version a) = Some (signed_url su)))"
    using x
  proof (cases rule: twirp_world)
    case (lost e)
    with assms(2) x have "ext t = ext s1" "\<not> is_ok r"
      by (auto simp: reserve_v2_msg inspect_err_def and_then_def)
    with law [unfolded creates_def, rule_format, OF lost(1)] show ?thesis by auto
  next
    case (answered res)
    with assms(2) x have "ext t = ext s1"
      and "r = (if ce_ok res then Ok (V2 \<lparr>signed_url = signed_upload_url res, su_key = key\<rparr>) else Err ApiErrorNotOk)"
      by (auto simp: reserve_v2_msg inspect_err_def and_then_def split: if_splits)
    with law [unfolded creates_def, rule_format, OF answered(1)] show ?thesis by auto
  qed
  then show "entries_of view t = entries_of view s"
    and "r = Ok al \<Longrightarrow> \<exists>su. al = V2 su \<and> su_key su = key
          \<and> cv_signed (view (ext t)) (key, api_version a) = Some (signed_url su)" by blast+
qed

section \<open>Writing the blob\<close>

text \<open>The blob at \<open>loc\<close>, which is signed for \<open>kv\<close> and holds \<open>c\<close>, while the entries are \<open>old\<close>.\<close>

definition blob_open ::
  "'w gha_env \<Rightarrow> ('w \<Rightarrow> cache_view) \<Rightarrow> string \<times> string \<Rightarrow> string \<Rightarrow> (string \<times> string \<times> partial_file) set
     \<Rightarrow> ('c, 'w, 'z) api_world_scheme \<Rightarrow> bool"
where
  "blob_open env view kv loc old s \<longleftrightarrow>
     entries_of view s = old \<and> (\<exists>su. cv_signed (view (ext s)) kv = Some su \<and> url_parse env su = Inr loc)"

abbreviation blob_of :: "('w \<Rightarrow> cache_view) \<Rightarrow> string \<Rightarrow> ('c, 'w, 'z) api_world_scheme \<Rightarrow> bytes option" where
  "blob_of view loc s \<equiv> cv_blobs (view (ext s)) loc"

text \<open>The requests that the client makes of a blob are those of the protocol.\<close>

abbreviation append_rq :: "'w gha_env \<Rightarrow> string \<Rightarrow> bytes \<Rightarrow> http_request" where
  "append_rq env loc d \<equiv> blob_put (url_append_pair env loc ''comp'' ''appendblock'') (length d) (Octets d)"

abbreviation seal_rq :: "'w gha_env \<Rightarrow> string \<Rightarrow> http_request" where
  "seal_rq env loc \<equiv> blob_put (url_append_pair env loc ''comp'' ''seal'') 0 No_Body"

lemma blob_requests_proper:
  "creates_blob loc (blob_put loc 0 No_Body)" "appends_block env loc d (append_rq env loc d)"
  "seals_blob env loc (seal_rq env loc)"
  by (simp_all add: creates_blob_def appends_block_def seals_blob_def blob_put_puts)

lemma blob_send:
  assumes "v2_service env a view download" and "blob_open env view kv loc old s" and "send env cl rq s = (x, t)"
    and "creates_blob loc rq \<or> seals_blob env loc rq \<or> (\<exists>d. appends_block env loc d rq)"
  shows "blob_open env view kv loc old t"
    and "creates_blob loc rq \<Longrightarrow> x = Ok res \<Longrightarrow> is_success (rs_status res) \<Longrightarrow> blob_of view loc t = Some []"
    and "appends_block env loc d rq \<Longrightarrow> x = Ok res \<Longrightarrow> is_success (rs_status res) \<Longrightarrow> blob_of view loc s = Some c
         \<Longrightarrow> blob_of view loc t = Some (c @ d)"
    and "seals_blob env loc rq \<Longrightarrow> blob_of view loc t = blob_of view loc s"
proof -
  from assms(1) have law: "blob_laws env view" by (simp add: v2_service_def)
  from assms(2) obtain su where su: "cv_signed (view (ext s)) kv = Some su" "url_parse env su = Inr loc"
    and old: "entries_of view s = old" by (auto simp: blob_open_def)
  from assms(3) obtain r where r: "http_send env cl rq (ext s) = (r, ext t)"
    and x: "x = Ok res \<Longrightarrow> r = Inr res" for res
    by (cases rule: send_world) auto
  note law = law [unfolded blob_laws_def, rule_format, OF su r]
  from law assms(4) su old show "blob_open env view kv loc old t" by (auto simp: blob_open_def)
  show "blob_of view loc t = Some []" if "creates_blob loc rq" "x = Ok res" "is_success (rs_status res)"
    using law that x [OF that(2)] by (simp add: accepted_def)
  show "blob_of view loc t = Some (c @ d)"
    if "appends_block env loc d rq" "x = Ok res" "is_success (rs_status res)" "blob_of view loc s = Some c"
    using law that x [OF that(2)] by (simp add: accepted_def)
  show "blob_of view loc t = blob_of view loc s" if "seals_blob env loc rq"
    using law that by blast
qed

text \<open>Appending the chunks, one after the other.\<close>

lemma append_chunk_view:
  assumes "v2_service env a view download" and "blob_open env view kv loc old s"
    and "append_chunk env a cl (url_append_pair env loc ''comp'' ''appendblock'') d s = (r, t)"
  shows "blob_open env view kv loc old t"
    and "r = Ok u \<Longrightarrow> blob_of view loc s = Some c \<Longrightarrow> blob_of view loc t = Some (c @ d)"
proof -
  obtain x s1 where x: "send env cl (append_rq env loc d) s = (x, s1)" by fastforce
  note sent = blob_send [OF assms(1,2) x]
  from assms(3) have "and_then (send env cl (append_rq env loc d))
      (\<lambda>res. inspect_err (check_err a) (lift_result (check env res))) s = (r, t)"
    by (simp only: append_chunk_def)
  then have run: "ext t = ext s1 \<and> (\<forall>u. r = Ok u \<longrightarrow> (\<exists>res. x = Ok res \<and> is_success (rs_status res)))"
  proof (cases rule: and_then_cases)
    case (cont res s2)
    with x show ?thesis
      by (cases "is_success (rs_status res)") (auto simp: inspect_err_def check_def)
  qed (use x in auto)
  moreover have "blob_open env view kv loc old s1" by (rule sent(1)) (use blob_requests_proper in blast)
  ultimately show "blob_open env view kv loc old t" by (simp add: blob_open_def)
  show "blob_of view loc t = Some (c @ d)" if "r = Ok u" "blob_of view loc s = Some c"
  proof -
    from run that(1) obtain res where "x = Ok res" "is_success (rs_status res)" by blast
    from sent(3) [OF _ blob_requests_proper(2) this that(2)] blob_requests_proper(2)
    have "blob_of view loc s1 = Some (c @ d)" by blast
    with run show ?thesis by simp
  qed
qed

lemma append_all_view:
  assumes "v2_service env a view download" and "blob_open env view kv loc old s"
    and "append_all env a cl (url_append_pair env loc ''comp'' ''appendblock'') cs s = (r, t)"
  shows "blob_open env view kv loc old t
    \<and> (r = Ok () \<longrightarrow> blob_of view loc s = Some c \<longrightarrow> blob_of view loc t = Some (c @ concat cs))"
  using assms(2,3)
proof (induction cs arbitrary: s c)
  case (Cons d cs)
  from Cons.prems(2) show ?case unfolding append_all.simps
  proof (cases rule: and_then_cases)
    case (cont u s1)
    from append_chunk_view [OF assms(1) Cons.prems(1) cont(1)] Cons.IH [OF _ cont(2), of "c @ d"]
    show ?thesis by auto
  qed (use append_chunk_view(1) [OF assms(1) Cons.prems(1)] in auto)
qed auto

section \<open>Uploads and lookups\<close>

text \<open>
  A step that keeps \<open>Q\<close>: the computation either stops there with an error or goes on from a state with \<open>Q\<close>.
\<close>

lemma quiet_then [consumes 2]:
  assumes "and_then m f s = (x, t)" and "\<forall>y u. m s = (y, u) \<longrightarrow> Q u"
  obtains (stops) "Q t" and "\<not> is_ok x" | (goes) y u where "m s = (Ok y, u)" and "f y u = (x, t)" and "Q u"
  using assms(1)
proof (cases rule: and_then_cases)
  case (cont y u)
  with assms(2) goes show ?thesis by blast
qed (use assms(2) stops in auto)

lemma finalize_v2_view:
  assumes "v2_service env a view download" and "blob_open env view (key, api_version a) loc old s"
    and "blob_of view loc s = Some c" and "finalize_v2 env a key n s = (r, t)"
  shows "entries_of view t \<in> {old, insert (key, api_version a, file_of c) old}"
    and "is_ok r \<Longrightarrow> entries_of view t = insert (key, api_version a, file_of c) old"
proof -
  from assms(1) have law: "finalizes env a view" by (simp add: v2_service_def)
  from assms(2) obtain su where su: "cv_signed (view (ext s)) (key, api_version a) = Some su" "url_parse env su = Inr loc"
    and old: "entries_of view s = old" by (auto simp: blob_open_def)
  obtain x s1 where x: "call_twirp (twirp_finalize_cache_entry_upload env (twirp a)) (finalize_msg a key n) s = (x, s1)"
    by fastforce
  then obtain y where y: "twirp_finalize_cache_entry_upload env (twirp a) (finalize_msg a key n) (ext s) = (y, ext s1)"
    and xy: "\<And>res. x = Ok res \<longleftrightarrow> y = Inr res" "is_ok x \<or> (\<exists>e. x = Err e)"
    by (cases rule: twirp_world) auto
  from assms(4) x xy(2) have t: "ext t = ext s1" and r: "is_ok r \<longleftrightarrow> (\<exists>res. y = Inr res \<and> fe_ok res)"
    by (cases x; auto simp: finalize_v2_msg inspect_err_def and_then_def xy(1) [symmetric] split: if_splits)+
  note law = law [unfolded finalizes_def, rule_format, OF su assms(3) y]
  from law t old show "entries_of view t \<in> {old, insert (key, api_version a, file_of c) old}" by simp
  from law t old r show "is_ok r \<Longrightarrow> entries_of view t = insert (key, api_version a, file_of c) old" by auto
qed

lemma append_chunks_view:
  assumes "v2_service env a view download" and "blob_open env view kv loc old s"
    and "append_chunks env a cl (url_append_pair env loc ''comp'' ''appendblock'') 0 rd s = (r, t)"
  shows "blob_open env view kv loc old t"
    and "r = Ok n \<Longrightarrow> blob_of view loc s = Some [] \<Longrightarrow>
         blob_of view loc t = Some (reader_content rd) \<and> reader_ending rd = None"
proof -
  obtain ts res where sp: "spawn_chunks 0 rd = (ts, res)" by fastforce
  let ?url = "url_append_pair env loc ''comp'' ''appendblock''"
  obtain y where y: "append_all env a cl ?url (map snd ts) s = (y, t)" and r: "r = Ok n \<Longrightarrow> y = Ok () \<and> res = Ok n"
    using assms(3) [unfolded append_chunks_eq [OF sp]] by (cases rule: and_then_cases) auto
  note all = append_all_view [OF assms(1,2) y, of "[]"]
  from all show "blob_open env view kv loc old t" ..
  show "blob_of view loc t = Some (reader_content rd) \<and> reader_ending rd = None"
    if "r = Ok n" "blob_of view loc s = Some []"
    using all r [OF that(1)] that(2) spawn_chunks_cuts [OF sp] by (auto simp: cuts_source_def split: option.splits)
qed

text \<open>A whole upload: nothing becomes visible before the finalization, and then the whole source.\<close>

lemma quiet_stop:
  assumes "blob_open env view kv loc old t" and "\<not> ok"
  shows "whole_or_nothing rd kv old ok (entries_of view t)"
  using assms by (simp add: whole_or_nothing_def blob_open_def)

lemma inspected_check:
  "and_then (inspect_err (check_err a) (lift_result (check env res))) f s = (x, t) \<Longrightarrow>
   is_success (rs_status res) \<and> f () s = (x, t) \<or> \<not> is_ok x \<and> ext t = ext s"
  by (cases "is_success (rs_status res)") (auto simp: check_def inspect_err_def and_then_def)

lemma seal_and_finalize:
  assumes "v2_service env a view download" and "blob_open env view (key, api_version a) loc old s"
    and "blob_of view loc s = Some (reader_content rd)" and "reader_ending rd = None"
    and "and_then (send env cl (seal_rq env loc)) (\<lambda>res. and_then (inspect_err (check_err a) (lift_result (check env res)))
          (\<lambda>_. finalize_v2 env a key n)) s = (x, t)"
  shows "whole_or_nothing rd (key, api_version a) old (is_ok x) (entries_of view t)"
proof -
  have keep: "\<forall>y u. send env cl (seal_rq env loc) s = (y, u) \<longrightarrow> blob_open env view (key, api_version a) loc old u"
    using blob_send(1) [OF assms(1,2)] blob_requests_proper(3) by blast
  from assms(5) keep show ?thesis
  proof (cases rule: quiet_then)
    case stops
    then show ?thesis by (rule quiet_stop)
  next
    case (goes res u)
    have held: "blob_of view loc u = Some (reader_content rd)"
      using blob_send(4) [OF assms(1,2) goes(1) _ blob_requests_proper(3)] blob_requests_proper(3) assms(3) by metis
    from inspected_check [OF goes(2)] show ?thesis
    proof (elim disjE conjE)
      assume "finalize_v2 env a key n u = (x, t)"
      from finalize_v2_view [OF assms(1) goes(3) held this] assms(4) show ?thesis
        by (cases "is_ok x"; cases "entries_of view t = old") (auto simp: whole_or_nothing_def)
    next
      assume "\<not> is_ok x" "ext t = ext u"
      with goes(3) show ?thesis by (simp add: whole_or_nothing_def blob_open_def)
    qed
  qed
qed

lemma write_blob:
  assumes "v2_service env a view download" and "blob_open env view (key, api_version a) loc old s"
    and "blob_of view loc s = Some []"
    and "and_then (append_chunks env a cl (url_append_pair env loc ''comp'' ''appendblock'') 0 rd)
        (\<lambda>offset. and_then (send env cl (seal_rq env loc))
        (\<lambda>res. and_then (inspect_err (check_err a) (lift_result (check env res)))
        (\<lambda>_. finalize_v2 env a key offset))) s = (x, t)"
  shows "whole_or_nothing rd (key, api_version a) old (is_ok x) (entries_of view t)"
proof -
  have "\<forall>y u. append_chunks env a cl (url_append_pair env loc ''comp'' ''appendblock'') 0 rd s = (y, u) \<longrightarrow>
      blob_open env view (key, api_version a) loc old u"
    using append_chunks_view(1) [OF assms(1,2)] by blast
  with assms(4) show ?thesis
  proof (cases rule: quiet_then)
    case stops
    then show ?thesis by (rule quiet_stop)
  next
    case (goes offset u)
    with append_chunks_view(2) [OF assms(1,2) goes(1) refl assms(3)] seal_and_finalize [OF assms(1) goes(3)]
    show ?thesis by blast
  qed
qed

lemma upload_v2_view:
  assumes "v2_service env a view download" and "upload_v2 env a su rd s = (x, t)"
    and "su_key su = key" and "cv_signed (view (ext s)) (key, api_version a) = Some (signed_url su)"
  shows "whole_or_nothing rd (key, api_version a) (entries_of view s) (is_ok x) (entries_of view t)"
proof (cases "\<exists>loc cl. url_parse env (signed_url su) = Inr loc \<and> client_build env blob_client = Inr cl")
  case False
  with assms(2) have "t = s \<and> \<not> is_ok x"
    by (cases "url_parse env (signed_url su)"; cases "client_build env blob_client") (auto simp: upload_v2_def)
  then show ?thesis by (simp add: whole_or_nothing_def)
next
  case True
  then obtain loc cl where loc: "url_parse env (signed_url su) = Inr loc" and cl: "client_build env blob_client = Inr cl"
    by blast
  let ?open = "\<lambda>u. blob_open env view (key, api_version a) loc (entries_of view s) u"
  from assms(4) loc have open0: "?open s" by (simp add: blob_open_def)
  from assms(2,3) loc cl have "and_then (send env cl (blob_put loc 0 No_Body)) (\<lambda>res. and_then (lift_result (check env res))
        (\<lambda>_. and_then (append_chunks env a cl (url_append_pair env loc ''comp'' ''appendblock'') 0 rd)
        (\<lambda>offset. and_then (send env cl (seal_rq env loc))
        (\<lambda>res'. and_then (inspect_err (check_err a) (lift_result (check env res')))
        (\<lambda>_. finalize_v2 env a key offset))))) s = (x, t)"
    by (simp add: upload_v2_def)
  moreover have "\<forall>y u. send env cl (blob_put loc 0 No_Body) s = (y, u) \<longrightarrow> ?open u"
    using blob_send(1) [OF assms(1) open0] blob_requests_proper(1) by blast
  ultimately show ?thesis
  proof (cases rule: quiet_then)
    case stops
    then show ?thesis by (rule quiet_stop)
  next
    case (goes res u)
    show ?thesis
    proof (cases "is_success (rs_status res)")
      case True
      with blob_send(2) [OF assms(1) open0 goes(1) _ blob_requests_proper(1) refl] blob_requests_proper(1)
      have "blob_of view loc u = Some []" by blast
      from write_blob [OF assms(1) goes(3) this] goes(2) True show ?thesis by (simp add: check_def)
    next
      case False
      with goes(2,3) show ?thesis by (intro quiet_stop) (auto simp: check_def)
    qed
  qed
qed

section \<open>Lookups\<close>

lemma get_entry_v2_view:
  assumes "v2_service env a view download" and "get_entry_v2 env a [key] s = (r, t)"
  shows "view (ext t) = view (ext s)"
    and "r = Ok (Some u) \<Longrightarrow> \<exists>f \<in> stored_under (view (ext s)) a key. download (ext t) u = Some f"
    and "r = Ok None \<Longrightarrow> stored_under (view (ext s)) a key = {}"
proof -
  from assms(1) have law: "finds_entries env a view download" by (simp add: v2_service_def)
  obtain x s1 where x: "call_twirp (twirp_get_cache_entry_download_url env (twirp a)) (lookup_msg a key) s = (x, s1)"
    by fastforce
  then obtain y where y: "twirp_get_cache_entry_download_url env (twirp a) (lookup_msg a key) (ext s) = (y, ext s1)"
    and xy: "x = (case y of Inr res \<Rightarrow> Ok res | Inl e \<Rightarrow> Err (TwirpError e))"
    by (cases rule: twirp_world) auto
  have t: "ext t = ext s1" and r: "r = (case y of Inr res \<Rightarrow> Ok (if ge_ok res then Some (signed_download_url res) else None)
      | Inl e \<Rightarrow> Err (TwirpError e))"
    using assms(2) x xy
    by (cases y; auto simp: get_entry_v2_def lookup_msg_def [symmetric] inspect_err_def and_then_def)+
  note law = law [unfolded finds_entries_def, rule_format, OF y]
  from law t show "view (ext t) = view (ext s)" by simp
  show "\<exists>f \<in> stored_under (view (ext s)) a key. download (ext t) u = Some f" if "r = Ok (Some u)"
    using law t r that by (cases y) (auto split: if_splits)
  show "stored_under (view (ext s)) a key = {}" if "r = Ok None"
    using law r that by (cases y) (auto split: if_splits)
qed

end
