(* ===== verification/Stored.thy ===== *)
theory Stored
  imports ServiceV2
begin

text \<open>
  The client against either version of the service: allocating, storing under a key, looking a key up.
\<close>

section \<open>Allocating\<close>

lemma draw_nonce_view:
  assumes "github_cache env a view download"
  shows "view (ext (snd (draw_nonce env n s))) = view (ext s)"
proof (induction n arbitrary: s)
  case (Suc n)
  obtain c w where c: "rand_alphanumeric env (ext s) = (c, w)" by fastforce
  have "view (snd (rand_alphanumeric env (ext s))) = view (ext s)"
    using assms unfolding github_cache_def by blast
  with c Suc [of "s\<lparr>ext := w\<rparr>"] show ?case by (simp add: split_beta)
qed simp


text \<open>What a client holds after reserving \<open>k\<close>: an empty file, or a signed URL.\<close>

fun reserved :: "'c api \<Rightarrow> cache_view \<Rightarrow> string \<Rightarrow> file_allocation \<Rightarrow> bool" where
  "reserved a v k (V1 cid) \<longleftrightarrow> uses_v1 a \<and> cv_pending v cid = Some (k, api_version a, empty_file)"
| "reserved a v k (V2 su) \<longleftrightarrow> \<not> uses_v1 a \<and> su_key su = k \<and> cv_signed v (k, api_version a) = Some (signed_url su)"

lemma github_cacheD:
  assumes "github_cache env a view download"
  shows "uses_v1 a \<Longrightarrow> v1_service env a view download" and "\<not> uses_v1 a \<Longrightarrow> v2_service env a view download"
  using assms by (simp_all add: github_cache_def)

lemma reserve_cache_run:
  assumes "github_cache env a view download" and "reserve_cache env a key cs s = (r, t)"
  shows "entries_of view t = entries_of view s"
    and "r = Ok al \<Longrightarrow> reserved a (view (ext t)) key al"
proof -
  have "entries_of view t = entries_of view s \<and> (\<forall>al. r = Ok al \<longrightarrow> reserved a (view (ext t)) key al)"
  proof (cases "tripped s")
    case True
    with assms(2) show ?thesis by (auto simp: reserve_cache_def)
  next
    case False
    show ?thesis
    proof (cases "uses_v1 a")
      case True
      with assms(2) False have "reserve_v1 env a key cs s = (r, t)" by (simp add: reserve_cache_def)
      from reserve_v1_run [OF github_cacheD(1) [OF assms(1) True] this] True show ?thesis by fastforce
    next
      case v2: False
      with assms(2) False have "reserve_v2 env a key s = (r, t)" by (simp add: reserve_cache_def)
      from reserve_v2_run [OF github_cacheD(2) [OF assms(1) v2] this] v2 show ?thesis by fastforce
    qed
  qed
  then show "entries_of view t = entries_of view s" and "r = Ok al \<Longrightarrow> reserved a (view (ext t)) key al"
    by blast+
qed

text \<open>An allocation reserves the key with a nonce of four characters.\<close>

definition nonced :: "string \<Rightarrow> string \<Rightarrow> bool" where
  "nonced key k \<longleftrightarrow> (\<exists>nonce. length nonce = 4 \<and> k = key @ ''-'' @ nonce)"

lemma allocate_attempts_run:
  assumes "github_cache env a view download" and "allocate_attempts env a n key s = (r, t)"
  shows "entries_of view t = entries_of view s
    \<and> (\<forall>al. r = Ok al \<longrightarrow> (\<exists>k. nonced key k \<and> reserved a (view (ext t)) k al))"
  using assms(2)
proof (induction n arbitrary: s)
  case (Suc n)
  obtain nonce s0 where n: "draw_nonce env 4 s = (nonce, s0)" by fastforce
  with draw_nonce_length [of env 4 s] draw_nonce_view [OF assms(1), of 4 s]
  have nonce: "length nonce = 4" "view (ext s0) = view (ext s)" by simp_all
  obtain x s1 where x: "reserve_cache env a (key @ ''-'' @ nonce) None s0 = (x, s1)" by fastforce
  note run = reserve_cache_run [OF assms(1) x]
  show ?case
  proof (cases x)
    case (Ok al)
    with Suc.prems n x have "r = Ok al" "t = s1" by (simp_all add: allocate_file_def)
    with run Ok nonce show ?thesis by (auto simp: nonced_def)
  next
    case (Err e)
    with Suc n x run(1) nonce(2) show ?thesis
      by (auto simp: allocate_file_def split: if_splits)
  next
    case (Panic m)
    with Suc.prems n x run(1) nonce(2) show ?thesis by (auto simp: allocate_file_def)
  qed
qed auto

lemma allocate_run:
  assumes "github_cache env a view download" and "allocate_file_with_random_suffix env a key s = (r, t)"
  shows "entries_of view t = entries_of view s"
    and "r = Ok al \<Longrightarrow> \<exists>k. nonced key k \<and> reserved a (view (ext t)) k al"
  using allocate_attempts_run [OF assms [unfolded allocate_file_with_random_suffix_def]] by auto

section \<open>Storing\<close>

lemma upload_file_view:
  assumes "github_cache env a view download" and "upload_file env a al r s = (x, t)"
    and "reserved a (view (ext s)) k al"
  shows "whole_or_nothing r (k, api_version a) (entries_of view s) (is_ok x) (entries_of view t)"
proof (cases "tripped s")
  case True
  with assms(2) show ?thesis by (auto simp: upload_file_def whole_or_nothing_def)
next
  case False
  show ?thesis
  proof (cases al)
    case (V1 cid)
    with assms(2) False have "upload_v1 env a cid r s = (x, t)" by (simp add: upload_file_def)
    from upload_v1_view [OF github_cacheD(1) [OF assms(1)] this] assms(3) V1 show ?thesis by simp
  next
    case (V2 su)
    with assms(2) False have "upload_v2 env a su r s = (x, t)" by (simp add: upload_file_def)
    from upload_v2_view [OF github_cacheD(2) [OF assms(1)] this] assms(3) V2 show ?thesis by simp
  qed
qed

lemma api_call_run: "api_call m s = (r, t) \<Longrightarrow> \<exists>x. m s = (x, t) \<and> r = map_err Api x"
  by (auto simp: api_call_def map_err_comp_def split: prod.splits)

lemma is_ok_map_err [simp]: "is_ok (map_err f x) = is_ok x"
  by (cases x) simp_all

lemma api_allocate_view:
  assumes "github_cache env a view download"
    and "api_call (allocate_file_with_random_suffix env a key) s = (r, t)"
  shows "entries_of view t = entries_of view s"
    and "r = Ok al \<Longrightarrow> \<exists>k. nonced key k \<and> reserved a (view (ext t)) k al"
proof -
  obtain x where x: "allocate_file_with_random_suffix env a key s = (x, t)" "r = map_err Api x"
    using api_call_run [OF assms(2)] by blast
  show "entries_of view t = entries_of view s" by (rule allocate_run(1) [OF assms(1) x(1)])
  show "\<exists>k. nonced key k \<and> reserved a (view (ext t)) k al"
    if "r = Ok al"
    using allocate_run(2) [OF assms(1) x(1)] x(2) that by (cases x) auto
qed

text \<open>What storing under a key may have done to the service.\<close>

definition stored_whole :: "'c api \<Rightarrow> string \<Rightarrow> reader \<Rightarrow> bool \<Rightarrow> cache_view \<Rightarrow> cache_view \<Rightarrow> bool" where
  "stored_whole a key r ok v v' \<longleftrightarrow>
     (\<exists>k. nonced key k \<and> whole_or_nothing r (k, api_version a) (cv_entries v) ok (cv_entries v'))"

lemma nonced_exists: "\<exists>k. nonced key k"
  by (simp add: nonced_def exI [of _ "''aaaa''"])

lemma stored_nothing: "cv_entries v' = cv_entries v \<Longrightarrow> stored_whole a key r False v v'"
  using nonced_exists by (auto simp: stored_whole_def whole_or_nothing_def)

lemma api_upload_view:
  assumes "github_cache env a view download" and "api_call (upload_file env a al r) s = (x, t)"
    and "reserved a (view (ext s)) k al" and "nonced key k"
    and "entries_of view s = cv_entries v"
  shows "stored_whole a key r (is_ok x) v (view (ext t))"
proof -
  obtain y where y: "upload_file env a al r s = (y, t)" "x = map_err Api y"
    using api_call_run [OF assms(2)] by blast
  from upload_file_view [OF assms(1) y(1) assms(3)] assms(4,5) y(2) show ?thesis
    by (auto simp: stored_whole_def)
qed

lemma store_file_view:
  assumes "github_cache env a view download" and "store_file env a key r s = (x, t)"
  shows "stored_whole a key r (is_ok x) (view (ext s)) (view (ext t))"
  using assms(2) [unfolded store_file_def]
proof (cases rule: and_then_cases)
  case (cont al s1)
  from api_allocate_view [OF assms(1) cont(1)] obtain k where
    "nonced key k" "reserved a (view (ext s1)) k al" "entries_of view s1 = entries_of view s" by blast
  with api_upload_view [OF assms(1)] cont(2) show ?thesis by blast
next
  case (error e)
  with api_allocate_view(1) [OF assms(1) error(1)] show ?thesis by (simp add: stored_nothing)
next
  case (panic m)
  with api_allocate_view(1) [OF assms(1) panic(1)] show ?thesis by (simp add: stored_nothing)
qed

section \<open>Keys\<close>

text \<open>No key hides behind another: keys are told apart by what precedes the first dot, and a nonce never
  completes a narinfo's name.\<close>

lemma prefix_narinfo_nonced:
  assumes "prefix (narinfo_key h) k" and "nonced key k"
  shows "prefix (narinfo_key h) key"
proof (rule ccontr)
  assume no: "\<not> prefix (narinfo_key h) key"
  from assms(2) obtain nonce where nonce: "length nonce = 4" and k: "k = key @ ''-'' @ nonce"
    by (auto simp: nonced_def)
  from assms(1) k have "prefix (narinfo_key h) (key @ ''-'' @ nonce)" by simp
  with no obtain x where x: "narinfo_key h = key @ x" "prefix x (''-'' @ nonce)"
    by (auto simp: prefix_append)
  with no have "x \<noteq> []" by auto
  with x(2) obtain y where xy: "x = CHR ''-'' # y" by (cases x) auto
  with x(2) nonce have "length y \<le> 4" using prefix_length_le by fastforce
  moreover have "h @ ''.nar'' @ ''info'' = key @ CHR ''-'' # y"
    using x(1) xy by (simp add: narinfo_key_def)
  ultimately show False
    by (auto simp: append_eq_append_conv2 append_eq_Cons_conv Cons_eq_append_conv le_Suc_eq length_Suc_conv
        numeral_eq_Suc)
qed

lemma before_char: "x \<notin> set h \<Longrightarrow> takeWhile (\<lambda>c. c \<noteq> x) (h @ x # r) = h"
  by (induction h) auto

lemma prefix_before_dot:
  assumes "prefix (h @ CHR ''.'' # q) (h' @ CHR ''.'' # r)" and "CHR ''.'' \<notin> set h" and "CHR ''.'' \<notin> set h'"
  shows "h = h' \<and> prefix q r"
proof -
  from assms(1) obtain z where z: "h' @ CHR ''.'' # r = h @ CHR ''.'' # (q @ z)"
    by (auto simp: prefix_def)
  from arg_cong [OF z, of "takeWhile (\<lambda>c. c \<noteq> CHR ''.'')"] have "h = h'"
    by (simp only: before_char [OF assms(2)] before_char [OF assms(3)])
  with z show ?thesis by (simp add: prefix_def)
qed

lemma narinfo_keys_apart:
  "CHR ''.'' \<notin> set h \<Longrightarrow> CHR ''.'' \<notin> set h' \<Longrightarrow> prefix (narinfo_key h) (narinfo_key h') \<Longrightarrow> h = h'"
  using prefix_before_dot [of h "''narinfo''" h' "''narinfo''"] by (simp add: narinfo_key_def)

lemma stored_other:
  assumes "stored_whole a key r ok v v'" and "\<And>k. nonced key k \<Longrightarrow> \<not> prefix key' k"
  shows "stored_under v' a key' = stored_under v a key'"
  using assms by (auto simp: stored_whole_def whole_or_nothing_def stored_under_def)

lemma stored_own:
  assumes "stored_whole a key r True v v'" and "length (reader_content r) < 2 ^ 64"
  shows "stored_under v' a key = insert (file_of (reader_content r)) (stored_under v a key)"
    and "reader_ending r = None"
  using assms by (auto simp: stored_whole_def whole_or_nothing_def stored_under_def nonced_def)

lemma stored_grows:
  "stored_whole a key r ok v v' \<Longrightarrow> stored_under v a key' \<subseteq> stored_under v' a key'"
  by (auto simp: stored_whole_def whole_or_nothing_def stored_under_def)

lemma stored_at_most:
  assumes "stored_whole a key r ok v v'" and "length (reader_content r) < 2 ^ 64"
  shows "stored_under v' a key' \<subseteq> insert (file_of (reader_content r)) (stored_under v a key')"
    and "stored_under v' a key' \<noteq> stored_under v a key' \<Longrightarrow> reader_ending r = None"
  using assms by (auto simp: stored_whole_def whole_or_nothing_def stored_under_def)

section \<open>Lookups\<close>

lemma get_file_url_view:
  assumes "github_cache env a view download" and "get_file_url env a [key] s = (r, t)"
  shows "view (ext t) = view (ext s)"
    and "r = Ok (Some u) \<Longrightarrow> \<exists>f \<in> stored_under (view (ext s)) a key. download (ext t) u = Some f"
    and "r = Ok None \<Longrightarrow> stored_under (view (ext s)) a key = {}"
proof -
  have "view (ext t) = view (ext s)
    \<and> (\<forall>u. r = Ok (Some u) \<longrightarrow> (\<exists>f \<in> stored_under (view (ext s)) a key. download (ext t) u = Some f))
    \<and> (r = Ok None \<longrightarrow> stored_under (view (ext s)) a key = {})"
  proof (cases "tripped s")
    case True
    with assms(2) show ?thesis by (auto simp: get_file_url_def)
  next
    case False
    show ?thesis
    proof (cases "uses_v1 a")
      case True
      with assms(2) False have "get_entry_v1 env a [key] s = (r, t)" by (simp add: get_file_url_def get_cache_entry_def)
      from get_entry_v1_view [OF github_cacheD(1) [OF assms(1) True] this] show ?thesis by blast
    next
      case v2: False
      with assms(2) False have "get_entry_v2 env a [key] s = (r, t)" by (simp add: get_file_url_def get_cache_entry_def)
      from get_entry_v2_view [OF github_cacheD(2) [OF assms(1) v2] this] show ?thesis by blast
    qed
  qed
  then show "view (ext t) = view (ext s)"
    and "r = Ok (Some u) \<Longrightarrow> \<exists>f \<in> stored_under (view (ext s)) a key. download (ext t) u = Some f"
    and "r = Ok None \<Longrightarrow> stored_under (view (ext s)) a key = {}" by blast+
qed

lemma api_lookup_view:
  assumes "github_cache env a view download" and "api_call (get_file_url env a [key]) s = (r, t)"
  shows "view (ext t) = view (ext s)"
    and "r = Ok (Some u) \<Longrightarrow> \<exists>f \<in> stored_under (view (ext s)) a key. download (ext t) u = Some f"
    and "r = Ok None \<Longrightarrow> stored_under (view (ext s)) a key = {}"
proof -
  obtain x where x: "get_file_url env a [key] s = (x, t)" "r = map_err Api x"
    using api_call_run [OF assms(2)] by blast
  note look = get_file_url_view [OF assms(1) x(1)]
  from look(1) show "view (ext t) = view (ext s)" .
  from look(2) x(2) show "\<exists>f \<in> stored_under (view (ext s)) a key. download (ext t) u = Some f" if "r = Ok (Some u)"
    using that by (cases x) auto
  from look(3) x(2) show "stored_under (view (ext s)) a key = {}" if "r = Ok None"
    using that by (cases x) auto
qed

end
