(* ===== verification/ServiceRun.thy ===== *)
theory ServiceRun
  imports Stored
begin

text \<open>
  The daemon against the service: what the handlers and the upload of a path do to the entries that can
  be found, and that an uploaded path can be fetched.
\<close>

section \<open>The narinfo handlers\<close>

lemma store_file_neg:
  "store_file env a key r s = (x, t) \<Longrightarrow> narinfo_negative_cache t = narinfo_negative_cache s"
  using keepsD [OF store_file_evolves] client_frame(1) by blast

lemma put_narinfo_view:
  assumes "github_cache env a view download" and "gha_api cfg = Some a" and "narinfo_hash p = Some h"
    and "put_narinfo env cfg p body s = (r, t)"
  shows "stored_whole a (narinfo_key h) body (is_ok r) (view (ext s)) (view (ext t))"
    and "narinfo_negative_cache t = (if is_ok r then narinfo_negative_cache s - {h} else narinfo_negative_cache s)"
proof -
  obtain x s1 where x: "store_file env a (narinfo_key h) body s = (x, s1)" by fastforce
  from assms(2-4) x have "ext t = ext s1 \<and> (is_ok r \<longleftrightarrow> is_ok x)
      \<and> narinfo_negative_cache t = (if is_ok r then narinfo_negative_cache s1 - {h} else narinfo_negative_cache s1)"
    by (cases x) (auto simp: put_narinfo_def bump_run)
  with store_file_view [OF assms(1) x] store_file_neg [OF x]
  show "stored_whole a (narinfo_key h) body (is_ok r) (view (ext s)) (view (ext t))"
    and "narinfo_negative_cache t = (if is_ok r then narinfo_negative_cache s - {h} else narinfo_negative_cache s)"
    by auto
qed

lemma redirect_run:
  "redirect_temporary env u s = (r, t) \<Longrightarrow> t = s \<and> (\<forall>x. r = Ok x \<longrightarrow> x = Redirect_Temporary u)"
  by (auto simp: redirect_temporary_def split: sum.splits)

lemma get_narinfo_view:
  assumes "github_cache env a view download" and "gha_api cfg = Some a"
    and "get_narinfo env cfg p s = (r, t)"
  shows "view (ext t) = view (ext s)"
    and "narinfo_hash p = Some h \<Longrightarrow> h \<notin> narinfo_negative_cache s \<Longrightarrow> stored_under (view (ext s)) a (narinfo_key h) \<noteq> {} \<Longrightarrow>
         r = Ok (Redirect_Temporary u) \<Longrightarrow>
         \<exists>f \<in> stored_under (view (ext s)) a (narinfo_key h). download (ext t) u = Some f"
    and "h \<in> narinfo_negative_cache t \<Longrightarrow> h \<in> narinfo_negative_cache s
         \<or> narinfo_hash p = Some h \<and> stored_under (view (ext s)) a (narinfo_key h) = {}"
proof -
  have q: "query_cache env cfg key s = (x, s1) \<Longrightarrow> api_call (get_file_url env a [key]) s = (x, s1)" for key x s1
    using assms(2) by (simp add: query_cache_def)
  note look = api_lookup_view [OF assms(1) q]
  have "view (ext t) = view (ext s)
    \<and> (\<forall>h u. narinfo_hash p = Some h \<longrightarrow> h \<notin> narinfo_negative_cache s \<longrightarrow>
         stored_under (view (ext s)) a (narinfo_key h) \<noteq> {} \<longrightarrow> r = Ok (Redirect_Temporary u) \<longrightarrow>
         (\<exists>f \<in> stored_under (view (ext s)) a (narinfo_key h). download (ext t) u = Some f))
    \<and> (\<forall>h \<in> narinfo_negative_cache t. h \<in> narinfo_negative_cache s
         \<or> narinfo_hash p = Some h \<and> stored_under (view (ext s)) a (narinfo_key h) = {})"
    using assms(3)
  proof (cases rule: get_narinfo_cases)
    case (failed h x)
    with look(1) query_cache_frame show ?thesis by fastforce
  next
    case (found h v s1)
    from redirect_run [of env v t r t] found(5) have "\<forall>u. r = Ok (Redirect_Temporary u) \<longrightarrow> u = v" by auto
    moreover have "ext t = ext s1" "narinfo_negative_cache t = narinfo_negative_cache s"
      using found(4) query_cache_frame [OF found(3)] by simp_all
    ultimately show ?thesis using look(1) [OF found(3)] look(2) [OF found(3) refl] found(1) by auto
  next
    case (absent h s1)
    with look(1,3) [OF absent(3)] query_cache_frame [OF absent(3)] show ?thesis by auto
  qed (auto simp: assms)
  then show "view (ext t) = view (ext s)"
    and "narinfo_hash p = Some h \<Longrightarrow> h \<notin> narinfo_negative_cache s \<Longrightarrow> stored_under (view (ext s)) a (narinfo_key h) \<noteq> {} \<Longrightarrow>
         r = Ok (Redirect_Temporary u) \<Longrightarrow>
         \<exists>f \<in> stored_under (view (ext s)) a (narinfo_key h). download (ext t) u = Some f"
    and "h \<in> narinfo_negative_cache t \<Longrightarrow> h \<in> narinfo_negative_cache s
         \<or> narinfo_hash p = Some h \<and> stored_under (view (ext s)) a (narinfo_key h) = {}" by blast+
qed

section \<open>The NAR handlers\<close>

lemma client_neg:
  fixes a :: "telemetry_report api"
  shows "keeps (api_evolves (breaker_callback a)) m \<Longrightarrow> api_call m s = (r, t) \<Longrightarrow>
    narinfo_negative_cache t = narinfo_negative_cache s"
  using keepsD [OF api_call_evolves] client_frame(1) by blast

lemma get_nar_view:
  assumes "github_cache env a view download" and "gha_api cfg = Some a" and "get_nar env cfg p s = (r, t)"
  shows "view (ext t) = view (ext s)" and "narinfo_negative_cache t = narinfo_negative_cache s"
    and "stored_under (view (ext s)) a p \<noteq> {} \<Longrightarrow> r = Ok (Redirect_Temporary u) \<Longrightarrow>
         \<exists>f \<in> stored_under (view (ext s)) a p. download (ext t) u = Some f"
proof -
  obtain x s1 where x: "api_call (get_file_url env a [p]) s = (x, s1)" by fastforce
  note look = api_lookup_view [OF assms(1) x]
  have neg: "narinfo_negative_cache s1 = narinfo_negative_cache s"
    by (rule client_neg [OF get_file_url_evolves x])
  have "ext t = ext s1 \<and> narinfo_negative_cache t = narinfo_negative_cache s1
    \<and> (\<forall>u. r = Ok (Redirect_Temporary u) \<longrightarrow> x = Ok (Some u) \<or> x = Ok None)"
  proof (cases x)
    case (Ok found)
    with assms(2,3) x show ?thesis
      by (cases found) (auto simp: get_nar_def bump_run simp del: api_call_Ok split: option.splits
          dest!: redirect_run)
  qed (use assms(2,3) x in \<open>auto simp: get_nar_def simp del: api_call_Ok\<close>)
  with look neg show "view (ext t) = view (ext s)" and "narinfo_negative_cache t = narinfo_negative_cache s"
    and "stored_under (view (ext s)) a p \<noteq> {} \<Longrightarrow> r = Ok (Redirect_Temporary u) \<Longrightarrow>
         \<exists>f \<in> stored_under (view (ext s)) a p. download (ext t) u = Some f"
    by auto
qed

lemma put_nar_view:
  assumes "github_cache env a view download" and "gha_api cfg = Some a" and "put_nar env cfg p body s = (r, t)"
  shows "stored_whole a p body (is_ok r) (view (ext s)) (view (ext t))"
    and "narinfo_negative_cache t = narinfo_negative_cache s"
proof -
  obtain x s1 where x: "store_file env a p body s = (x, s1)" by fastforce
  from assms(2,3) x have "ext t = ext s1 \<and> (is_ok r \<longleftrightarrow> is_ok x)
      \<and> narinfo_negative_cache t = narinfo_negative_cache s1"
    by (cases x) (auto simp: put_nar_def bump_run)
  with store_file_view [OF assms(1) x] store_file_neg [OF x]
  show "stored_whole a p body (is_ok r) (view (ext s)) (view (ext t))"
    and "narinfo_negative_cache t = narinfo_negative_cache s"
    by auto
qed

section \<open>Uploading a path\<close>

text \<open>
  What the store and the FlakeHub client do has nothing to do with the service; the NAR of a store path
  is always the same, as store paths do not change.
\<close>

definition store_apart :: "'w server_env \<Rightarrow> ('w \<Rightarrow> cache_view) \<Rightarrow> (store_path_name \<Rightarrow> bytes) \<Rightarrow> bool" where
  "store_apart env view nar \<longleftrightarrow>
     (\<forall>w p ps f. view (snd (query_path_info env p w)) = view w
        \<and> view (snd (nar_from_path_zstd env p w)) = view w
        \<and> reader_content (fst (nar_from_path_zstd env p w)) = nar p
        \<and> view (snd (compute_fs_closure_multi env ps w)) = view w
        \<and> view (snd (follow_store_path env f w)) = view w
        \<and> view (snd (read_store_dir env w)) = view w
        \<and> view (snd (push_queue_many env ps w)) = view w
        \<and> view (snd (push_session_wait env w)) = view w
        \<and> view (snd (read_logfile env f w)) = view w)"

text \<open>Names of hashes are in base 32: they have no dot.\<close>

definition plain_hashes :: "'w server_env \<Rightarrow> bool" where
  "plain_hashes env \<longleftrightarrow>
     (\<forall>p. CHR ''.'' \<notin> set (store_path_hash env p)) \<and> (\<forall>h. CHR ''.'' \<notin> set (hash_base32 env h))"

lemma outside_view:
  "(\<And>w. view (snd (f w)) = view w) \<Longrightarrow> outside f wrap s = (r, t) \<Longrightarrow>
   view (ext t) = view (ext s) \<and> narinfo_negative_cache t = narinfo_negative_cache s"
  by (auto simp: outside_def split: prod.splits sum.splits dest: meta_spec [of _ "ext s"])

lemma upload_nar_view:
  assumes "github_cache (gha_env.truncate env) a view download" and "store_apart env view nar"
    and "upload_nar env a path pi s = (r, t)"
  shows "\<exists>rd. reader_content rd = nar path
      \<and> stored_whole a (nar_file env pi) rd (is_ok r) (view (ext s)) (view (ext t))"
    and "narinfo_negative_cache t = narinfo_negative_cache s"
proof -
  let ?ge = "gha_env.truncate env"
  obtain x s1 where x: "api_call (allocate_file_with_random_suffix ?ge a (nar_file env pi)) s = (x, s1)" by fastforce
  obtain rd w where rd: "nar_from_path_zstd env path (ext s1) = (rd, w)" by fastforce
  with assms(2) have nar: "reader_content rd = nar path" and w: "view w = view (ext s1)"
    unfolding store_apart_def by (metis fst_conv snd_conv)+
  note alloc = api_allocate_view [OF assms(1) x]
  have neg1: "narinfo_negative_cache s1 = narinfo_negative_cache s"
    by (rule client_neg [OF allocate_evolves x])
  have "stored_whole a (nar_file env pi) rd (is_ok r) (view (ext s)) (view (ext t))
    \<and> narinfo_negative_cache t = narinfo_negative_cache s1"
  proof (cases x)
    case (Ok al)
    from alloc(2) [OF Ok] obtain k where k: "nonced (nar_file env pi) k"
      and pend: "reserved a (view (ext s1)) k al" by blast
    obtain y t1 where y: "api_call (upload_file ?ge a al rd) (s1\<lparr>ext := w\<rparr>) = (y, t1)" by fastforce
    have "stored_whole a (nar_file env pi) rd (is_ok y) (view (ext s)) (view (ext t1))"
      using alloc(1) pend w by (intro api_upload_view [OF assms(1) y _ k]) simp_all
    moreover have "narinfo_negative_cache t1 = narinfo_negative_cache s1"
      using client_neg [OF upload_file_evolves y] by simp
    moreover have "ext t = ext t1 \<and> (is_ok r \<longleftrightarrow> is_ok y) \<and> narinfo_negative_cache t = narinfo_negative_cache t1"
      using assms(3) x Ok rd y
      by (cases y) (auto simp: upload_nar_def Let_def open_nar_def bump_run and_then_def simp del: api_call_Ok)
    ultimately show ?thesis by simp
  next
    case (Err e)
    with assms(3) x alloc(1) show ?thesis by (auto simp: upload_nar_def Let_def stored_nothing simp del: api_call_Ok)
  next
    case (Panic m)
    with assms(3) x alloc(1) show ?thesis by (auto simp: upload_nar_def Let_def stored_nothing simp del: api_call_Ok)
  qed
  with nar neg1 show "\<exists>rd. reader_content rd = nar path
      \<and> stored_whole a (nar_file env pi) rd (is_ok r) (view (ext s)) (view (ext t))"
    and "narinfo_negative_cache t = narinfo_negative_cache s" by auto
qed

lemma upload_narinfo_view:
  assumes "github_cache (gha_env.truncate env) a view download"
    and "upload_narinfo env a path pi s = (r, t)"
  shows "(\<exists>doc. narinfo_document env pi = Ok doc
        \<and> stored_whole a (narinfo_key (store_path_hash env path)) (Slice doc)
            (is_ok r) (view (ext s)) (view (ext t)))
      \<or> \<not> is_ok r \<and> entries_of view t = entries_of view s"
    and "narinfo_negative_cache t =
      (if is_ok r then narinfo_negative_cache s - {store_path_hash env path} else narinfo_negative_cache s)"
proof -
  let ?ge = "gha_env.truncate env" and ?hash = "store_path_hash env path"
  obtain x s1 where x: "api_call (allocate_file_with_random_suffix ?ge a (narinfo_key ?hash)) s = (x, s1)" by fastforce
  note alloc = api_allocate_view [OF assms(1) x]
  have neg1: "narinfo_negative_cache s1 = narinfo_negative_cache s"
    by (rule client_neg [OF allocate_evolves x])
  have "((\<exists>doc. narinfo_document env pi = Ok doc
        \<and> stored_whole a (narinfo_key ?hash) (Slice doc) (is_ok r) (view (ext s)) (view (ext t)))
      \<or> \<not> is_ok r \<and> entries_of view t = entries_of view s)
    \<and> narinfo_negative_cache t =
      (if is_ok r then narinfo_negative_cache s1 - {?hash} else narinfo_negative_cache s1)"
  proof (cases "\<exists>al doc. x = Ok al \<and> narinfo_document env pi = Ok doc")
    case True
    then obtain al doc where Ok: "x = Ok al" and doc: "narinfo_document env pi = Ok doc" by blast
    from alloc(2) [OF Ok] obtain k where k: "nonced (narinfo_key ?hash) k"
      and pend: "reserved a (view (ext s1)) k al" by blast
    obtain y t1 where y: "api_call (upload_file ?ge a al (Slice doc)) s1 = (y, t1)" by fastforce
    have "stored_whole a (narinfo_key ?hash) (Slice doc) (is_ok y) (view (ext s)) (view (ext t1))"
      using alloc(1) pend by (intro api_upload_view [OF assms(1) y _ k]) simp_all
    moreover have "narinfo_negative_cache t1 = narinfo_negative_cache s1"
      by (rule client_neg [OF upload_file_evolves y])
    moreover have "ext t = ext t1 \<and> (is_ok r \<longleftrightarrow> is_ok y) \<and> narinfo_negative_cache t =
        (if is_ok r then narinfo_negative_cache t1 - {?hash} else narinfo_negative_cache t1)"
      using assms(2) x Ok doc y
      by (cases y) (auto simp: upload_narinfo_def Let_def bump_run and_then_def simp del: api_call_Ok)
    ultimately show ?thesis using doc by simp
  next
    case False
    with assms(2) x have "t = s1 \<and> \<not> is_ok r"
      by (cases x; cases "narinfo_document env pi") (auto simp: upload_narinfo_def Let_def and_then_def simp del: api_call_Ok)
    with alloc(1) show ?thesis by simp
  qed
  with neg1 show "(\<exists>doc. narinfo_document env pi = Ok doc
        \<and> stored_whole a (narinfo_key ?hash) (Slice doc) (is_ok r) (view (ext s)) (view (ext t)))
      \<or> \<not> is_ok r \<and> entries_of view t = entries_of view s"
    and "narinfo_negative_cache t =
      (if is_ok r then narinfo_negative_cache s - {?hash} else narinfo_negative_cache s)" by auto
qed

lemma plain_nar_file:
  assumes "plain_hashes env" and "CHR ''.'' \<notin> set h" and "nonced (nar_file env pi) k"
  shows "\<not> prefix (narinfo_key h) k"
proof
  assume "prefix (narinfo_key h) k"
  from prefix_narinfo_nonced [OF this assms(3)]
  have "prefix (h @ CHR ''.'' # ''narinfo'') (hash_base32 env (pi_nar_hash pi) @ CHR ''.'' # ''nar.zstd'')"
    by (simp add: nar_file_def narinfo_key_def)
  from prefix_before_dot [OF this assms(2)] assms(1) show False
    by (simp add: plain_hashes_def)
qed

lemma plain_narinfo_key:
  assumes "plain_hashes env" and "CHR ''.'' \<notin> set h" and "nonced (narinfo_key h) k"
  shows "\<not> prefix (nar_file env pi) k"
proof
  assume "prefix (nar_file env pi) k"
  with assms(3) obtain nonce where
    "prefix (hash_base32 env (pi_nar_hash pi) @ CHR ''.'' # ''nar.zstd'') (h @ CHR ''.'' # (''narinfo-'' @ nonce))"
    by (auto simp: nonced_def nar_file_def narinfo_key_def)
  from prefix_before_dot [OF this _ assms(2)] assms(1) show False
    by (simp add: plain_hashes_def)
qed

lemma nar_stored_apart:
  "stored_whole a (nar_file env pi) rd ok v v' \<Longrightarrow> plain_hashes env \<Longrightarrow> CHR ''.'' \<notin> set h \<Longrightarrow>
   stored_under v' a (narinfo_key h) = stored_under v a (narinfo_key h)"
  using stored_other plain_nar_file by metis

lemma narinfo_stored_apart:
  "stored_whole a (narinfo_key h') rd ok v v' \<Longrightarrow> CHR ''.'' \<notin> set h \<Longrightarrow> CHR ''.'' \<notin> set h' \<Longrightarrow> h \<noteq> h' \<Longrightarrow>
   stored_under v' a (narinfo_key h) = stored_under v a (narinfo_key h)"
  using stored_other narinfo_keys_apart prefix_narinfo_nonced by metis

lemma plain_store_hash: "plain_hashes env \<Longrightarrow> CHR ''.'' \<notin> set (store_path_hash env p)"
  by (simp add: plain_hashes_def)

text \<open>A narinfo's text names the file of its NAR in a line of its own.\<close>

definition names_nar :: "string \<Rightarrow> string \<Rightarrow> bool" where
  "names_nar doc f \<longleftrightarrow> sublist (''\<newline>URL: nar/'' @ f @ ''\<newline>'') doc"

lemma narinfo_document_names_nar:
  assumes "narinfo_document env pi = Ok doc"
  shows "names_nar doc (nar_file env pi)"
proof -
  let ?ne = "nar_format env"
  from assms obtain ni where ni: "path_info_to_nar_info env pi (''nar/'' @ nar_file env pi) = (Ok ni :: (server_error, nar_info) result)"
    and doc: "narinfo_to_string ?ne ni = Ok doc"
    by (auto simp: narinfo_document_def split: result.splits)
  from ni have url: "url ni = ''nar/'' @ nar_file env pi"
    by (auto simp: path_info_to_nar_info_def split: result.splits)
  from doc have "utf8_valid (store_path ni)"
    using narinfo_to_string_bad_path [of ni ?ne] by (cases "utf8_valid (store_path ni)") auto
  with narinfo_to_string_Ok [of ni ?ne] doc have "doc = render (narinfo_lines ?ne ni)" by simp
  also have "\<dots> = (''StorePath: '' @ store_path ni) @ (''\<newline>URL: nar/'' @ nar_file env pi @ ''\<newline>'')
      @ render (drop 2 (narinfo_lines ?ne ni))"
    by (simp add: narinfo_lines_def url)
  finally show ?thesis unfolding names_nar_def by (metis sublist_appendI)
qed

text \<open>The three ways an upload can go: no path info, no NAR, or an attempt to store the narinfo.\<close>

lemma upload_path_cases:
  assumes "github_cache (gha_env.truncate env) a view download" and "store_apart env view nar"
    and "upload_path env a path s = (r, t)"
  obtains (unknown) "\<not> is_ok r" "view (ext t) = view (ext s)" "narinfo_negative_cache t = narinfo_negative_cache s"
  | (no_nar) pi rd where "fst (query_path_info env path (ext s)) = Inr pi" "\<not> is_ok r" "reader_content rd = nar path"
      "stored_whole a (nar_file env pi) rd False (view (ext s)) (view (ext t))"
      "narinfo_negative_cache t = narinfo_negative_cache s"
  | (narinfo) pi rd s1 where "fst (query_path_info env path (ext s)) = Inr pi" "reader_content rd = nar path"
      "stored_whole a (nar_file env pi) rd True (view (ext s)) (view (ext s1))"
      "narinfo_negative_cache s1 = narinfo_negative_cache s" "upload_narinfo env a path pi s1 = (r, t)"
proof -
  have "view (snd (query_path_info env path w)) = view w" for w
    using assms(2) by (simp add: store_apart_def)
  note query = outside_view [of view "query_path_info env path", OF this]
  from assms(3) show thesis
    unfolding upload_path_def
  proof (cases rule: and_then_cases)
    case (cont pi s0)
    from query [OF cont(1)] have s0: "view (ext s0) = view (ext s)"
      "narinfo_negative_cache s0 = narinfo_negative_cache s" by auto
    from cont(1) have pi: "fst (query_path_info env path (ext s)) = Inr pi"
      by (auto simp: outside_def split: prod.splits sum.splits)
    from cont(2) show thesis
    proof (cases rule: and_then_cases)
      case (cont u s1)
      with upload_nar_view [OF assms(1,2) cont(1)] s0 pi show thesis by (auto intro: narinfo)
    next
      case (error e)
      with upload_nar_view [OF assms(1,2) error(1)] s0 pi show thesis by (auto intro: no_nar)
    next
      case (panic m)
      with upload_nar_view [OF assms(1,2) panic(1)] s0 pi show thesis by (auto intro: no_nar)
    qed
  next
    case (error e)
    with query [OF error(1)] show thesis by (auto intro: unknown)
  next
    case (panic m)
    with query [OF panic(1)] show thesis by (auto intro: unknown)
  qed
qed

lemma upload_path_Ok_view:
  assumes "github_cache (gha_env.truncate env) a view download" and "store_apart env view nar" and "plain_hashes env"
    and "upload_path env a path s = (Ok (), t)" and "length (nar path) < 2 ^ 64"
    and "fst (query_path_info env path (ext s)) = Inr pi"
  shows "\<exists>doc. narinfo_document env pi = Ok doc
    \<and> (length doc < 2 ^ 64 \<longrightarrow> stored_under (view (ext t)) a (narinfo_key (store_path_hash env path))
        = insert (file_of doc) (stored_under (view (ext s)) a (narinfo_key (store_path_hash env path))))"
    and "stored_under (view (ext t)) a (nar_file env pi)
      = insert (file_of (nar path)) (stored_under (view (ext s)) a (nar_file env pi))"
    and "store_path_hash env path \<notin> narinfo_negative_cache t"
  using assms(1,2,4)
proof (atomize (full), cases rule: upload_path_cases)
  case (narinfo pi' rd s1)
  with assms(6) have pi: "pi' = pi" by simp
  let ?key = "narinfo_key (store_path_hash env path)"
  have dots: "CHR ''.'' \<notin> set (store_path_hash env path)" by (rule plain_store_hash [OF assms(3)])
  from upload_narinfo_view [OF assms(1) narinfo(5)] pi obtain doc where doc: "narinfo_document env pi = Ok doc"
    and st: "stored_whole a ?key (Slice doc) True (view (ext s1)) (view (ext t))"
    and neg: "store_path_hash env path \<notin> narinfo_negative_cache t"
    by auto
  have "stored_under (view (ext s1)) a ?key = stored_under (view (ext s)) a ?key"
    by (rule nar_stored_apart [OF narinfo(3) assms(3) dots])
  with stored_own(1) [OF st]
  have "length doc < 2 ^ 64 \<longrightarrow> stored_under (view (ext t)) a ?key
      = insert (file_of doc) (stored_under (view (ext s)) a ?key)" by simp
  moreover have "stored_under (view (ext t)) a (nar_file env pi) = stored_under (view (ext s1)) a (nar_file env pi)"
    by (rule stored_other [OF st]) (rule plain_narinfo_key [OF assms(3) dots])
  with stored_own(1) [OF narinfo(3)] assms(5) narinfo(2) pi
  have "stored_under (view (ext t)) a (nar_file env pi)
      = insert (file_of (nar path)) (stored_under (view (ext s)) a (nar_file env pi))" by simp
  ultimately show "(\<exists>doc. narinfo_document env pi = Ok doc
    \<and> (length doc < 2 ^ 64 \<longrightarrow> stored_under (view (ext t)) a ?key
        = insert (file_of doc) (stored_under (view (ext s)) a ?key)))
    \<and> stored_under (view (ext t)) a (nar_file env pi)
      = insert (file_of (nar path)) (stored_under (view (ext s)) a (nar_file env pi))
    \<and> store_path_hash env path \<notin> narinfo_negative_cache t" using doc neg by blast
qed simp_all

lemma upload_path_new_narinfo:
  assumes "github_cache (gha_env.truncate env) a view download" and "store_apart env view nar" and "plain_hashes env"
    and "upload_path env a path s = (r, t)" and "length (nar path) < 2 ^ 64" and "CHR ''.'' \<notin> set h"
    and "g \<in> stored_under (view (ext t)) a (narinfo_key h) - stored_under (view (ext s)) a (narinfo_key h)"
    and docs: "\<forall>pi doc. fst (query_path_info env path (ext s)) = Inr pi \<longrightarrow> narinfo_document env pi = Ok doc \<longrightarrow>
        length doc < 2 ^ 64"
  shows "\<exists>pi doc. fst (query_path_info env path (ext s)) = Inr pi \<and> h = store_path_hash env path
    \<and> narinfo_document env pi = Ok doc \<and> g = file_of doc \<and> names_nar doc (nar_file env pi)
    \<and> file_of (nar path) \<in> stored_under (view (ext t)) a (nar_file env pi)"
  using assms(1,2,4)
proof (cases rule: upload_path_cases)
  case unknown
  with assms(7) show ?thesis by simp
next
  case (no_nar pi rd)
  from nar_stored_apart [OF no_nar(4) assms(3,6)] assms(7) show ?thesis by simp
next
  case (narinfo pi rd s1)
  have other: "stored_under (view (ext s1)) a (narinfo_key h) = stored_under (view (ext s)) a (narinfo_key h)"
    by (rule nar_stored_apart [OF narinfo(3) assms(3,6)])
  with assms(7) have "entries_of view t \<noteq> entries_of view s1"
    by (auto simp: stored_under_def)
  with upload_narinfo_view(1) [OF assms(1) narinfo(5)] obtain doc where doc: "narinfo_document env pi = Ok doc"
    and st: "stored_whole a (narinfo_key (store_path_hash env path)) (Slice doc)
      (is_ok r) (view (ext s1)) (view (ext t))" by auto
  have "h = store_path_hash env path"
    using narinfo_stored_apart [OF st assms(6) plain_store_hash [OF assms(3)]] other assms(7) by auto
  moreover have "g = file_of doc"
    using stored_at_most(1) [OF st, of "narinfo_key h"] docs [rule_format, OF narinfo(1) doc] other assms(7) by auto
  moreover have "file_of (nar path) \<in> stored_under (view (ext t)) a (nar_file env pi)"
    using stored_own(1) [OF narinfo(3)] assms(5) narinfo(2) stored_grows [OF st] by auto
  ultimately show ?thesis using narinfo(1) doc narinfo_document_names_nar by blast
qed

end
