(* ===== verification/ServiceInv.thy ===== *)
theory ServiceInv
  imports ServiceRun
begin

text \<open>
  Invariants of the running server that speak of what the service shows. The locale \<open>view_invariant\<close>
  has those that only look at the service and the negative cache, with the operations that touch neither;
  \<open>service_invariant\<close> adds what such a predicate has to withstand (a request to the binary cache, the
  upload of a path) and proves once that every event keeps it. The interpretations: what the service
  shows is not changed by the events outside the binary cache, and every narinfo that became visible has
  its NAR.
\<close>

section \<open>Events that leave the binary cache alone\<close>

fun quiet_event :: "server_event \<Rightarrow> bool" where
  "quiet_event Workflow_Start = True"
| "quiet_event (Enqueue_Paths ps) = True"
| "quiet_event (Build_Event frame) = True"
| "quiet_event ev = False"

locale view_invariant =
  fixes env :: "'w server_env" and cfg :: server_config and a :: "telemetry_report api"
    and view :: "'w \<Rightarrow> cache_view" and nar :: "store_path_name \<Rightarrow> bytes"
    and I :: "'w server \<Rightarrow> bool"
  assumes apart: "I s \<Longrightarrow> store_apart env view nar"
    and api: "I s \<Longrightarrow> gha_api cfg = Some a"
    and same: "I s \<Longrightarrow> view (ext t) = view (ext s) \<Longrightarrow> narinfo_negative_cache t = narinfo_negative_cache s \<Longrightarrow> I t"
begin

lemma quiet:
  assumes "\<And>s. narinfo_negative_cache (snd (m s)) = narinfo_negative_cache s"
    and "\<And>s. store_apart env view nar \<Longrightarrow> view (ext (snd (m s))) = view (ext s)"
  shows "preserves I m"
  by (rule preservesI, rule same) (simp_all add: assms apart)

lemma outside_kept:
  "(\<And>w. store_apart env view nar \<Longrightarrow> view (snd (f w)) = view w) \<Longrightarrow> preserves I (outside f wrap)"
  by (rule quiet) (simp_all add: outside_eq)

lemma record_count_kept: "preserves I (record_count upd n)"
  by (rule quiet) (simp_all add: record_count_def)

lemma modify_kept:
  "preserves I (modify (\<lambda>s. s\<lparr>original_paths := ps\<rparr>))"
  "preserves I (modify (\<lambda>s. s\<lparr>shutdown_cancelled := b\<rparr>))"
  by (rule quiet; simp)+

lemma store_calls_kept:
  "preserves I (outside (compute_fs_closure_multi env ps) wrap)"
  "preserves I (outside (follow_store_path env f) wrap)"
  "preserves I (outside (read_store_dir env) wrap)"
  "preserves I (outside (push_queue_many env ps) wrap)"
  "preserves I (outside (push_session_wait env) wrap)"
  "preserves I (outside (read_logfile env f) wrap)"
  by (rule outside_kept; simp add: store_apart_def)+

lemmas kept = preserves_steps store_calls_kept record_count_kept modify_kept

section \<open>Handlers that leave the binary cache alone\<close>

lemma send_uploads_kept: "preserves I (send_uploads ps)"
proof (rule quiet)
  show "view (ext (snd (send_uploads ps s))) = view (ext s)" for s :: "'w server"
    by (induction ps arbitrary: s) (simp_all add: channel_send_def)
  show "narinfo_negative_cache (snd (send_uploads ps s)) = narinfo_negative_cache s" for s :: "'w server"
    by (induction ps arbitrary: s) (simp_all add: channel_send_def)
qed

lemma enqueue_paths_kept: "preserves I (enqueue_paths env cfg ps)"
proof (rule preservesI)
  fix s assume s: "I s"
  have "preserves I (\<lambda>s. if flakehub_on s then flakehub_enqueue_paths env ps s else (Ok (), s))"
    using store_calls_kept(4) [of ps FlakeHub] by (simp add: preserves_def keeps_def flakehub_enqueue_paths_def)
  moreover have "preserves I (gha_enqueue_paths env ps)"
    unfolding gha_enqueue_paths_def by (intro kept send_uploads_kept)
  ultimately have "preserves I (enqueue_paths env cfg ps)"
    using api [OF s] by (simp add: enqueue_paths_def preserves_steps(1))
  with s show "I (snd (enqueue_paths env cfg ps s))" by (simp add: preservesD)
qed

lemma follow_store_paths_kept: "preserves I (follow_store_paths env ps)"
proof (induction ps)
  case Nil
  show ?case by (rule preservesI) simp
next
  case (Cons p ps)
  then have "preserves I (and_then (outside (follow_store_path env p) Attic)
      (\<lambda>n. and_then (follow_store_paths env ps) (\<lambda>ns. return_ok (n # ns))))"
    by (intro kept)
  then show ?case by (simp add: preserves_def keeps_def)
qed

lemma get_store_paths_kept: "preserves I (get_store_paths env)"
  unfolding get_store_paths_def by (intro kept)

lemma diff_and_enqueue_kept: "preserves I (diff_and_enqueue env cfg)"
proof (rule preservesI)
  fix s assume "I s"
  moreover have "preserves I (and_then (get_store_paths env)
        (\<lambda>final. and_then (follow_store_paths env (hash_order env (final - original_paths s)))
        (\<lambda>new. and_then (record_count num_original_paths_update (card (original_paths s)))
        (\<lambda>_. and_then (record_count num_final_paths_update (card final))
        (\<lambda>_. and_then (record_count num_new_paths_update (length new))
        (\<lambda>_. and_then (enqueue_paths env cfg new)
        (\<lambda>_. return_ok
               \<lparr>wf_original_paths = Some (of_nat (card (original_paths s))),
                wf_final_paths = Some (of_nat (card final)),
                wf_new_paths = Some (of_nat (length new))\<rparr>)))))))"
    by (intro kept get_store_paths_kept follow_store_paths_kept enqueue_paths_kept)
  ultimately show "I (snd (diff_and_enqueue env cfg s))"
    by (simp add: diff_and_enqueue_def Let_def preservesD)
qed

lemma finish_flakehub_kept: "preserves I (finish_flakehub env)"
proof (rule preservesI)
  fix s assume s: "I s"
  have "I (s\<lparr>flakehub_on := False\<rparr>)" by (rule same [OF s]) simp_all
  moreover have "preserves I (and_then (outside (push_session_wait env) FlakeHub) (\<lambda>_. return_ok ()))"
    by (intro kept)
  ultimately show "I (snd (finish_flakehub env s))"
    using s by (simp add: finish_flakehub_def preservesD)
qed

lemma handle_frame_kept:
  assumes "I s"
  shows "I (handle_frame env cfg frame s)"
proof -
  have "I s1" if "follow_store_paths env outputs s = (r, s1)" for outputs r s1
    by (rule preservesD_run [OF follow_store_paths_kept that assms])
  then show ?thesis
    using assms preservesD [OF enqueue_paths_kept]
    by (auto simp: handle_frame_def split: option.split sum.split prod.split result.split)
qed

lemma quiet_event_kept:
  assumes "quiet_event ev" and "I s"
  shows "I (handle_event env cfg ev s)"
  using assms(1)
proof (cases ev)
  case Workflow_Start
  have "preserves I (workflow_start env cfg)"
    unfolding workflow_start_def
    by (cases "diff_store cfg") (auto simp del: return_ok_simp intro!: kept get_store_paths_kept)
  with assms(2) Workflow_Start show ?thesis by (simp add: preservesD)
next
  case (Enqueue_Paths ps)
  have "preserves I (post_enqueue_paths env cfg ps)"
    unfolding post_enqueue_paths_def by (intro kept follow_store_paths_kept enqueue_paths_kept)
  with assms(2) Enqueue_Paths show ?thesis by (simp add: preservesD)
next
  case (Build_Event frame)
  with handle_frame_kept [OF assms(2)] show ?thesis by simp
qed simp_all

end

section \<open>Invariants that withstand requests and uploads\<close>

locale service_invariant = view_invariant env cfg a view nar I
  for env :: "'w server_env" and cfg :: server_config and a :: "telemetry_report api"
    and view :: "'w \<Rightarrow> cache_view" and nar :: "store_path_name \<Rightarrow> bytes" and I :: "'w server \<Rightarrow> bool" +
  fixes allowed :: "server_event \<Rightarrow> bool"
  assumes served: "allowed (Cache_Request rq) \<Longrightarrow> I s \<Longrightarrow> I (serve (gha_env.truncate env) cfg rq s)"
    and uploaded: "upload_path env a path s = (r, t) \<Longrightarrow> I s \<Longrightarrow> I t"
begin

lemma worker_upload_kept:
  assumes "I s"
  shows "I (worker_upload env a path s)"
proof (rule worker_upload_cases [where s = s and path = path and env = env and a = a])
  have s: "I (s\<lparr>worker_done := insert path (worker_done s)\<rparr>)"
    by (rule same [OF assms]) simp_all
  show ?thesis if "worker_upload env a path s = s" using that assms by simp
  show ?thesis if "upload_path env a path (s\<lparr>worker_done := insert path (worker_done s)\<rparr>) = (Panic p, t)"
    and "worker_upload env a path s = worker_stop (Panic p) t" for p t
    unfolding that(2) by (rule same [OF uploaded [OF that(1) s]]) (simp_all add: worker_stop_def)
  show ?thesis if "upload_path env a path (s\<lparr>worker_done := insert path (worker_done s)\<rparr>) = (r, t)"
    and "worker_upload env a path s = t" for r t
    using that uploaded [OF _ s] by simp
qed

lemma worker_step_kept:
  assumes "I s"
  shows "I (worker_step env a s)"
proof -
  have taken: "I (s\<lparr>channel := q\<rparr>)" for q by (rule same [OF assms]) simp_all
  have "I (worker_stop r (s\<lparr>channel := q\<rparr>))" for r q
    by (rule same [OF taken]) (simp_all add: worker_stop_def)
  with assms worker_upload_kept [OF taken] show ?thesis
    by (auto simp: worker_step_def split: list.split gha_request.split)
qed

lemma worker_run_kept:
  assumes "I s"
  shows "I (worker_run env a s)"
proof -
  have "env' = env \<Longrightarrow> a' = a \<Longrightarrow> I s' \<Longrightarrow> I (worker_run env' a' s')" for env' a' s'
  proof (induction env' a' s' rule: worker_run.induct)
    case (1 env' a' s')
    then show ?case
      using worker_step_kept worker_run_step [of env a s']
      by (cases "worker_result s' = None \<and> channel s' \<noteq> []") auto
  qed
  with assms show ?thesis by blast
qed

lemma gha_shutdown_kept: "preserves I (gha_shutdown env a)"
proof (rule preservesI)
  fix s assume s: "I s"
  have fields: "I (s\<lparr>worker_handle := False\<rparr>)" "I (s\<lparr>worker_handle := False, channel := q\<rparr>)" for q
    by (rule same [OF s]; simp)+
  then show "I (snd (gha_shutdown env a s))"
    using s worker_run_kept by (simp add: gha_shutdown_def channel_send_def Let_def)
qed

lemma workflow_finish_kept: "preserves I (workflow_finish env cfg)"
proof -
  have "preserves I (dump_logfile env cfg)"
    unfolding dump_logfile_def
    by (cases "logfile cfg") (auto simp del: return_ok_simp intro!: kept)
  moreover have "preserves I (if diff_store cfg then diff_and_enqueue env cfg
        else return_ok \<lparr>wf_original_paths = None, wf_final_paths = None, wf_new_paths = None\<rparr>)"
    by (auto simp del: return_ok_simp intro!: kept diff_and_enqueue_kept)
  moreover have "preserves I (case gha_api cfg of Some a \<Rightarrow> gha_shutdown env a | None \<Rightarrow> return_ok ())"
    by (rule preservesI) (simp add: api preservesD [OF gha_shutdown_kept])
  ultimately show ?thesis
    unfolding workflow_finish_def by (intro kept finish_flakehub_kept)
qed

lemma event_kept:
  assumes "allowed ev" and "I s"
  shows "I (handle_event env cfg ev s)"
proof (cases "quiet_event ev")
  case False
  then show ?thesis
  proof (cases ev)
    case (Cache_Request rq)
    with assms served show ?thesis by simp
  next
    case Workflow_Finish
    with assms(2) workflow_finish_kept show ?thesis by (simp add: preservesD)
  next
    case Worker_Turn
    with assms(2) worker_step_kept [OF assms(2)] api [OF assms(2)] show ?thesis by simp
  qed simp_all
qed (rule quiet_event_kept [OF _ assms(2)])

lemma run_kept:
  "I s \<Longrightarrow> \<forall>ev \<in> set evs. allowed ev \<Longrightarrow> I (fold (handle_event env cfg) evs s)"
  by (induction evs arbitrary: s) (simp_all add: event_kept)

end

section \<open>What is relied on\<close>

text \<open>The names under which Nix stores NARs are not those of narinfos.\<close>

definition nar_name :: "string \<Rightarrow> bool" where
  "nar_name p \<longleftrightarrow> \<not> sublist ''.narinfo'' p"

lemma nar_key_apart:
  assumes "nar_name p" and "nonced p k"
  shows "\<not> prefix (narinfo_key h) k"
proof
  assume "prefix (narinfo_key h) k"
  from prefix_narinfo_nonced [OF this assms(2)] assms(1) show False
    by (auto simp: nar_name_def narinfo_key_def prefix_def sublist_def)
qed

definition service_run ::
  "'w server_env \<Rightarrow> server_config \<Rightarrow> telemetry_report api \<Rightarrow> ('w \<Rightarrow> cache_view)
     \<Rightarrow> ('w \<Rightarrow> string \<Rightarrow> partial_file option) \<Rightarrow> (store_path_name \<Rightarrow> bytes) \<Rightarrow> bool" where
  "service_run env cfg a view download nar \<longleftrightarrow>
     github_cache (gha_env.truncate env) a view download \<and> store_apart env view nar \<and> plain_hashes env
     \<and> gha_api cfg = Some a"

text \<open>The events other than requests and uploads change neither what the service shows nor the negative cache.\<close>

interpretation unchanged: view_invariant env cfg a view nar
    "\<lambda>s. service_run env cfg a view download nar \<and> view (ext s) = v \<and> narinfo_negative_cache s = hs"
  for env :: "'w server_env" and cfg a view download nar v hs
  by unfold_locales (auto simp: service_run_def)

lemma quiet_event_unchanged:
  assumes "service_run env cfg a view download nar" and "quiet_event ev"
  shows "view (ext (handle_event env cfg ev s)) = view (ext s)"
    and "narinfo_negative_cache (handle_event env cfg ev s) = narinfo_negative_cache s"
  using unchanged.quiet_event_kept [where s = s and v = "view (ext s)" and hs = "narinfo_negative_cache s", OF assms(2)]
    assms(1) by simp_all

section \<open>Every narinfo has its NAR\<close>

text \<open>Files whose length is one of a file: what both versions of the protocol can state.\<close>

definition files_fit :: "'w server_env \<Rightarrow> (store_path_name \<Rightarrow> bytes) \<Rightarrow> bool" where
  "files_fit env nar \<longleftrightarrow> (\<forall>path. length (nar path) < 2 ^ 64)
     \<and> (\<forall>path w pi doc. fst (query_path_info env path w) = Inr pi \<longrightarrow> narinfo_document env pi = Ok doc \<longrightarrow>
           length doc < 2 ^ 64)"

abbreviation "store_run env cfg a view download nar \<equiv>
  service_run env cfg a view download nar \<and> files_fit env nar"

text \<open>
  A narinfo \<open>g\<close> under a hash is one of a path that the store knows: its text is the document of that path
  and names its NAR, and the whole NAR is visible under that name.
\<close>

definition complete_narinfo ::
  "'w server_env \<Rightarrow> telemetry_report api \<Rightarrow> (store_path_name \<Rightarrow> bytes) \<Rightarrow> cache_view \<Rightarrow> string \<Rightarrow> partial_file \<Rightarrow> bool"
where
  "complete_narinfo env a nar v h g \<longleftrightarrow>
     (\<exists>path w pi doc. fst (query_path_info env path w) = Inr pi \<and> h = store_path_hash env path
        \<and> narinfo_document env pi = Ok doc \<and> g = file_of doc \<and> names_nar doc (nar_file env pi)
        \<and> file_of (nar path) \<in> stored_under v a (nar_file env pi))"

text \<open>The narinfos that became visible since the service showed \<open>v\<close> are complete.\<close>

definition narinfos_complete ::
  "'w server_env \<Rightarrow> telemetry_report api \<Rightarrow> (store_path_name \<Rightarrow> bytes) \<Rightarrow> cache_view \<Rightarrow> cache_view \<Rightarrow> bool"
where
  "narinfos_complete env a nar v v' \<longleftrightarrow>
     (\<forall>h g. CHR ''.'' \<notin> set h \<longrightarrow> g \<in> stored_under v' a (narinfo_key h) - stored_under v a (narinfo_key h) \<longrightarrow>
        complete_narinfo env a nar v' h g)"

fun leaves_narinfos :: "server_event \<Rightarrow> bool" where
  "leaves_narinfos (Cache_Request (Put_Narinfo p body)) = False"
| "leaves_narinfos (Cache_Request (Put_Nar p body)) = nar_name p"
| "leaves_narinfos ev = True"

lemma complete_step:
  assumes "narinfos_complete env a nar v v'" and "\<And>key. stored_under v' a key \<subseteq> stored_under v'' a key"
    and "\<And>h g. CHR ''.'' \<notin> set h \<Longrightarrow> g \<in> stored_under v'' a (narinfo_key h) - stored_under v' a (narinfo_key h) \<Longrightarrow>
        complete_narinfo env a nar v'' h g"
  shows "narinfos_complete env a nar v v''"
  unfolding narinfos_complete_def
proof (intro allI impI)
  fix h g assume h: "CHR ''.'' \<notin> set h" "g \<in> stored_under v'' a (narinfo_key h) - stored_under v a (narinfo_key h)"
  show "complete_narinfo env a nar v'' h g"
  proof (cases "g \<in> stored_under v' a (narinfo_key h)")
    case True
    with h assms(1) have "complete_narinfo env a nar v' h g" unfolding narinfos_complete_def by blast
    with assms(2) show ?thesis unfolding complete_narinfo_def by blast
  next
    case False
    with assms(3) h show ?thesis by blast
  qed
qed

lemma upload_path_grows:
  assumes "github_cache (gha_env.truncate env) a view download" and "store_apart env view nar"
    and "upload_path env a path s = (r, t)"
  shows "stored_under (view (ext s)) a key \<subseteq> stored_under (view (ext t)) a key"
  using assms
proof (cases rule: upload_path_cases)
  case (no_nar pi rd)
  then show ?thesis using stored_grows by blast
next
  case (narinfo pi rd s1)
  have "stored_under (view (ext s1)) a key \<subseteq> stored_under (view (ext t)) a key"
    using upload_narinfo_view(1) [OF assms(1) narinfo(5)]
  proof (elim disjE exE conjE)
    assume "entries_of view t = entries_of view s1"
    then show ?thesis by (simp add: stored_under_def)
  qed (rule stored_grows)
  with stored_grows [OF narinfo(3)] show ?thesis by blast
qed simp

lemma upload_path_complete:
  assumes "store_run env cfg a view download nar" and "upload_path env a path s = (r, t)"
    and "narinfos_complete env a nar v (view (ext s))"
  shows "narinfos_complete env a nar v (view (ext t))"
proof (rule complete_step [OF assms(3)])
  from assms(1) have svc: "github_cache (gha_env.truncate env) a view download" "store_apart env view nar"
    "plain_hashes env" and len: "length (nar path) < 2 ^ 64"
    and docs: "\<forall>pi doc. fst (query_path_info env path (ext s)) = Inr pi \<longrightarrow> narinfo_document env pi = Ok doc \<longrightarrow>
        length doc < 2 ^ 64"
    unfolding service_run_def files_fit_def by blast+
  show "stored_under (view (ext s)) a key \<subseteq> stored_under (view (ext t)) a key" for key
    by (rule upload_path_grows [OF svc(1,2) assms(2)])
  show "complete_narinfo env a nar (view (ext t)) h g"
    if "CHR ''.'' \<notin> set h" "g \<in> stored_under (view (ext t)) a (narinfo_key h) - stored_under (view (ext s)) a (narinfo_key h)"
    for h g
    using upload_path_new_narinfo [OF svc assms(2) len that docs] unfolding complete_narinfo_def by blast
qed

lemma serve_complete:
  assumes "store_run env cfg a view download nar" and "leaves_narinfos (Cache_Request rq)"
    and "narinfos_complete env a nar v (view (ext s))"
  shows "narinfos_complete env a nar v (view (ext (serve (gha_env.truncate env) cfg rq s)))"
proof -
  let ?ge = "gha_env.truncate env"
  from assms(1) have svc: "github_cache ?ge a view download" and cfg: "gha_api cfg = Some a"
    by (simp_all add: service_run_def)
  show ?thesis
  proof (cases rq)
    case (Get_Narinfo p)
    obtain r t where g: "get_narinfo ?ge cfg p s = (r, t)" by fastforce
    with get_narinfo_view(1) [OF svc cfg g] assms(3) Get_Narinfo show ?thesis by simp
  next
    case (Get_Nar p)
    obtain r t where g: "get_nar ?ge cfg p s = (r, t)" by fastforce
    with get_nar_view(1) [OF svc cfg g] assms(3) Get_Nar show ?thesis by simp
  next
    case (Put_Nar p body)
    obtain r t where g: "put_nar ?ge cfg p body s = (r, t)" by fastforce
    note run = put_nar_view(1) [OF svc cfg g]
    from assms(2) Put_Nar have "nar_name p" by simp
    from stored_other [OF run nar_key_apart [OF this]] have "stored_under (view (ext t)) a (narinfo_key h) = stored_under (view (ext s)) a (narinfo_key h)"
      for h .
    then have "narinfos_complete env a nar v (view (ext t))"
      using stored_grows [OF run] by (intro complete_step [OF assms(3)]) auto
    with Put_Nar g show ?thesis by simp
  next
    case (Put_Narinfo p body)
    with assms(2) show ?thesis by simp
  qed
qed

interpretation complete: service_invariant env cfg a view nar
    "\<lambda>s. store_run env cfg a view download nar \<and> narinfos_complete env a nar v (view (ext s))" leaves_narinfos
  for env :: "'w server_env" and cfg a view download nar v
proof
  show "gha_api cfg = Some a" "store_apart env view nar"
    if "store_run env cfg a view download nar \<and> narinfos_complete env a nar v (view (ext s))" for s
    using that by (simp_all add: service_run_def)
qed (blast intro: serve_complete upload_path_complete | simp)+

lemma server_run_complete:
  assumes "store_run env cfg a view download nar" and "\<forall>ev \<in> set evs. leaves_narinfos ev"
  shows "narinfos_complete env a nar (view (ext s)) (view (ext (fold (handle_event env cfg) evs s)))"
proof -
  have "narinfos_complete env a nar (view (ext s)) (view (ext s))" by (simp add: narinfos_complete_def)
  with complete.run_kept [of env cfg a view download nar "view (ext s)" s evs] assms show ?thesis by blast
qed

end
