(* ===== verification/ServiceRace.thy ===== *)
theory ServiceRace
  imports ServiceInv Interleave
begin

text \<open>
  The negative cache against the service, with the narinfo handlers cut at their \<open>await\<close> points: which
  narinfos that the service shows a lookup may nevertheless send upstream.
\<close>

section \<open>The daemon and what is stored\<close>

text \<open>
  Next to the tasks and the server, two sets record how narinfos became visible: \<open>raced\<close>, while a lookup
  that was told that there is none waited for the lock, and \<open>unconfirmed\<close>, otherwise than by a store of
  this daemon that was answered (the answer was lost or an error, or someone else stored it).
\<close>

record 'w daemon =
  d_tasks :: "narinfo_task list"
  d_server :: "'w server"
  raced :: "string set"
  unconfirmed :: "string set"

definition appeared :: "('w \<Rightarrow> cache_view) \<Rightarrow> 'c api \<Rightarrow> 'w server \<Rightarrow> 'w server \<Rightarrow> string set" where
  "appeared view a s t =
     {h. \<not> stored_under (view (ext t)) a (narinfo_key h) \<subseteq> stored_under (view (ext s)) a (narinfo_key h)}"

definition awaiting_lock :: "narinfo_task list \<Rightarrow> string set" where
  "awaiting_lock ts = (\<Union>t \<in> set ts. absent_answer t)"

fun confirmed :: "narinfo_task \<Rightarrow> string set" where
  "confirmed (Put_Remove h) = {h}"
| "confirmed t = {}"

text \<open>
  Besides turns of the tasks and arrivals there is everything that leaves the negative cache as it is:
  requests for NARs, uploads of NARs, workflow requests, build events, other writers of the cache. The
  worker's upload of a narinfo arrives as a store (\<open>undisturbed_upload_narinfo\<close>).
\<close>

inductive race_step ::
  "'w gha_env \<Rightarrow> server_config \<Rightarrow> ('w \<Rightarrow> cache_view) \<Rightarrow> 'c api \<Rightarrow> 'w daemon \<Rightarrow> 'w daemon \<Rightarrow> bool"
  for env :: "'w gha_env" and cfg :: server_config and view :: "'w \<Rightarrow> cache_view" and a :: "'c api"
where
  turn: "\<lbrakk>i < length (d_tasks x); narinfo_turn env cfg (d_tasks x ! i) (d_server x) = (t, s)\<rbrakk> \<Longrightarrow>
    race_step env cfg view a x
      (x\<lparr>d_tasks := (d_tasks x)[i := t], d_server := s,
         raced := raced x \<union> (appeared view a (d_server x) s \<inter> awaiting_lock (d_tasks x)),
         unconfirmed := unconfirmed x \<union> (appeared view a (d_server x) s - confirmed t)\<rparr>)"
| get_arrives: "race_step env cfg view a x (x\<lparr>d_tasks := d_tasks x @ [Get_Start p]\<rparr>)"
| put_arrives: "race_step env cfg view a x (x\<lparr>d_tasks := d_tasks x @ [Put_Start p body]\<rparr>)"
| elsewhere: "narinfo_negative_cache s = narinfo_negative_cache (d_server x) \<Longrightarrow>
    race_step env cfg view a x
      (x\<lparr>d_server := s, unconfirmed := unconfirmed x \<union> appeared view a (d_server x) s\<rparr>)"

abbreviation start_daemon :: "'w server \<Rightarrow> 'w daemon" where
  "start_daemon s \<equiv> \<lparr>d_tasks = [], d_server = s, raced = {}, unconfirmed = {}\<rparr>"

section \<open>What runs elsewhere\<close>

text \<open>The daemon's own activity elsewhere shows no narinfo, so it marks none as unconfirmed.\<close>

lemma elsewhere_quiet:
  assumes "narinfo_negative_cache s = narinfo_negative_cache (d_server x)"
    and "\<And>h. CHR ''.'' \<notin> set h \<Longrightarrow>
      stored_under (view (ext s)) a (narinfo_key h) = stored_under (view (ext (d_server x))) a (narinfo_key h)"
  shows "\<exists>y. race_step env cfg view a x y \<and> d_server y = s \<and> raced y = raced x \<and> d_tasks y = d_tasks x
    \<and> unconfirmed y \<subseteq> unconfirmed x \<union> {h. CHR ''.'' \<in> set h}"
  using race_step.elsewhere [OF assms(1), of env cfg view a] assms(2)
  by (intro exI [of _ "x\<lparr>d_server := s, unconfirmed := unconfirmed x \<union> appeared view a (d_server x) s\<rparr>"])
     (auto simp: appeared_def)

lemma put_nar_elsewhere:
  assumes "github_cache env a view download" and "gha_api cfg = Some a" and "nar_name p"
    and "put_nar env cfg p body (d_server x) = (r, s)"
  shows "\<exists>y. race_step env cfg view a x y \<and> d_server y = s \<and> raced y = raced x \<and> d_tasks y = d_tasks x
    \<and> unconfirmed y \<subseteq> unconfirmed x \<union> {h. CHR ''.'' \<in> set h}"
  using put_nar_view [OF assms(1,2,4)] nar_key_apart [OF assms(3)]
  by (intro elsewhere_quiet stored_other) blast+

lemma get_nar_elsewhere:
  assumes "github_cache env a view download" and "gha_api cfg = Some a"
    and "get_nar env cfg p (d_server x) = (r, s)"
  shows "\<exists>y. race_step env cfg view a x y \<and> d_server y = s \<and> raced y = raced x \<and> d_tasks y = d_tasks x
    \<and> unconfirmed y \<subseteq> unconfirmed x \<union> {h. CHR ''.'' \<in> set h}"
  using get_nar_view(1,2) [OF assms] by (intro elsewhere_quiet) auto

lemma upload_nar_elsewhere:
  assumes "service_run env cfg a view download nar" and "upload_nar env a path pi (d_server x) = (r, s)"
  shows "\<exists>y. race_step (gha_env.truncate env) cfg view a x y \<and> d_server y = s \<and> raced y = raced x
    \<and> d_tasks y = d_tasks x \<and> unconfirmed y \<subseteq> unconfirmed x \<union> {h. CHR ''.'' \<in> set h}"
proof -
  from assms(1) have svc: "github_cache (gha_env.truncate env) a view download" "store_apart env view nar"
    and plain: "plain_hashes env" by (simp_all add: service_run_def)
  note run = upload_nar_view [OF svc assms(2)]
  show ?thesis
    by (rule elsewhere_quiet) (use run nar_stored_apart plain in blast)+
qed

lemma quiet_event_elsewhere:
  assumes "service_run env cfg a view download nar" and "quiet_event ev"
  shows "\<exists>y. race_step (gha_env.truncate env) cfg view a x y \<and> d_server y = handle_event env cfg ev (d_server x)
    \<and> raced y = raced x \<and> d_tasks y = d_tasks x \<and> unconfirmed y \<subseteq> unconfirmed x \<union> {h. CHR ''.'' \<in> set h}"
  by (rule elsewhere_quiet) (simp_all add: quiet_event_unchanged [OF assms])

section \<open>The invariant\<close>

definition explained :: "('w \<Rightarrow> cache_view) \<Rightarrow> 'c api \<Rightarrow> 'w daemon \<Rightarrow> string \<Rightarrow> bool" where
  "explained view a x h \<longleftrightarrow>
     stored_under (view (ext (d_server x))) a (narinfo_key h) = {} \<or> h \<in> raced x \<or> h \<in> unconfirmed x"

definition race_inv :: "('w \<Rightarrow> cache_view) \<Rightarrow> 'c api \<Rightarrow> 'w daemon \<Rightarrow> bool" where
  "race_inv view a x \<longleftrightarrow>
     (\<forall>h \<in> narinfo_negative_cache (d_server x). explained view a x h \<or> Put_Remove h \<in> set (d_tasks x))
     \<and> (\<forall>h \<in> awaiting_lock (d_tasks x). explained view a x h)"

lemma explained_unless_appeared:
  assumes "explained view a x h" and "raced x \<subseteq> raced y" and "unconfirmed x \<subseteq> unconfirmed y"
    and "h \<in> appeared view a (d_server x) (d_server y) \<Longrightarrow> h \<in> raced y \<union> unconfirmed y"
  shows "explained view a y h"
  using assms by (auto simp: explained_def appeared_def)

lemma awaiting_update:
  "awaiting_lock (ts[i := t]) \<subseteq> awaiting_lock ts \<union> absent_answer t"
  using set_update_subset_insert [of ts i t] by (auto simp: awaiting_lock_def)

lemma set_update_other: "x \<in> set xs \<Longrightarrow> x \<noteq> xs ! i \<Longrightarrow> x \<in> set (xs[i := y])"
  by (metis in_set_conv_nth length_list_update nth_list_update_neq)

text \<open>A turn that ends in an absent answer was told so by the service, which showed no such narinfo.\<close>

lemma done_with_answer [simp]: "done_with m s = (t, s') \<Longrightarrow> absent_answer t = {} \<and> confirmed t = {}"
  by (auto simp: done_with_def split: prod.splits)

lemma absent_query:
  assumes "narinfo_turn env cfg t s = (t', s')" and "h \<in> absent_answer t'"
  shows "query_cache env cfg (narinfo_key h) s = (Ok None, s')"
  using assms
  by (cases t) (auto split: option.splits if_splits prod.splits result.splits dest: done_with_answer simp del: api_call_Ok)

lemma absent_turn:
  assumes "github_cache env a view download" and "gha_api cfg = Some a"
    and "narinfo_turn env cfg t s = (t', s')" and "h \<in> absent_answer t'"
  shows "stored_under (view (ext s')) a (narinfo_key h) = {}"
proof -
  have "api_call (get_file_url env a [narinfo_key h]) s = (Ok None, s')"
    using absent_query [OF assms(3,4)] assms(2) by (simp add: query_cache_def)
  from api_lookup_view [OF assms(1) this] show ?thesis by simp
qed

lemma confirmed_turn:
  assumes "narinfo_turn env cfg t s = (t', s')"
  shows "t = Put_Remove h \<Longrightarrow> h \<notin> narinfo_negative_cache s' \<and> view (ext s') = view (ext s)"
  using assms by auto

lemma race_inv_turn:
  assumes "github_cache env a view download" and "gha_api cfg = Some a" and "race_inv view a x"
    and "i < length (d_tasks x)" and "narinfo_turn env cfg (d_tasks x ! i) (d_server x) = (t, s)"
  shows "race_inv view a
      (x\<lparr>d_tasks := (d_tasks x)[i := t], d_server := s,
         raced := raced x \<union> (appeared view a (d_server x) s \<inter> awaiting_lock (d_tasks x)),
         unconfirmed := unconfirmed x \<union> (appeared view a (d_server x) s - confirmed t)\<rparr>)" (is "race_inv view a ?y")
proof -
  have kept: "explained view a ?y h" if "explained view a x h" "h \<notin> confirmed t \<or> h \<in> awaiting_lock (d_tasks x)" for h
    using that by (intro explained_unless_appeared [OF that(1)]) auto
  have pending: "Put_Remove h \<in> set (d_tasks ?y)" if "h \<in> confirmed t" for h
    using that assms(4) by (cases t) (auto simp: set_update_memI)
  have waiting: "explained view a ?y h" if "h \<in> awaiting_lock (d_tasks ?y)" for h
  proof (cases "h \<in> absent_answer t")
    case True
    with absent_turn [OF assms(1,2,5)] show ?thesis by (simp add: explained_def)
  next
    case False
    with that awaiting_update [of "d_tasks x" i t] have "h \<in> awaiting_lock (d_tasks x)" by auto
    with assms(3) kept show ?thesis by (simp add: race_inv_def)
  qed
  have "explained view a ?y h \<or> Put_Remove h \<in> set (d_tasks ?y)" if h: "h \<in> narinfo_negative_cache s" for h
  proof (cases "h \<in> absent_answer (d_tasks x ! i)")
    case True
    with assms(4) have "h \<in> awaiting_lock (d_tasks x)" by (auto simp: awaiting_lock_def)
    with assms(3) kept show ?thesis by (simp add: race_inv_def)
  next
    case False
    with narinfo_turn_cache [OF assms(5)] h have "h \<in> narinfo_negative_cache (d_server x)"
      by (auto simp: cache_grows_def)
    with assms(3) consider "explained view a x h" | "Put_Remove h \<in> set (d_tasks x)" by (auto simp: race_inv_def)
    then show ?thesis
    proof cases
      case 1
      with kept pending show ?thesis by blast
    next
      case 2
      moreover have "d_tasks x ! i \<noteq> Put_Remove h" using confirmed_turn [OF assms(5)] h by blast
      ultimately show ?thesis by (auto intro: set_update_other)
    qed
  qed
  with waiting show ?thesis unfolding race_inv_def by simp
qed

lemma race_inv_step:
  assumes "github_cache env a view download" and "gha_api cfg = Some a"
    and "race_step env cfg view a x y" and "race_inv view a x"
  shows "race_inv view a y"
  using assms(3)
proof cases
  case (turn i t s)
  with race_inv_turn [OF assms(1,2,4)] show ?thesis by blast
next
  case (elsewhere s)
  have "explained view a y h" if "explained view a x h" for h
    by (rule explained_unless_appeared [OF that]) (auto simp: elsewhere)
  with assms(4) elsewhere show ?thesis by (auto simp: race_inv_def)
qed (use assms(4) in \<open>auto simp: race_inv_def awaiting_lock_def explained_def\<close>)

lemma race_run:
  assumes "github_cache env a view download" and "gha_api cfg = Some a"
    and "(race_step env cfg view a)\<^sup>*\<^sup>* (start_daemon s) x" and "narinfo_negative_cache s = {}"
  shows "race_inv view a x"
  using assms(3)
proof (induction rule: rtranclp_induct)
  case base
  with assms(4) show ?case by (simp add: race_inv_def awaiting_lock_def)
next
  case (step y z)
  with race_inv_step [OF assms(1,2)] show ?case by blast
qed

section \<open>Lookups and stores\<close>

text \<open>The turn that asks the service about a narinfo that it shows.\<close>

lemma stored_query_turn:
  assumes "github_cache env a view download" and "gha_api cfg = Some a"
    and "stored_under (view (ext s)) a (narinfo_key h) \<noteq> {}"
    and "narinfo_turn env cfg (Get_Query p h) s = (t, s')"
  shows "\<exists>r. t = Get_Done r \<and> (\<forall>x. r = Ok x \<longrightarrow>
      (\<exists>u. \<exists>f \<in> stored_under (view (ext s)) a (narinfo_key h). x = Redirect_Temporary u \<and> download (ext s') u = Some f))"
proof -
  obtain y s1 where y: "query_cache env cfg (narinfo_key h) s = (y, s1)" by fastforce
  then have call: "api_call (get_file_url env a [narinfo_key h]) s = (y, s1)" using assms(2) by (simp add: query_cache_def)
  note look = api_lookup_view [OF assms(1) call]
  show ?thesis
  proof (cases y)
    case (Ok found)
    with look(3) assms(3) obtain u where u: "y = Ok (Some u)" by (cases found) auto
    from look(2) [OF u] obtain f where "f \<in> stored_under (view (ext s)) a (narinfo_key h)" "download (ext s1) u = Some f" by blast
    with u y assms(4) show ?thesis
      by (auto simp: done_with_def bump_run split: prod.splits dest!: redirect_run)
  qed (use y assms(4) in auto)
qed

text \<open>A store under a reservation that is still its own shows no other narinfo.\<close>

lemma store_turn_shows:
  assumes "github_cache env a view download" and "gha_api cfg = Some a"
    and "narinfo_turn env cfg (Put_Send h al body) s = (t, s')"
    and "nonced (narinfo_key h) k" and "reserved a (view (ext s)) k al"
    and "CHR ''.'' \<notin> set h" and "CHR ''.'' \<notin> set h'" and "h' \<noteq> h"
  shows "h' \<notin> appeared view a s s'"
proof -
  obtain x s1 where x: "api_call (upload_file env a al body) s = (x, s1)" by fastforce
  from api_upload_view [OF assms(1) x assms(5,4) refl] have "stored_whole a (narinfo_key h) body (is_ok x) (view (ext s)) (view (ext s1))" .
  from narinfo_stored_apart [OF this assms(7,6,8)]
  have "stored_under (view (ext s1)) a (narinfo_key h') = stored_under (view (ext s)) a (narinfo_key h')" .
  moreover have "ext s' = ext s1"
    using assms(2,3) x by (cases x) (auto simp: bump_run simp del: api_call_Ok)
  ultimately show ?thesis by (simp add: appeared_def)
qed

section \<open>Single runs\<close>

text \<open>The runs from a start in which the narinfo of a hash is neither raced nor unconfirmed.\<close>

definition reaches ::
  "'w gha_env \<Rightarrow> server_config \<Rightarrow> ('w \<Rightarrow> cache_view) \<Rightarrow> 'c api \<Rightarrow> 'w server \<Rightarrow> string \<Rightarrow> narinfo_task list \<Rightarrow> 'w server \<Rightarrow> bool"
where
  "reaches env cfg view a s0 h ts s \<longleftrightarrow>
     (\<exists>x. (race_step env cfg view a)\<^sup>*\<^sup>* (start_daemon s0) x \<and> d_tasks x = ts \<and> d_server x = s
        \<and> h \<notin> raced x \<and> h \<notin> unconfirmed x)"

lemma reaches_start: "reaches env cfg view a s h [] s"
  by (force simp: reaches_def)

lemma reaches_arrival:
  assumes "reaches env cfg view a s0 h ts s"
  shows "reaches env cfg view a s0 h (ts @ [Get_Start p]) s" and "reaches env cfg view a s0 h (ts @ [Put_Start p body]) s"
proof -
  from assms obtain x where x: "(race_step env cfg view a)\<^sup>*\<^sup>* (start_daemon s0) x" "d_tasks x = ts" "d_server x = s"
    "h \<notin> raced x" "h \<notin> unconfirmed x" by (auto simp: reaches_def)
  from rtranclp.rtrancl_into_rtrancl [OF x(1) race_step.get_arrives [of _ _ _ _ _ p]] x
  show "reaches env cfg view a s0 h (ts @ [Get_Start p]) s" by (force simp: reaches_def)
  from rtranclp.rtrancl_into_rtrancl [OF x(1) race_step.put_arrives [of _ _ _ _ _ p body]] x
  show "reaches env cfg view a s0 h (ts @ [Put_Start p body]) s" by (force simp: reaches_def)
qed

lemma reaches_turn:
  assumes "reaches env cfg view a s0 h ts s" and "i < length ts" and "narinfo_turn env cfg (ts ! i) s = (t, s')"
    and "cv_entries (view (ext s')) = cv_entries (view (ext s)) \<or> h \<in> confirmed t \<and> h \<notin> awaiting_lock ts"
  shows "reaches env cfg view a s0 h (ts[i := t]) s'"
proof -
  from assms(1) obtain x where x: "(race_step env cfg view a)\<^sup>*\<^sup>* (start_daemon s0) x" "d_tasks x = ts" "d_server x = s"
    "h \<notin> raced x" "h \<notin> unconfirmed x" by (auto simp: reaches_def)
  have "race_step env cfg view a x (x\<lparr>d_tasks := ts[i := t], d_server := s',
         raced := raced x \<union> (appeared view a s s' \<inter> awaiting_lock ts),
         unconfirmed := unconfirmed x \<union> (appeared view a s s' - confirmed t)\<rparr>)" (is "race_step _ _ _ _ x ?y")
    using race_step.turn [of i x env cfg t s' view a] assms(2,3) x(2,3) by simp
  with x(1) have "(race_step env cfg view a)\<^sup>*\<^sup>* (start_daemon s0) ?y" by simp
  moreover from assms(4) x(4,5) have "h \<notin> raced ?y" "h \<notin> unconfirmed ?y"
    by (auto simp: appeared_def stored_under_def)
  ultimately show ?thesis unfolding reaches_def by (intro exI [of _ ?y]) simp
qed

end
