(* ===== verification/ServiceDemo.thy ===== *)
theory ServiceDemo
  imports ServiceRace HostDemo
begin

text \<open>
  A concrete cache service of version 1: one file being written at a time, entries newest first,
  lookups by prefix, an entry's address made of its key. It meets the laws of \<open>github_cache\<close>, for any
  sequence of requests, and the daemon of the demonstration runs against it.
\<close>

type_synonym cache_entry = "string \<times> string \<times> partial_file"
type_synonym cache_world = "cache_entry list \<times> cache_entry option"

text \<open>Reading the first number of a \<open>Content-Range\<close> header back.\<close>

definition read_dec :: "string \<Rightarrow> nat" where
  "read_dec ds = foldl (\<lambda>n c. 10 * n + (of_char c - 48)) 0 ds"

lemma read_dec_nat: "read_dec (dec_nat n) = n"
proof (induction n rule: dec_nat.induct)
  case (1 n)
  have digit: "of_char (digit_char d) - (48 :: nat) = d" if "d < 10" for d
    using that by (simp add: digit_char_def)
  show ?case
  proof (cases "n < 10")
    case True
    then show ?thesis by (simp add: dec_nat.simps [of n] read_dec_def digit)
  next
    case False
    with 1 have "read_dec (dec_nat (n div 10)) = n div 10" by simp
    moreover have "dec_nat n = dec_nat (n div 10) @ [digit_char (n mod 10)]"
      using False by (simp add: dec_nat.simps [of n])
    ultimately show ?thesis by (simp add: read_dec_def digit)
  qed
qed

definition range_start :: "(string \<times> string) list \<Rightarrow> nat" where
  "range_start hs = (case map_of hs ''Content-Range'' of
     None \<Rightarrow> 0 | Some r \<Rightarrow> read_dec (takeWhile (\<lambda>c. c \<noteq> CHR ''-'') (drop 6 r)))"

lemma range_start_range:
  assumes "has_range lo d rq"
  shows "range_start (rq_headers rq) = lo"
proof -
  have "CHR ''-'' \<notin> set (dec_nat n)" for n
    by (rule dec_nat_no_separator) simp
  with assms show ?thesis
    by (simp add: has_range_def range_start_def read_dec_nat before_char)
qed

definition finds :: "string \<Rightarrow> cache_entry \<Rightarrow> bool" where
  "finds key e \<longleftrightarrow> prefix key (fst e) \<and> fst (snd e) = ''v''"

fun cache_send :: "http_client \<Rightarrow> http_request \<Rightarrow> cache_world \<Rightarrow> (string + http_response) \<times> cache_world" where
  "cache_send cl rq (es, slot) =
     (case rq_body rq of
        Json_Reserve rr \<Rightarrow> (Inr (response 200), (es, Some (rr_key rr, rr_version rr, empty_file)))
      | Octets d \<Rightarrow>
          (case slot of
             None \<Rightarrow> (Inr (response 404), (es, slot))
           | Some (k, v, f) \<Rightarrow>
               (Inr (response 200), (es, Some (k, v, write_at (range_start (rq_headers rq)) d f))))
      | Json_Commit cm \<Rightarrow>
          (case slot of
             None \<Rightarrow> (Inr (response 404), (es, slot))
           | Some e \<Rightarrow> (Inr (response 200), (e # es, None)))
      | No_Body \<Rightarrow>
          (case find (finds (snd (last (rq_query rq)))) es of
             None \<Rightarrow> (Inr (response 204), (es, slot))
           | Some e \<Rightarrow> (Inr \<lparr>rs_status = 200, rs_body = Inr (''http://blob/'' @ fst e)\<rparr>, (es, slot))))"

definition cache_view_of :: "cache_world \<Rightarrow> cache_view" where
  "cache_view_of w = \<lparr>cv_entries = set (fst w), cv_pending = (\<lambda>cid. if cid = 7 then snd w else None),
     cv_signed = (\<lambda>_. None), cv_blobs = (\<lambda>_. None)\<rparr>"

definition cache_download :: "cache_entry list \<times> 'x \<Rightarrow> string \<Rightarrow> partial_file option" where
  "cache_download w u =
     map_option (snd \<circ> snd) (find (\<lambda>e. u = ''http://blob/'' @ fst e \<and> fst (snd e) = ''v'') (fst w))"

definition with_store :: "'w server_env \<Rightarrow> 'w server_env" where
  "with_store env = env
     \<lparr>json_cache_id := (\<lambda>d. Inr 7),
      json_cache_entry := (\<lambda>d. if d = [] then Inl ''no body'' else Inr \<lparr>cache_key = None, scope = None,
                             cache_version = None, creation_time = None, archive_location = d\<rparr>),
      query_path_info := (\<lambda>p w. (Inr \<lparr> pi_path = ''aa-x'', pi_nar_hash = ''h'', pi_nar_size = 3,
                                       pi_references = [''/nix/store/aa-x''], pi_ca = None,
                                       pi_provenance = None \<rparr>, w)),
      nar_from_path_zstd := (\<lambda>p w. (Slice ''nar'', w)),
      get_full_path := (\<lambda>p. ''/nix/store/'' @ p),
      follow_store_path := (\<lambda>p w. (Inr ''aa-x'', w)), store_path_hash := (\<lambda>p. ''aa''), hash_base32 := (\<lambda>h. ''bb'')\<rparr>"

definition cache_server :: "cache_world server_env" where
  "cache_server = with_store (server_env.truncate (bare_host (\<lambda>n. None) cache_send))"

abbreviation "cache_env \<equiv> gha_env.truncate cache_server"

lemmas cache_server_defs = cache_server_def with_store_def bare_host_def server_env.truncate_def gha_env.truncate_def

lemma cache_env_fields [simp]:
  "http_send cache_env = cache_send" "json_cache_id cache_env d = Inr 7"
  "rand_alphanumeric cache_env w = (CHR ''r'', w)" "header_value cache_env = Inr"
  "json_cache_entry cache_env = json_cache_entry demo_env"
  by (simp_all add: cache_server_defs demo_simps)

lemma find_in: "find P xs = Some x \<Longrightarrow> P x \<and> x \<in> set xs"
  by (auto simp: find_Some_iff)

lemma demo_version [simp]: "api_version (demo_client v) = ''v''"
  by (simp add: demo_client_def)

lemma stored_under_list:
  "cv_entries cv = set es \<Longrightarrow> stored_under cv (demo_client v) key = {f. \<exists>e \<in> set es. finds key e \<and> f = snd (snd e)}"
  by (force simp: stored_under_def finds_def)

lemma stored_under_cache:
  "stored_under (cache_view_of w) demo_v1 key = {f. \<exists>e \<in> set (fst w). finds key e \<and> f = snd (snd e)}"
  by (rule stored_under_list) (simp add: cache_view_of_def)

lemma cache_lookup:
  "cache_send cl (lookup_rq a [key]) (es, slot) =
     (case find (finds key) es of
        None \<Rightarrow> (Inr (response 204), (es, slot))
      | Some e \<Rightarrow> (Inr \<lparr>rs_status = 200, rs_body = Inr (''http://blob/'' @ fst e)\<rparr>, (es, slot)))"
  by (simp add: lookup_rq_def)

lemma cache_download_found:
  assumes "e \<in> set (fst w)" and "finds key e" and "cv_entries cv = set (fst w)"
  shows "\<exists>f \<in> stored_under cv (demo_client v) key. cache_download w (''http://blob/'' @ fst e) = Some f"
proof -
  let ?P = "\<lambda>e'. ''http://blob/'' @ fst e = ''http://blob/'' @ fst e' \<and> fst (snd e') = ''v''"
  have "?P e" using assms(2) by (simp add: finds_def)
  with assms(1) have "find ?P (fst w) \<noteq> None" unfolding find_None_iff by blast
  then obtain e' where e': "find ?P (fst w) = Some e'" by blast
  from find_in [OF e'] assms(2) have "e' \<in> set (fst w)" "finds key e'" by (auto simp: finds_def)
  with e' show ?thesis by (auto simp: cache_download_def stored_under_list [OF assms(3)])
qed

lemma cache_looks_up: "looks_up cache_env demo_v1 cache_view_of cache_download"
  unfolding looks_up_def
proof (intro conjI allI impI)
  fix key and w w' :: cache_world and res :: http_response
  obtain es slot where w: "w = (es, slot)" by fastforce
  { fix r and w' :: cache_world assume "http_send cache_env (client demo_v1) (lookup_rq demo_v1 [key]) w = (r, w')"
    then show "cache_view_of w' = cache_view_of w"
      by (auto simp: w cache_lookup simp del: cache_send.simps split: option.splits) }
  assume sent: "http_send cache_env (client demo_v1) (lookup_rq demo_v1 [key]) w = (Inr res, w')"
  show "\<exists>f \<in> stored_under (cache_view_of w) demo_v1 key. cache_download w' (archive_location e) = Some f"
    if "check_json cache_env (json_cache_entry cache_env) res = Ok e" for e
  proof (cases "find (finds key) es")
    case None
    with sent that show ?thesis
      by (auto simp: w cache_lookup check_json_def is_success_def simp del: cache_send.simps)
  next
    case (Some x)
    with sent that have "archive_location e = ''http://blob/'' @ fst x" "w' = w"
      by (auto simp: w cache_lookup check_json_def is_success_def demo_server_def simp del: cache_send.simps)
    with find_in [OF Some] cache_download_found [of x w key "cache_view_of w" "''''"] show ?thesis by (simp add: w cache_view_of_def)
  qed
  show "stored_under (cache_view_of w) demo_v1 key = {}"
    if "check_json cache_env (json_cache_entry cache_env) res = Err (DecodeError NO_CONTENT b e)" for b e
  proof (cases "find (finds key) es")
    case None
    then show ?thesis by (auto simp: w stored_under_cache find_None_iff)
  next
    case (Some x)
    with sent that show ?thesis
      by (auto simp: w cache_lookup check_json_def is_success_def NO_CONTENT_def demo_server_def simp del: cache_send.simps)
  qed
qed

lemma cache_v1_service: "v1_service cache_env demo_v1 cache_view_of cache_download"
  unfolding v1_service_def
proof (intro conjI)
  show "reserves cache_env demo_v1 cache_view_of"
    by (auto simp: reserves_def reserve_rq_def cache_view_of_def check_json_def split: if_splits sum.splits)
  show "writes cache_env demo_v1 cache_view_of"
    unfolding writes_def
    by (auto simp: cache_view_of_def sends_chunk_def range_start_range split: if_splits)
  show "commits cache_env demo_v1 cache_view_of"
    by (auto simp: commits_def commit_rq_def cache_view_of_def split: if_splits)
  show "looks_up cache_env demo_v1 cache_view_of cache_download" by (rule cache_looks_up)
qed

lemma cache_meets_laws: "github_cache cache_env demo_v1 cache_view_of cache_download"
  by (simp add: github_cache_def cache_v1_service)

lemma cache_store_apart: "store_apart cache_server cache_view_of (\<lambda>p. ''nar'')"
  by (auto simp: store_apart_def cache_server_defs)

lemma cache_plain: "plain_hashes cache_server"
  by (simp add: plain_hashes_def cache_server_defs)

lemma cache_service_run: "service_run cache_server demo_config demo_v1 cache_view_of cache_download (\<lambda>p. ''nar'')"
  by (simp add: service_run_def cache_meets_laws cache_store_apart cache_plain demo_config_def)

section \<open>Runs against it\<close>

definition cache_state :: "cache_entry list \<Rightarrow> cache_world server" where
  "cache_state es = startup cache_server demo_config [] 0 False (es, None)"

lemma cache_state_fields [simp]:
  "tripped (cache_state es) = False" "ext (cache_state es) = (es, None)"
  "narinfo_negative_cache (cache_state es) = {}"
  by (simp_all add: cache_state_def startup_def)

lemma cache_nonce: "draw_nonce cache_env n s = (replicate n (CHR ''r''), s)"
proof (induction n arbitrary: s)
  case (Suc n)
  have "s\<lparr>ext := ext s\<rparr> = s" by simp
  with Suc show ?case by simp
qed simp

lemma cache_allocate:
  assumes "\<not> tripped s" and "ext s = (es, slot)"
  shows "allocate_file_with_random_suffix cache_env demo_v1 key s
    = (Ok (V1 7), s\<lparr>ext := (es, Some (key @ ''-rrrr'', ''v'', empty_file))\<rparr>)"
proof -
  have "reserve_cache cache_env demo_v1 (key @ ''-rrrr'') None s
      = (Ok (V1 7), s\<lparr>ext := (es, Some (key @ ''-rrrr'', ''v'', empty_file))\<rparr>)"
    using assms
    by (simp add: reserve_cache_def reserve_v1_def send_def check_json_def is_success_def Let_def)
  then have "allocate_attempts cache_env demo_v1 (Suc n) key s
      = (Ok (V1 7), s\<lparr>ext := (es, Some (key @ ''-rrrr'', ''v'', empty_file))\<rparr>)" for n
    by (simp add: cache_nonce allocate_file_def eval_nat_numeral)
  from this [of 4] show ?thesis by (simp add: allocate_file_with_random_suffix_def)
qed

lemma cache_upload:
  assumes "\<not> tripped s" and "ext s = (es, Some (k, v, f))" and "d \<noteq> []" and "length d < CHUNK_SIZE"
  shows "upload_file cache_env demo_v1 (V1 7) (Slice d) s
    = (Ok (of_nat (length d)), s\<lparr>ext := ((k, v, write_chunk (0, d) f) # es, None)\<rparr>)"
proof -
  have "fits_file (0, d)" using assms(3,4) by (simp add: fits_file_def CHUNK_SIZE_def)
  note range = range_start_range [OF patch_range [OF this, of demo_v1 7]]
  have "http_send cache_env cl (patch_request demo_v1 7 (0, d)) (es, Some (k, v, f))
      = (Inr (response 200), (es, Some (k, v, write_chunk (0, d) f)))" for cl
    using range patch_sends [of demo_v1 7 "(0, d)"] by (simp add: sends_chunk_def write_chunk_at)
  with assms have "run_chunk cache_env demo_v1 7 (0, d) s
      = (Ok (), s\<lparr>ext := (es, Some (k, v, write_chunk (0, d) f))\<rparr>)"
    by (simp add: run_chunk_def send_def check_def is_success_def Let_def)
  moreover have "commit_v1 cache_env demo_v1 7 n (s\<lparr>ext := (es, Some e)\<rparr>) = (Ok n, s\<lparr>ext := (e # es, None)\<rparr>)" for n e
    by (simp add: commit_v1_def send_def check_def is_success_def inspect_err_def and_then_def)
  ultimately show ?thesis
    using assms by (simp add: upload_file_def upload_v1_def spawn_chunks_short)
qed

lemma cache_store:
  assumes "\<not> tripped s" and "ext s = (es, slot)" and "d \<noteq> []" and "length d < CHUNK_SIZE"
  shows "store_file cache_env demo_v1 key (Slice d) s
    = (Ok (of_nat (length d)), s\<lparr>ext := ((key @ ''-rrrr'', ''v'', write_chunk (0, d) empty_file) # es, None)\<rparr>)"
  using assms cache_allocate [OF assms(1,2)]
    cache_upload [of "s\<lparr>ext := (es, Some (key @ ''-rrrr'', ''v'', empty_file))\<rparr>" es "key @ ''-rrrr''" "''v''" empty_file d]
  by (simp add: store_file_def api_call_def map_err_comp_def and_then_def)

lemma cache_get:
  assumes "\<not> tripped s" and "ext s = (es, slot)" and "find (finds key) es = Some e"
  shows "get_file_url cache_env demo_v1 [key] s = (Ok (Some (''http://blob/'' @ fst e)), s)"
proof -
  have "send cache_env (client demo_v1) (lookup_rq demo_v1 [key]) s
      = (Ok \<lparr>rs_status = 200, rs_body = Inr (''http://blob/'' @ fst e)\<rparr>, s)"
    using assms(2,3) by (simp add: send_def cache_lookup del: cache_send.simps)
  with assms(1) show ?thesis
    by (simp add: get_file_url_def get_cache_entry_def get_entry_v1_rq Let_def check_json_def is_success_def demo_server_def)
qed


text \<open>The upload of a path, and its two entries.\<close>

definition cache_doc :: string where
  "cache_doc = ''StorePath: /nix/store/aa-x\<newline>URL: nar/bb.nar.zstd\<newline>Compression: zstd\<newline>NarHash: h\<newline>NarSize: 3\<newline>References: aa-x\<newline>''"

abbreviation "cache_path_info \<equiv> \<lparr> pi_path = ''aa-x'', pi_nar_hash = ''h'', pi_nar_size = 3,
      pi_references = [''/nix/store/aa-x''], pi_ca = None, pi_provenance = None \<rparr>"

lemma cache_document: "narinfo_document cache_server cache_path_info = Ok cache_doc"
proof -
  have refs: "list_all2 (\<lambda>r n. path_file_name r = Some n \<and> utf8_valid n) [''/nix/store/aa-x''] [''aa-x'']"
    by (simp add: path_file_name_def utf8_valid_def)
  have "dec_usize 3 = ''3''" and "utf8_valid ''/nix/store/aa-x''" by code_simp+
  then show ?thesis
    using narinfo_document_Ok [of cache_path_info "[''aa-x'']" cache_server] refs
    by (simp add: cache_server_defs demo_server_def narinfo_lines_def narinfo_of_def opt_line_def nar_file_def cache_doc_def)
qed

lemma cache_files_fit: "files_fit cache_server (\<lambda>p. ''nar'')"
proof -
  have "fst (query_path_info cache_server p w) = Inr cache_path_info" for p w by (simp add: cache_server_defs)
  then show ?thesis by (auto simp: files_fit_def cache_document cache_doc_def)
qed

lemma cache_upload_path:
  assumes "\<not> tripped s" and "ext s = ([], None)" and "narinfo_negative_cache s = {}"
  shows "\<exists>t f g. upload_path cache_server demo_v1 ''aa-x'' s = (Ok (), t)
     \<and> ext t = ([(''aa.narinfo-rrrr'', ''v'', f), (''bb.nar.zstd-rrrr'', ''v'', g)], None) \<and> \<not> tripped t
     \<and> narinfo_negative_cache t = {}"
proof -
  let ?s1 = "s\<lparr>ext := ([], Some (''bb.nar.zstd-rrrr'', ''v'', empty_file))\<rparr>"
  let ?nar = "(''bb.nar.zstd-rrrr'', ''v'', write_chunk (0, ''nar'') empty_file)"
  let ?s2 = "s\<lparr>ext := ([?nar], None), cb_state := nars_uploaded_update incr (cb_state s)\<rparr>"
  have fields: "nar_file cache_server cache_path_info = ''bb.nar.zstd''" "store_path_hash cache_server ''aa-x'' = ''aa''"
    "nar_from_path_zstd cache_server ''aa-x'' w = (Slice ''nar'', w)"
    "query_path_info cache_server ''aa-x'' w = (Inr cache_path_info, w)" for w
    by (simp_all add: cache_server_defs nar_file_def)
  have "upload_nar cache_server demo_v1 ''aa-x'' cache_path_info s = (Ok (), ?s2)"
    using assms cache_allocate [OF assms(1,2), of "''bb.nar.zstd''"]
      cache_upload [of ?s1 "[]" "''bb.nar.zstd-rrrr''" "''v''" empty_file "''nar''"]
    by (simp add: upload_nar_def Let_def and_then_def api_call_def map_err_comp_def open_nar_def bump_run
        CHUNK_SIZE_def fields)
  moreover have "\<exists>t f. upload_narinfo cache_server demo_v1 ''aa-x'' cache_path_info ?s2 = (Ok (), t)
      \<and> ext t = ([(''aa.narinfo-rrrr'', ''v'', f), ?nar], None) \<and> \<not> tripped t \<and> narinfo_negative_cache t = {}"
    using assms cache_allocate [of ?s2 "[?nar]" None "''aa.narinfo''"]
      cache_upload [of "?s2\<lparr>ext := ([?nar], Some (''aa.narinfo-rrrr'', ''v'', empty_file))\<rparr>" "[?nar]"
        "''aa.narinfo-rrrr''" "''v''" empty_file cache_doc]
    by (simp add: upload_narinfo_def Let_def and_then_def api_call_def map_err_comp_def bump_run
        CHUNK_SIZE_def fields cache_document cache_doc_def narinfo_key_def)
  moreover have "outside (query_path_info cache_server ''aa-x'') Attic s = (Ok cache_path_info, s)"
    using assms(2) by (simp add: outside_def fields)
  ultimately show ?thesis by (auto simp: upload_path_def)
qed

text \<open>The same from the outside: the path is enqueued, and the worker takes it.\<close>

lemma cache_enqueue_run:
  "\<exists>f g. ext (fold (handle_event cache_server demo_config) [Enqueue_Paths [''/nix/store/aa-x''], Worker_Turn] (cache_state []))
     = ([(''aa.narinfo-rrrr'', ''v'', f), (''bb.nar.zstd-rrrr'', ''v'', g)], None)"
proof -
  let ?s = "cache_state []"
  have cfg: "gha_api demo_config = Some demo_v1" by (simp add: demo_config_def)
  have idle: "worker_result ?s = None" "\<not> flakehub_on ?s" "channel ?s = []" "worker_done ?s = {}"
    by (simp_all add: cache_state_def startup_def)
  have follow: "follow_store_path cache_server f w = (Inr ''aa-x'', w)" for f w by (simp add: cache_server_defs)
  have closed: "compute_fs_closure_multi cache_server ps w = (Inr ps, w)" for ps w by (simp add: cache_server_defs)
  have ext: "?s\<lparr>ext := ([], None)\<rparr> = ?s" using cache_state_fields(2) [of "[]"] by (metis server.surjective api_world.surjective api_world.update_convs(3) server.update_convs)
  have "handle_event cache_server demo_config (Enqueue_Paths [''/nix/store/aa-x'']) ?s = ?s\<lparr>channel := [Upload ''aa-x'']\<rparr>"
    using idle cfg ext
    by (simp add: post_enqueue_paths_def enqueue_paths_def gha_enqueue_paths_def and_then_def outside_def follow closed
        channel_send_def)
  moreover obtain t f g where up: "upload_path cache_server demo_v1 ''aa-x'' (?s\<lparr>channel := [], worker_done := {''aa-x''}\<rparr>) = (Ok (), t)"
    and t: "ext t = ([(''aa.narinfo-rrrr'', ''v'', f), (''bb.nar.zstd-rrrr'', ''v'', g)], None)"
    using cache_upload_path [of "?s\<lparr>channel := [], worker_done := {''aa-x''}\<rparr>"] by auto
  ultimately show ?thesis
    using idle cfg by (auto simp: worker_step_def worker_upload_def)
qed

lemma cache_fields:
  "nar_file cache_server cache_path_info = ''bb.nar.zstd''" "store_path_hash cache_server p = ''aa''"
  by (simp_all add: cache_server_defs nar_file_def)

lemma cache_query: "fst (query_path_info cache_server ''aa-x'' w) = Inr cache_path_info"
  by (simp add: cache_server_defs)

lemma cache_get_narinfo:
  assumes "\<not> tripped s" and "ext s = (es, slot)" and "find (finds ''aa.narinfo'') es = Some e"
    and "''aa'' \<notin> narinfo_negative_cache s"
  shows "\<exists>t. get_narinfo cache_env demo_config ''aa.narinfo'' s = (Ok (Redirect_Temporary (''http://blob/'' @ fst e)), t)
    \<and> ext t = ext s \<and> tripped t = tripped s"
proof -
  have h: "narinfo_hash ''aa.narinfo'' = Some ''aa''"
    using narinfo_hash_key [of "''aa''"] by (simp add: narinfo_key_def)
  have cfg: "gha_api demo_config = Some demo_v1" by (simp add: demo_config_def)
  have "get_file_url cache_env demo_v1 [narinfo_key ''aa''] s = (Ok (Some (''http://blob/'' @ fst e)), s)"
    using cache_get [OF assms(1,2), of "narinfo_key ''aa''"] assms(3) by (simp add: narinfo_key_def)
  with h cfg assms(4) show ?thesis
    by (simp add: get_narinfo_def query_cache_def bump_run redirect_temporary_def)
qed

lemma cache_get_nar:
  assumes "\<not> tripped s" and "ext s = (es, slot)" and "find (finds p) es = Some e"
  shows "\<exists>t. get_nar cache_env demo_config p s = (Ok (Redirect_Temporary (''http://blob/'' @ fst e)), t)"
proof -
  have cfg: "gha_api demo_config = Some demo_v1" by (simp add: demo_config_def)
  with cache_get [OF assms] show ?thesis
    by (simp add: get_nar_def bump_run redirect_temporary_def)
qed

lemma cache_absent:
  assumes "\<not> tripped s" and "ext s = ([], None)"
  shows "get_file_url cache_env demo_v1 [key] s = (Ok None, s)"
proof -
  have "send cache_env (client demo_v1) (lookup_rq demo_v1 [key]) s = (Ok (response 204), s)"
    using assms(2) by (simp add: send_def cache_lookup del: cache_send.simps)
  with assms(1) show ?thesis
    by (simp add: get_file_url_def get_cache_entry_def get_entry_v1_rq Let_def check_json_def is_success_def
        demo_server_def NO_CONTENT_def check_err_def)
qed

text \<open>A lookup that finds nothing, and then a store of the same narinfo.\<close>

lemma cache_lookup_then_store:
  "\<exists>r s f. reaches cache_env demo_config cache_view_of demo_v1 (cache_state []) ''aa''
        [Get_Done r, Put_Done (Ok ())] s
     \<and> stored_under (cache_view_of (ext s)) demo_v1 (narinfo_key ''aa'') = {f}"
proof -
  let ?p = "''aa.narinfo''" and ?s = "cache_state []"
  let ?reach = "reaches cache_env demo_config cache_view_of demo_v1 ?s ''aa''"
  have h: "narinfo_hash ?p = Some ''aa''"
    using narinfo_hash_key [of "''aa''"] by (simp add: narinfo_key_def)
  have cfg: "gha_api demo_config = Some demo_v1" by (simp add: demo_config_def)
  note arrived = reaches_arrival(1) [OF reaches_start, of cache_env demo_config cache_view_of demo_v1 ?s "''aa''" ?p]
  have "narinfo_turn cache_env demo_config (Get_Start ?p) ?s = (Get_Query ?p ''aa'', ?s)" using h by simp
  with reaches_turn [OF arrived, of 0] have "?reach [Get_Query ?p ''aa''] ?s" by simp
  moreover have "narinfo_turn cache_env demo_config (Get_Query ?p ''aa'') ?s = (Get_Absent ?p ''aa'', ?s)"
    using cfg cache_absent [of ?s] by (simp add: query_cache_def api_call_def map_err_comp_def)
  ultimately have absent: "?reach [Get_Absent ?p ''aa''] ?s" using reaches_turn [where i = 0] by fastforce
  obtain r s1 where s1: "narinfo_turn cache_env demo_config (Get_Absent ?p ''aa'') ?s = (Get_Done r, s1)"
    and f1: "ext s1 = ([], None)" "\<not> tripped s1"
    by (auto simp: done_with_def bump_run pull_through_def redirect_temporary_def demo_config_def throw_def split: prod.splits option.splits)
  have "?reach [Get_Done r] s1" using reaches_turn [OF absent, of 0 "Get_Done r" s1] s1 f1 by simp
  from reaches_arrival(2) [OF this, of ?p "Slice ''abc''"]
  have put: "?reach [Get_Done r, Put_Start ?p (Slice ''abc'')] s1" by simp
  let ?s2 = "s1\<lparr>ext := ([], Some (''aa.narinfo-rrrr'', ''v'', empty_file))\<rparr>"
  let ?f = "write_chunk (0, ''abc'') empty_file"
  have "narinfo_turn cache_env demo_config (Put_Start ?p (Slice ''abc'')) s1 = (Put_Send ''aa'' (V1 7) (Slice ''abc''), ?s2)"
    using h cfg cache_allocate [OF f1(2,1), of "narinfo_key ''aa''"] by (simp add: narinfo_key_def api_call_def map_err_comp_def)
  moreover have "cv_entries (cache_view_of (ext ?s2)) = cv_entries (cache_view_of (ext s1))"
    using f1 by (simp add: cache_view_of_def)
  ultimately have send: "?reach [Get_Done r, Put_Send ''aa'' (V1 7) (Slice ''abc'')] ?s2"
    using reaches_turn [OF put, of 1] by simp
  have "upload_file cache_env demo_v1 (V1 7) (Slice ''abc'') ?s2
      = (Ok 3, ?s2\<lparr>ext := ([(''aa.narinfo-rrrr'', ''v'', ?f)], None)\<rparr>)"
    using cache_upload [of ?s2 "[]" _ _ empty_file "''abc''"] f1 by (simp add: CHUNK_SIZE_def)
  then obtain s3 where "narinfo_turn cache_env demo_config (Put_Send ''aa'' (V1 7) (Slice ''abc'')) ?s2 = (Put_Remove ''aa'', s3)"
    and f3: "ext s3 = ([(''aa.narinfo-rrrr'', ''v'', ?f)], None)"
    using cfg by (simp add: api_call_def map_err_comp_def bump_run)
  with reaches_turn [OF send, of 1] have remove: "?reach [Get_Done r, Put_Remove ''aa''] s3"
    by (simp add: awaiting_lock_def)
  from reaches_turn [OF remove, of 1] obtain s4 where "?reach [Get_Done r, Put_Done (Ok ())] s4" "ext s4 = ext s3" by simp
  moreover have "stored_under (cache_view_of (ext s3)) demo_v1 (narinfo_key ''aa'') = {?f}"
    by (auto simp: stored_under_cache f3 finds_def narinfo_key_def)
  ultimately show ?thesis by force
qed

end
