(* ===== verification/BlobDemo.thy ===== *)
theory BlobDemo
  imports ServiceDemo
begin

text \<open>
  A concrete cache service of version 2: one entry being created at a time, whose blob is emptied,
  appended to and finalized; lookups as in \<open>ServiceDemo\<close>. It meets the laws of \<open>github_cache\<close>.
\<close>

type_synonym blob_world = "cache_entry list \<times> ((string \<times> string) \<times> bytes option) option"

fun blob_answer :: "http_client \<Rightarrow> http_request \<Rightarrow> blob_world \<Rightarrow> (string + http_response) \<times> blob_world" where
  "blob_answer cl rq (es, None) = (Inr (response 404), (es, None))"
| "blob_answer cl rq (es, Some (kv, b)) =
     (if rq_url rq = ''u'' then (Inr (response 201), (es, Some (kv, Some [])))
      else case (rq_body rq, b) of
             (Octets d, Some c) \<Rightarrow> (Inr (response 201), (es, Some (kv, Some (c @ d))))
           | _ \<Rightarrow> (Inr (response 200), (es, Some (kv, b))))"

fun blob_create ::
  "twirp_client \<Rightarrow> create_cache_entry_request \<Rightarrow> blob_world
     \<Rightarrow> (twirp_client_error + create_cache_entry_response) \<times> blob_world" where
  "blob_create tw rq (es, slot) =
     (Inr \<lparr>ce_ok = True, signed_upload_url = ''u''\<rparr>, (es, Some ((ce_key rq, ce_version rq), None)))"

fun blob_finalize ::
  "twirp_client \<Rightarrow> finalize_cache_entry_upload_request \<Rightarrow> blob_world
     \<Rightarrow> (twirp_client_error + finalize_cache_entry_upload_response) \<times> blob_world" where
  "blob_finalize tw rq (es, Some (kv, Some c)) =
     (if kv = (fe_key rq, fe_version rq)
      then (Inr \<lparr>fe_ok = True, entry_id = 1\<rparr>, ((fst kv, snd kv, file_of c) # es, None))
      else (Inr \<lparr>fe_ok = False, entry_id = 0\<rparr>, (es, Some (kv, Some c))))"
| "blob_finalize tw rq (es, slot) = (Inr \<lparr>fe_ok = False, entry_id = 0\<rparr>, (es, slot))"

fun blob_find ::
  "twirp_client \<Rightarrow> get_cache_entry_download_url_request \<Rightarrow> blob_world
     \<Rightarrow> (twirp_client_error + get_cache_entry_download_url_response) \<times> blob_world" where
  "blob_find tw rq (es, slot) =
     (case find (finds (ge_key rq)) es of
        None \<Rightarrow> (Inr \<lparr>ge_ok = False, signed_download_url = [], matched_key = []\<rparr>, (es, slot))
      | Some e \<Rightarrow> (Inr \<lparr>ge_ok = True, signed_download_url = ''http://blob/'' @ fst e, matched_key = fst e\<rparr>, (es, slot)))"

definition blob_view :: "blob_world \<Rightarrow> cache_view" where
  "blob_view w =
     \<lparr>cv_entries = set (fst w), cv_pending = (\<lambda>_. None),
      cv_signed = (\<lambda>kv. case snd w of None \<Rightarrow> None | Some (kv', b) \<Rightarrow> if kv' = kv then Some ''u'' else None),
      cv_blobs = (\<lambda>loc. case snd w of None \<Rightarrow> None | Some (kv', b) \<Rightarrow> if loc = ''u'' then b else None)\<rparr>"

definition blob_server :: "blob_world server_env" where
  "blob_server = (with_store (server_env.truncate (bare_host (\<lambda>n. None) blob_answer)))
     \<lparr>twirp_create_cache_entry := blob_create,
      twirp_finalize_cache_entry_upload := blob_finalize,
      twirp_get_cache_entry_download_url := blob_find\<rparr>"

abbreviation "blob_env \<equiv> gha_env.truncate blob_server"
abbreviation "blob_config \<equiv> demo_config\<lparr>gha_api := Some demo_v2\<rparr>"

lemmas blob_server_defs = blob_server_def with_store_def bare_host_def server_env.truncate_def gha_env.truncate_def

lemma blob_env_fields [simp]:
  "http_send blob_env = blob_answer" "twirp_create_cache_entry blob_env = blob_create"
  "twirp_finalize_cache_entry_upload blob_env = blob_finalize"
  "twirp_get_cache_entry_download_url blob_env = blob_find"
  "rand_alphanumeric blob_env w = (CHR ''r'', w)" "url_parse blob_env = Inr" "client_build blob_env = Inr"
  "url_append_pair blob_env u k v = u @ k @ v" "header_value blob_env = Inr"
  by (simp_all add: blob_server_defs)

lemma blob_requests [simp]:
  "rq_url (blob_put u n b) = u" "rq_body (blob_put u n b) = b"
  by (simp_all add: blob_put_def)

lemma blob_laws_hold: "blob_laws blob_env blob_view"
  unfolding blob_laws_def
  by (auto simp: blob_view_def creates_blob_def appends_block_def seals_blob_def puts_blob_def accepted_def
      is_success_def split: option.splits if_splits prod.splits)

lemma blob_creates: "creates blob_env demo_v2 blob_view"
  by (auto simp: creates_def create_msg_def blob_view_def)

lemma blob_finalizes: "finalizes blob_env demo_v2 blob_view"
  by (auto simp: finalizes_def finalize_msg_def blob_view_def split: option.splits if_splits)

lemma stored_under_blob:
  "stored_under (blob_view w) demo_v2 key = {f. \<exists>e \<in> set (fst w). finds key e \<and> f = snd (snd e)}"
  by (rule stored_under_list) (simp add: blob_view_def)

lemma blob_finds: "finds_entries blob_env demo_v2 blob_view cache_download"
  unfolding finds_entries_def
proof (intro allI impI)
  fix key w r w'
  assume "twirp_get_cache_entry_download_url blob_env (twirp demo_v2) (lookup_msg demo_v2 key) w = (r, w')"
  moreover obtain es slot where w: "w = (es, slot)" by fastforce
  ultimately have run: "blob_find (twirp demo_v2) (lookup_msg demo_v2 key) (es, slot) = (r, w')" by simp
  have key: "ge_key (lookup_msg demo_v2 key) = key" by (simp add: lookup_msg_def)
  show "blob_view w' = blob_view w
      \<and> (\<forall>res. r = Inr res \<longrightarrow> ge_ok res \<longrightarrow>
           (\<exists>f \<in> stored_under (blob_view w) demo_v2 key. cache_download w' (signed_download_url res) = Some f))
      \<and> (\<forall>res. r = Inr res \<longrightarrow> \<not> ge_ok res \<longrightarrow> stored_under (blob_view w) demo_v2 key = {})"
  proof (cases "find (finds key) es")
    case None
    with run key w show ?thesis by (auto simp: stored_under_blob find_None_iff)
  next
    case (Some e)
    with run key w have "w' = w" "r = Inr \<lparr>ge_ok = True, signed_download_url = ''http://blob/'' @ fst e, matched_key = fst e\<rparr>"
      by auto
    moreover from find_in [OF Some] have "e \<in> set (fst w)" "finds key e" by (simp_all add: w)
    ultimately show ?thesis
      using cache_download_found [of e w key "blob_view w" "''True''"] by (simp add: blob_view_def)
  qed
qed

lemma blob_meets_laws: "github_cache blob_env demo_v2 blob_view cache_download"
  by (simp add: github_cache_def v2_service_def blob_laws_hold blob_creates blob_finalizes blob_finds)

lemma blob_service_run: "service_run blob_server blob_config demo_v2 blob_view cache_download (\<lambda>p. ''nar'')"
proof -
  have "store_apart blob_server blob_view (\<lambda>p. ''nar'')" by (auto simp: store_apart_def blob_server_defs)
  moreover have "plain_hashes blob_server" by (simp add: plain_hashes_def blob_server_defs)
  ultimately show ?thesis by (simp add: service_run_def blob_meets_laws demo_config_def)
qed

section \<open>Runs against it\<close>

definition blob_state :: "cache_entry list \<Rightarrow> blob_world server" where
  "blob_state es = startup blob_server blob_config [] 0 False (es, None)"

lemma blob_state_fields [simp]:
  "tripped (blob_state es) = False" "ext (blob_state es) = (es, None)"
  "narinfo_negative_cache (blob_state es) = {}"
  by (simp_all add: blob_state_def startup_def)

lemma blob_nonce: "draw_nonce blob_env n s = (replicate n (CHR ''r''), s)"
proof (induction n arbitrary: s)
  case (Suc n)
  have "s\<lparr>ext := ext s\<rparr> = s" by simp
  with Suc show ?case by simp
qed simp

abbreviation "blob_allocation key \<equiv> V2 \<lparr>signed_url = ''u'', su_key = key @ ''-rrrr''\<rparr>"

lemma blob_allocate:
  assumes "\<not> tripped s" and "ext s = (es, slot)"
  shows "allocate_file_with_random_suffix blob_env demo_v2 key s
    = (Ok (blob_allocation key), s\<lparr>ext := (es, Some ((key @ ''-rrrr'', ''v''), None))\<rparr>)"
proof -
  have "reserve_cache blob_env demo_v2 (key @ ''-rrrr'') None s
      = (Ok (blob_allocation key), s\<lparr>ext := (es, Some ((key @ ''-rrrr'', ''v''), None))\<rparr>)"
    using assms
    by (simp add: reserve_cache_def reserve_v2_def call_twirp_def and_then_def inspect_err_def)
  then have "allocate_attempts blob_env demo_v2 (Suc n) key s
      = (Ok (blob_allocation key), s\<lparr>ext := (es, Some ((key @ ''-rrrr'', ''v''), None))\<rparr>)" for n
    by (simp add: blob_nonce allocate_file_def eval_nat_numeral)
  from this [of 4] show ?thesis by (simp add: allocate_file_with_random_suffix_def)
qed

lemma blob_upload:
  assumes "\<not> tripped s" and "ext s = (es, Some ((key @ ''-rrrr'', ''v''), None))" and "d \<noteq> []" and "length d < CHUNK_SIZE"
  shows "upload_file blob_env demo_v2 (blob_allocation key) (Slice d) s
    = (Ok (of_nat (length d)), s\<lparr>ext := ((key @ ''-rrrr'', ''v'', file_of d) # es, None)\<rparr>)"
proof -
  let ?kv = "(key @ ''-rrrr'', ''v'')"
  have appended: "append_chunks blob_env demo_v2 cl (''u'' @ ''comp'' @ ''appendblock'') 0 (Slice d)
        (s\<lparr>ext := (es, Some (?kv, Some []))\<rparr>) = (Ok (of_nat (length d)), s\<lparr>ext := (es, Some (?kv, Some d))\<rparr>)" for cl
    using assms(3,4)
    by (simp add: append_chunks_eq [OF spawn_chunks_short] append_chunk_def send_def check_def is_success_def
        inspect_err_def and_then_def)
  with assms(1,2) show ?thesis
    by (simp add: upload_file_def upload_v2_def send_def check_def is_success_def inspect_err_def and_then_def
        finalize_v2_def call_twirp_def)
qed

lemma blob_store:
  assumes "\<not> tripped s" and "ext s = (es, slot)" and "d \<noteq> []" and "length d < CHUNK_SIZE"
  shows "store_file blob_env demo_v2 key (Slice d) s
    = (Ok (of_nat (length d)), s\<lparr>ext := ((key @ ''-rrrr'', ''v'', file_of d) # es, None)\<rparr>)"
  using assms blob_allocate [OF assms(1,2)]
    blob_upload [of "s\<lparr>ext := (es, Some ((key @ ''-rrrr'', ''v''), None))\<rparr>" es key d]
  by (simp add: store_file_def api_call_def map_err_comp_def and_then_def)

lemma blob_get:
  assumes "\<not> tripped s" and "ext s = (es, slot)" and "find (finds key) es = Some e"
  shows "get_file_url blob_env demo_v2 [key] s = (Ok (Some (''http://blob/'' @ fst e)), s)"
proof -
  have "s\<lparr>ext := (es, slot)\<rparr> = s" using assms(2) by simp
  with assms show ?thesis
    by (simp add: get_file_url_def get_cache_entry_def get_entry_v2_def call_twirp_def and_then_def inspect_err_def)
qed

lemma blob_get_narinfo:
  assumes "\<not> tripped s" and "ext s = (es, slot)" and "find (finds ''aa.narinfo'') es = Some e"
    and "''aa'' \<notin> narinfo_negative_cache s"
  shows "\<exists>t. get_narinfo blob_env blob_config ''aa.narinfo'' s = (Ok (Redirect_Temporary (''http://blob/'' @ fst e)), t)"
proof -
  have h: "narinfo_hash ''aa.narinfo'' = Some ''aa''"
    using narinfo_hash_key [of "''aa''"] by (simp add: narinfo_key_def)
  have "get_file_url blob_env demo_v2 [narinfo_key ''aa''] s = (Ok (Some (''http://blob/'' @ fst e)), s)"
    using blob_get [OF assms(1,2), of "narinfo_key ''aa''"] assms(3) by (simp add: narinfo_key_def)
  with h assms(4) show ?thesis
    by (simp add: get_narinfo_def query_cache_def bump_run redirect_temporary_def)
qed

end
