(* ===== verification/ServiceFinish.thy ===== *)
theory ServiceFinish
  imports ServiceInv
begin

text \<open>
  The queue against the service: when the worker has been shut down and the breaker has not tripped, each
  queued path was uploaded, and what was uploaded without an error is visible.
\<close>

section \<open>The outcomes of a list of uploads\<close>

fun upload_results ::
  "'w server_env \<Rightarrow> telemetry_report api \<Rightarrow> store_path_name list \<Rightarrow> 'w server
     \<Rightarrow> (store_path_name \<times> (server_error, unit) result) list"
where
  "upload_results env a [] s = []"
| "upload_results env a (p # ps) s =
     (if tripped s then []
      else case upload_path env a p (s\<lparr>worker_done := insert p (worker_done s)\<rparr>) of
             (Panic m, t) \<Rightarrow> [(p, Panic m)]
           | (r, t) \<Rightarrow> (p, r) # upload_results env a ps t)"

text \<open>A path is served when its narinfo and the NAR that this names are visible.\<close>

definition path_visible ::
  "'w server_env \<Rightarrow> telemetry_report api \<Rightarrow> (store_path_name \<Rightarrow> bytes) \<Rightarrow> cache_view \<Rightarrow> store_path_name \<Rightarrow> bool" where
  "path_visible env a nar v p \<longleftrightarrow>
     (\<exists>g \<in> stored_under v a (narinfo_key (store_path_hash env p)).
        \<exists>w pi doc. fst (query_path_info env p w) = Inr pi \<and> narinfo_document env pi = Ok doc \<and> g = file_of doc
          \<and> names_nar doc (nar_file env pi) \<and> file_of (nar p) \<in> stored_under v a (nar_file env pi))"

lemma path_visible_grows:
  assumes "path_visible env a nar v p" and "\<And>key. stored_under v a key \<subseteq> stored_under v' a key"
  shows "path_visible env a nar v' p"
  using assms unfolding path_visible_def by blast

lemma upload_path_visible:
  assumes "store_run env cfg a view download nar" and "upload_path env a p s = (Ok (), t)"
  shows "path_visible env a nar (view (ext t)) p"
proof -
  from assms(1) have svc: "github_cache (gha_env.truncate env) a view download" "store_apart env view nar"
    "plain_hashes env" and len: "length (nar p) < 2 ^ 64"
    by (simp_all add: service_run_def files_fit_def)
  from svc(1,2) assms(2) obtain pi where pi: "fst (query_path_info env p (ext s)) = Inr pi"
    by (cases rule: upload_path_cases) auto
  note up = upload_path_Ok_view [OF svc assms(2) len pi]
  from up(1) obtain doc where doc: "narinfo_document env pi = Ok doc" and
    shown: "length doc < 2 ^ 64 \<Longrightarrow> file_of doc \<in> stored_under (view (ext t)) a (narinfo_key (store_path_hash env p))"
    by blast
  from assms(1) pi doc have "length doc < 2 ^ 64" unfolding files_fit_def by blast
  with shown up(2) pi doc narinfo_document_names_nar [OF doc] show ?thesis
    unfolding path_visible_def by blast
qed

lemma upload_each_grows:
  assumes "store_run env cfg a view download nar"
  shows "stored_under (view (ext s)) a key \<subseteq> stored_under (view (ext (upload_each env a ps s))) a key"
proof (induction ps arbitrary: s)
  case (Cons p ps)
  from assms have svc: "github_cache (gha_env.truncate env) a view download" "store_apart env view nar"
    by (simp_all add: service_run_def)
  obtain r t where u: "upload_path env a p (s\<lparr>worker_done := insert p (worker_done s)\<rparr>) = (r, t)" by fastforce
  from upload_path_grows [OF svc u] have "stored_under (view (ext s)) a key \<subseteq> stored_under (view (ext t)) a key" by simp
  with u Cons.IH [of t] show ?case by (cases r) (auto simp: worker_stop_def)
qed simp

lemma upload_each_visible:
  assumes "store_run env cfg a view download nar" and "\<not> tripped (upload_each env a ps s)"
    and "worker_result (upload_each env a ps s) = None" and "p \<in> set ps"
  shows "\<exists>r. (p, r) \<in> set (upload_results env a ps s)
    \<and> ((\<exists>e. r = Err e) \<or> path_visible env a nar (view (ext (upload_each env a ps s))) p)"
  using assms(2-4)
proof (induction ps arbitrary: s)
  case (Cons q ps)
  obtain r t where u: "upload_path env a q (s\<lparr>worker_done := insert q (worker_done s)\<rparr>) = (r, t)" by fastforce
  have s: "\<not> tripped s" using Cons.prems(1) by auto
  have r: "\<not> (\<exists>m. r = Panic m)" using Cons.prems(2) u s by (auto simp: worker_stop_def)
  with u s have step: "upload_each env a (q # ps) s = upload_each env a ps t"
    "upload_results env a (q # ps) s = (q, r) # upload_results env a ps t" by (cases r; simp)+
  show ?case
  proof (cases "p \<in> set ps")
    case True
    with Cons.IH [of t] Cons.prems step show ?thesis by auto
  next
    case False
    with Cons.prems(3) have p: "p = q" by simp
    show ?thesis
    proof (cases r)
      case (Ok x)
      with u p have "path_visible env a nar (view (ext t)) p" using upload_path_visible [OF assms(1)] by simp
      from path_visible_grows [OF this upload_each_grows [OF assms(1)]] step p show ?thesis by auto
    qed (use r step p in auto)
  qed
qed simp

lemma shutdown_visible:
  assumes "store_run env cfg a view download nar"
    and "worker_handle s" and "worker_result s = None" and "channel s = map Upload ps"
    and "gha_shutdown env a s = (Ok (), t)" and "\<not> tripped t" and "p \<in> set ps - worker_done s"
  shows "\<exists>r. (p, r) \<in> set (upload_results env a (fresh (worker_done s) ps) (s\<lparr>worker_handle := False\<rparr>))
    \<and> ((\<exists>e. r = Err e) \<or> path_visible env a nar (view (ext t)) p)"
proof -
  let ?t = "upload_each env a (fresh (worker_done s) ps) (s\<lparr>worker_handle := False\<rparr>)"
  from gha_shutdown_drains [OF assms(2-4)] assms(5)
  have t: "shutdown_answer ?t = Ok ()" "t = finish ?t" by (simp_all add: Let_def)
  then have "worker_result ?t = None"
    using upload_each_frame [of "s\<lparr>worker_handle := False\<rparr>" env a "fresh (worker_done s) ps"] assms(3)
    by (auto simp: shutdown_answer_def)
  moreover from t(2) have "tripped t = tripped ?t" "ext t = ext ?t" by (simp_all add: finish_def worker_stop_def)
  ultimately show ?thesis
    using upload_each_visible [OF assms(1), of "fresh (worker_done s) ps" "s\<lparr>worker_handle := False\<rparr>" p] assms(6,7)
    by (simp add: set_fresh)
qed

end
