(* ===== verification/Spec2Isabelle.thy ===== *)
theory Spec2Isabelle
  imports Details HostDemo Interleave RouteFacts BlobDemo ServiceFinish
begin

text \<open>
  Magic Nix Cache (\<open>magic-nix-cache\<close>, \<open>gha-cache\<close>): a daemon that serves a Nix binary cache from the
  GitHub Actions cache and uploads to it what a workflow builds.

  The parts and how they interact. Nix asks the daemon's binary cache (\<open>binary_cache.rs\<close>) for
  narinfos and NARs; a handler asks the GitHub cache through the API client (\<open>gha-cache/src/api.rs\<close>)
  and redirects either to the file found there or to the upstream cache. Paths to upload come from
  the installer action or from build events (\<open>api.rs\<close>, \<open>pbh.rs\<close>); they go through a channel to one
  background worker (\<open>gha.rs\<close>), which uploads the NAR of each path and then the narinfo pointing to
  it (\<open>narinfo/\<close>). All of them share one state (\<open>StateInner\<close> in \<open>main.rs\<close>): the negative cache of
  narinfo hashes, the telemetry counters (\<open>telemetry.rs\<close>), the queue, and the client's circuit
  breaker, which stops all use of the GitHub cache once it has answered that it is exhausted. Before
  it serves, the daemon reads its environment and arguments, sets up the caches (FlakeHub's with the
  credentials of a netrc file, \<open>flakehub.rs\<close>), writes \<open>nix.conf\<close> and the post-build hook (\<open>main.rs\<close>,
  \<open>pbh.rs\<close>); a background task then keeps FlakeHub's token fresh.

  The theories, in dependency order, and the code they model:
    \<^item> \<open>Prelude\<close>: results with panics, machine integers, string operations of the Rust library;
      \<open>Effects\<close>: effectful code as state-passing functions, the \<open>?\<close> operator (\<open>and_then\<close>), and two
      contracts closed under it: \<open>evolution\<close> (a locale: the operations move the state along a preorder)
      and \<open>commutes\<close> (they ignore a part of it).
    \<^item> \<open>Telemetry\<close>: \<open>telemetry.rs\<close>. \<open>Manifest\<close>: \<open>narinfo/nix_manifest/\<close>, the serde serializer, with a
      reader of the flat format as its specification. \<open>NarInfo\<close>: \<open>narinfo/mod.rs\<close>.
    \<^item> \<open>Streams\<close>: \<open>gha-cache/src/util.rs\<close>, the greedy read loop, over any source that meets the
      \<open>AsyncRead\<close> contract (locale \<open>async_read\<close>), and the two sources the program reads from.
    \<^item> \<open>GhaTypes\<close>: \<open>credentials.rs\<close>, the types of \<open>gha-cache/src/api.rs\<close>, the messages of \<open>proto/\<close>.
      \<open>GhaApi\<close>: every operation of \<open>gha-cache/src/api.rs\<close>, for both versions of the service.
    \<^item> \<open>GhaFacts\<close>, \<open>Uploads\<close>: what those operations guarantee: the breaker only ever trips and then
      everything is refused (locale \<open>guarded_op\<close>, interpreted for each public operation); how a source
      is cut into chunks; which errors trip the breaker; how keys are allocated.
    \<^item> \<open>ChunkPool\<close>: the tasks of a version 1 upload as a step relation over the semaphore, any
      interleaving; \<open>upload_v1\<close> of \<open>GhaApi\<close> is shown to be one of its runs.
    \<^item> \<open>Server\<close>: \<open>error.rs\<close>, \<open>StateInner\<close>. \<open>BinaryCache\<close>: \<open>binary_cache.rs\<close>. \<open>StorePaths\<close>: \<open>util.rs\<close> and
      the parts of \<open>std::path\<close> it uses. \<open>Isolation\<close>: the client and the rest of the server do not touch
      each other's state (locale \<open>bystander\<close>).
    \<^item> \<open>GhaWorker\<close>: \<open>gha.rs\<close>. \<open>WorkerFacts\<close>: its queue, against the specification \<open>upload_each\<close>.
      \<open>ActionApi\<close>: \<open>api.rs\<close> and the event loop of \<open>pbh.rs\<close>. \<open>ServerRun\<close>: all handlers, the worker and
      the event loop as steps of one machine, with its invariants (locales \<open>server_invariant\<close> and
      \<open>counting_invariant\<close>, interpreted three times). \<open>FinishFacts\<close>: enqueueing and finishing.
    \<^item> \<open>Config\<close>: \<open>env.rs\<close> and the startup decisions of \<open>main.rs\<close>.
    \<^item> \<open>Text\<close>: \<open>str::replace\<close>, \<open>split_whitespace\<close>, \<open>trim\<close>. \<open>Files\<close>: what is used of \<open>std::fs\<close> and
      \<open>tokio::fs\<close>, on a disk whose calls may fail; replacing a file through a temporary one is a contract
      (locale \<open>file_store\<close>, interpreted for the disk and for the calls as \<open>flakehub.rs\<close> wraps them).
    \<^item> \<open>FlakeHub\<close>: \<open>flakehub.rs\<close>. \<open>NetrcFacts\<close>: what its operations do to the netrc. \<open>TokenFacts\<close>: the
      GitHub refresh task as a step relation, against the specification \<open>token_chain\<close>. \<open>RefreshFacts\<close>:
      the task that follows determinate-nixd, with determinate-nixd as a second actor, and what
      \<open>init_cache\<close> hands to both.
    \<^item> \<open>Hook\<close>: the rest of \<open>pbh.rs\<close>, and \<open>github.rs\<close>. \<open>MainCli\<close>: \<open>main\<close>, \<open>main_cli\<close>, \<open>init_logging\<close> of
      \<open>main.rs\<close>. \<open>StartupFacts\<close>: what startup does to files and which server it starts; \<open>ConfFacts\<close>:
      what it leaves in \<open>nix.conf\<close>, and the report of a whole run.
    \<^item> \<open>Routes\<close>: the daemon's HTTP interface: the routes of \<open>binary_cache.rs\<close> and \<open>api.rs\<close>, matched by
      axum's rule, and the response that a handler's result becomes, with the texts of the errors.
      \<open>RouteFacts\<close>: what a request reaches, and what the hook's request does to the daemon.
    \<^item> \<open>Interleave\<close>: the narinfo handlers of \<open>binary_cache.rs\<close> cut at their \<open>await\<close> points, any number of
      them next to each other and to anything else; left alone, a task is the handler.
    \<^item> \<open>Service\<close>: what is relied on of the cache service (\<open>github_cache\<close>: \<open>v1_service\<close> or \<open>v2_service\<close>), and
      the uploads and lookups of version 1 against it. \<open>ServiceV2\<close>: those of version 2. \<open>Stored\<close>: both.
      \<open>ServiceRun\<close>: the handlers and \<open>upload_path\<close>. \<open>ServiceInv\<close>: every run of the server (locale
      \<open>view_invariant\<close>, interpreted for the events that leave the binary cache alone, and its extension
      \<open>service_invariant\<close>, interpreted for the completeness of narinfos). \<open>ServiceRace\<close>: the narinfo
      handlers of \<open>Interleave\<close> against the service, and which races hide a narinfo. \<open>ServiceFinish\<close>: what
      a shutdown leaves visible.
    \<^item> \<open>ManifestTypes\<close>: a type system for the values that the serializer accepts.
    \<^item> \<open>Details\<close>: smaller facts about single operations. \<open>Demo\<close>, \<open>HostDemo\<close>, \<open>ServiceDemo\<close> (a service of
      version 1), \<open>BlobDemo\<close> (one of version 2): concrete services, stores, hosts and states on which the
      properties below are applied.

  How state and operations correspond. An \<open>async fn\<close> is a function from the state to its result and
  the next state; the result is \<open>Ok\<close>, \<open>Err\<close> or \<open>Panic\<close>. \<open>api_world\<close> is what \<open>Api\<close> changes (the breaker,
  the state its callback writes, the outside world); \<open>server\<close> extends it with the mutable fields of
  \<open>StateInner\<close> and \<open>GhaCache\<close>, and \<open>server_config\<close> has those fixed at startup. Startup and the refresh
  tasks run on a \<open>host\<close>: the disk, the facts recorded, what was printed and slept, the spawned task
  with its variables, the token the FlakeHub client holds. Code outside the repository (HTTP and Twirp
  clients, the Nix store library, URL and header parsing, JSON, SHA-256, the random generator, netrc
  parsing, the attic client, sockets, running \<open>nix\<close>) is a field of \<open>gha_env\<close>, \<open>nar_env\<close>, \<open>server_env\<close>,
  \<open>flakehub_env\<close>, \<open>host_env\<close> or \<open>web\<close>, a function on the outside world. Nothing is assumed of these, but
  for hypotheses that the properties name:
    \<^item> \<open>reports_passwords\<close>: a password that the netrc parser reports is written in the text;
      \<open>reads_machines\<close>: it reads a new line with the words of a machine as one more machine;
      \<open>plain_credentials\<close>: host, login and password are words of printable ASCII characters.
    \<^item> \<open>serves_events\<close>: axum changes the server only by handing it events. \<open>delivers\<close>: a request to the
      daemon's address arrives at its router; \<open>json_agrees\<close>: the JSON that the hook writes is read as the
      paths it was made from.
    \<^item> \<open>v1_service\<close>, \<open>v2_service\<close>, \<open>github_cache\<close>: the documented effect of each kind of request on what
      the cache service shows (\<open>cache_view\<close>), in terms of the protocol (URL, method, body, the range in
      \<open>Content-Range\<close>, the blob operations); which answers come is left open, and so is what a request did
      whose answer was an error or got lost: in particular a commit may have worked all the same.
      \<open>store_apart\<close>: the Nix store and the FlakeHub client do not change what the cache service shows, and
      a path has one NAR; \<open>plain_hashes\<close>: hashes contain no dot. \<open>service_run\<close> is all of these for a
      running server; \<open>files_fit\<close>: NARs and narinfos of known paths are shorter than \<open>2 ^ 64\<close> bytes.
    \<^item> \<open>leaves_narinfos\<close>: clients PUT no narinfos of their own, nor a NAR under the name of one.

  Faults. Every system call of a disk takes the next element of \<open>faults\<close>: it works, is refused, or, for
  a write, fails after some bytes. The properties hold for every list of faults unless they say so.
  Writes through \<open>tokio::fs::File\<close> are buffered and not flushed by the code, so their errors are lost
  (\<open>buffered_write\<close>); they are taken to be done when the operation returns. Directories, links and
  other processes' writes are not part of the disk, except determinate-nixd's renewal of its netrc.

  Concurrency. The machine of \<open>ServerRun\<close> takes handlers whole: \<open>handle_event\<close> is one handler, one build
  event or one turn of the worker. C19, C2 and the queue's properties are about its runs. Where a handler
  looks at shared state on both sides of an \<open>await\<close>, this is too coarse: the narinfo handlers and the negative
  cache. \<open>Interleave\<close> cuts them at their \<open>await\<close> points and lets any number run next to each other and to
  the rest, and what is said of the negative cache (C3, C21, C22) is said of those runs. Inside an upload,
  \<open>ChunkPool\<close> has every interleaving of the chunk tasks; between senders and the worker, C23 shows that the
  order does not matter. The task that follows determinate-nixd takes two steps per turn, and the file may
  change between any two steps. Not modelled: other uploads of \<open>GhaCache\<close> taking permits of the same
  semaphore (a pool starts with any number of them), two uploads whose requests reach the cache service in
  turns, and entries that other jobs store while an upload of the same key runs.

  Bounds. No fuel is used: loops are functions with a termination proof (the read loop by the space
  left in the buffer, the upload loops by the bytes left in the source, the worker by the length of
  its queue), and the allocation loop makes its 5 attempts by recursion on them. A stream is finite.
  \<open>usize\<close> and \<open>i64\<close> are 64-bit words that wrap.

  The profile modelled is the release one, without \<open>debug_assertions\<close> (request statistics) and with
  wrapping arithmetic; see \<open>Prelude\<close> for panics. Log output is not modelled.

  Not modelled: the log subscriber (filter, layers, output), request statistics and \<open>dump_api_stats\<close>
  (debug builds only), derived \<open>Deserialize\<close> impls and other generated code, module declarations.
  Planned: the refresh tasks next to the running server, and uploads that interleave with each other
  against the cache service.

  The properties: C1 to C6 the daemon and the cache service end to end, C7 to C14 uploads, C15 to C17
  the breaker, C18 allocation, C19 the server, C20 a shutdown against the service, C21 and C22 the
  negative cache, C23 to C27 the upload queue, C28 the action API, C29 the narinfo format, C30 to C34
  FlakeHub's netrc and tokens, C35 to C39 starting, ending and the hook, C40 the serializer.
\<close>

section \<open>The daemon and the cache service\<close>





text \<open>
  C3. The negative cache hides a stored narinfo only by a race: let lookups and stores interleave at their
  \<open>await\<close> points, next to anything that leaves the negative cache alone. A lookup of a narinfo that the
  service has asks it, and gets an error or a redirect to a file stored under the key, and never takes it
  as absent; unless the narinfo became visible while a lookup that had been told of its absence waited
  for the lock (C22 is such a run), or otherwise than by a store of the daemon that was answered (see
  \<open>ServiceRace\<close>), or its store has yet to take the hash out of the negative cache.
\<close>

theorem negative_cache_hides_only_races:
  assumes "github_cache env a view download" and "gha_api cfg = Some a"
    and "(race_step env cfg view a)\<^sup>*\<^sup>* (start_daemon s) x" and "narinfo_negative_cache s = {}"
    and "narinfo_hash p = Some h" and "stored_under (view (ext (d_server x))) a (narinfo_key h) \<noteq> {}"
    and "h \<notin> raced x" and "h \<notin> unconfirmed x" and "Put_Remove h \<notin> set (d_tasks x)"
  shows "narinfo_turn env cfg (Get_Start p) (d_server x) = (Get_Query p h, d_server x)
    \<and> (\<exists>r s'. narinfo_turn env cfg (Get_Query p h) (d_server x) = (Get_Done r, s') \<and> (\<forall>y. r = Ok y \<longrightarrow>
         (\<exists>u. \<exists>f \<in> stored_under (view (ext (d_server x))) a (narinfo_key h).
            y = Redirect_Temporary u \<and> download (ext s') u = Some f)))"
proof -
  from race_run [OF assms(1-4)] assms(6-9) have "h \<notin> narinfo_negative_cache (d_server x)"
    by (auto simp: race_inv_def explained_def)
  with assms(5) have "narinfo_turn env cfg (Get_Start p) (d_server x) = (Get_Query p h, d_server x)" by simp
  with stored_query_turn [OF assms(1,2,6), of p] show ?thesis by (metis prod.collapse)
qed

theorem negative_cache_hides_only_races_witness:
  "\<exists>r s f s'. reaches cache_env demo_config cache_view_of demo_v1 (cache_state []) ''aa'' [Get_Done r, Put_Done (Ok ())] s
     \<and> stored_under (cache_view_of (ext s)) demo_v1 (narinfo_key ''aa'') = {f}
     \<and> narinfo_turn cache_env demo_config (Get_Start ''aa.narinfo'') s = (Get_Query ''aa.narinfo'' ''aa'', s)
     \<and> (\<exists>q. narinfo_turn cache_env demo_config (Get_Query ''aa.narinfo'' ''aa'') s = (Get_Done q, s'))"
proof -
  have h: "narinfo_hash ''aa.narinfo'' = Some ''aa''"
    using narinfo_hash_key [of "''aa''"] by (simp add: narinfo_key_def)
  have cfg: "gha_api demo_config = Some demo_v1" by (simp add: demo_config_def)
  obtain r s f where run: "reaches cache_env demo_config cache_view_of demo_v1 (cache_state []) ''aa'' [Get_Done r, Put_Done (Ok ())] s"
    and f: "stored_under (cache_view_of (ext s)) demo_v1 (narinfo_key ''aa'') = {f}"
    using cache_lookup_then_store by blast
  then obtain x where "(race_step cache_env demo_config cache_view_of demo_v1)\<^sup>*\<^sup>* (start_daemon (cache_state [])) x"
    "d_tasks x = [Get_Done r, Put_Done (Ok ())]" "d_server x = s" "''aa'' \<notin> raced x" "''aa'' \<notin> unconfirmed x"
    by (auto simp: reaches_def)
  with negative_cache_hides_only_races [OF cache_meets_laws cfg this(1) _ h] f run show ?thesis by auto
qed

text \<open>
  C4. What a version 1 upload does to the service, however its chunk tasks interleave: when it
  succeeds, the whole source becomes visible under the reserved key; when it fails, nothing does, or
  the whole source (if the answer to the commit was lost), but never a part of it, and never the
  beginning of a source that failed.
\<close>

theorem upload_is_whole_or_nothing:
  assumes "v1_service env a view download"
    and "pool_run env a cid (start_pool n r s) p" and "pool_done p"
    and "cv_pending (view (ext s)) cid = Some (k, v, \<lambda>_. None)" and "length (reader_content r) < 2 ^ 64"
    and "pool_outcome env a cid p = (x, t)"
  shows "cv_entries (view (ext t)) = cv_entries (view (ext s)) \<and> \<not> is_ok x
    \<or> reader_ending r = None
      \<and> cv_entries (view (ext t)) = insert (k, v, file_of (reader_content r)) (cv_entries (view (ext s)))"
  using pool_outcome_view [OF assms(1-4,6)] assms(5) by (auto simp: whole_or_nothing_def)

theorem upload_is_whole_or_nothing_witness:
  "\<exists>p x t. pool_run cache_env demo_v1 7 (start_pool 4 (Slice ''abc'')
       \<lparr>tripped = False, cb_state = new_report [] 0, ext = ([], Some (''k'', ''v'', empty_file))\<rparr>) p
     \<and> pool_outcome cache_env demo_v1 7 p = (Ok x, t)
     \<and> cv_entries (cache_view_of (ext t)) = {(''k'', ''v'', file_of ''abc'')}"
proof -
  let ?s = "\<lparr>tripped = False, cb_state = new_report [] 0, ext = ([], Some (''k'', ''v'', empty_file))\<rparr>"
  obtain p where p: "pool_run cache_env demo_v1 7 (start_pool 4 (Slice ''abc'') ?s) p" "pool_done p"
    "pool_outcome cache_env demo_v1 7 p = upload_v1 cache_env demo_v1 7 (Slice ''abc'') ?s"
    using upload_v1_pool_run [of 4] by fastforce
  obtain t where up: "upload_v1 cache_env demo_v1 7 (Slice ''abc'') ?s = (Ok 3, t)"
    using cache_upload [of ?s "[]" "''k''" "''v''" empty_file "''abc''"]
    by (auto simp: upload_file_def CHUNK_SIZE_def)
  have "cv_pending (cache_view_of (ext ?s)) 7 = Some (''k'', ''v'', \<lambda>_. None)" by (simp add: cache_view_of_def)
  from upload_is_whole_or_nothing [OF cache_v1_service p(1,2) this _ p(3) [unfolded up]] p up
  show ?thesis by (auto simp: cache_view_of_def)
qed

text \<open>
  C5. The same of a whole upload through either version of the service, into the file that was reserved:
  a version 2 upload empties, appends to and seals a blob, and only the finalization shows it.
\<close>

theorem upload_file_shows_the_whole_source:
  assumes "github_cache env a view download" and "reserved a (view (ext s)) k al"
    and "upload_file env a al r s = (x, t)" and "length (reader_content r) < 2 ^ 64"
  shows "cv_entries (view (ext t)) = cv_entries (view (ext s)) \<and> \<not> is_ok x
    \<or> reader_ending r = None
      \<and> cv_entries (view (ext t)) = insert (k, api_version a, file_of (reader_content r)) (cv_entries (view (ext s)))"
  using upload_file_view [OF assms(1,3,2)] assms(4) by (auto simp: whole_or_nothing_def)

theorem upload_file_shows_the_whole_source_witness:
  "\<exists>t. upload_file blob_env demo_v2 (blob_allocation ''k'') (Slice ''abc'')
       ((blob_state [])\<lparr>ext := ([], Some ((''k-rrrr'', ''v''), None))\<rparr>) = (Ok 3, t)
     \<and> cv_entries (blob_view (ext t)) = {(''k-rrrr'', ''v'', file_of ''abc'')}"
proof -
  let ?s = "(blob_state [])\<lparr>ext := ([], Some ((''k-rrrr'', ''v''), None))\<rparr>"
  have res: "reserved demo_v2 (blob_view (ext ?s)) ''k-rrrr'' (blob_allocation ''k'')" by (simp add: blob_view_def)
  obtain t where up: "upload_file blob_env demo_v2 (blob_allocation ''k'') (Slice ''abc'') ?s = (Ok 3, t)"
    using blob_upload [of ?s "[]" "''k''" "''abc''"] by (auto simp: CHUNK_SIZE_def)
  from upload_file_shows_the_whole_source [OF blob_meets_laws res up] up show ?thesis
    by (auto simp: blob_view_def)
qed

text \<open>
  C6. What was stored is found, with either version of the service: after \<open>put_narinfo\<close> has succeeded, an
  answer of \<open>get_narinfo\<close> that is not an error redirects to the body that was sent, or to a narinfo that
  was stored for the hash before, if there was one.
\<close>

theorem stored_narinfo_is_served:
  assumes "github_cache env a view download" and "gha_api cfg = Some a" and "narinfo_hash p = Some h"
    and "put_narinfo env cfg p body s = (Ok (), t)" and "length (reader_content body) < 2 ^ 64"
    and "get_narinfo env cfg p t = (Ok x, t')"
  shows "\<exists>u f. x = Redirect_Temporary u \<and> download (ext t') u = Some f
    \<and> (f = file_of (reader_content body) \<or> f \<in> stored_under (view (ext s)) a (narinfo_key h))"
proof -
  note put = put_narinfo_view [OF assms(1-4)]
  from stored_own(1) [of a "narinfo_key h" body] put(1) assms(5)
  have held: "stored_under (view (ext t)) a (narinfo_key h)
      = insert (file_of (reader_content body)) (stored_under (view (ext s)) a (narinfo_key h))" by simp
  obtain u where u: "x = Redirect_Temporary u" by (cases x)
  with get_narinfo_view(2) [OF assms(1,2,6) assms(3)] put(2) held show ?thesis by auto
qed

theorem stored_narinfo_is_served_witness:
  "\<exists>u t t'. put_narinfo blob_env blob_config ''aa.narinfo'' (Slice ''abc'') (blob_state []) = (Ok (), t)
     \<and> get_narinfo blob_env blob_config ''aa.narinfo'' t = (Ok (Redirect_Temporary u), t')
     \<and> cache_download (ext t') u = Some (file_of ''abc'')"
proof -
  let ?s = "blob_state []"
  have h: "narinfo_hash ''aa.narinfo'' = Some ''aa''"
    using narinfo_hash_key [of "''aa''"] by (simp add: narinfo_key_def)
  have cfg: "gha_api blob_config = Some demo_v2" by simp
  have "store_file blob_env demo_v2 (narinfo_key ''aa'') (Slice ''abc'') ?s
      = (Ok 3, ?s\<lparr>ext := ([(''aa.narinfo-rrrr'', ''v'', file_of ''abc'')], None)\<rparr>)"
    using blob_store [of ?s "[]" None "''abc''" "''aa.narinfo''"] by (simp add: CHUNK_SIZE_def narinfo_key_def)
  with h obtain t where put: "put_narinfo blob_env blob_config ''aa.narinfo'' (Slice ''abc'') ?s = (Ok (), t)"
    and t: "ext t = ([(''aa.narinfo-rrrr'', ''v'', file_of ''abc'')], None)" "\<not> tripped t" "narinfo_negative_cache t = {}"
    by (simp add: put_narinfo_def bump_run)
  obtain u t' where get: "get_narinfo blob_env blob_config ''aa.narinfo'' t = (Ok (Redirect_Temporary u), t')"
    using blob_get_narinfo [OF t(2,1)] t(3) by (auto simp: finds_def)
  have "stored_under (blob_view (ext ?s)) demo_v2 (narinfo_key ''aa'') = {}" by (simp add: stored_under_blob)
  with stored_narinfo_is_served [OF blob_meets_laws cfg h put _ get] put get show ?thesis by auto
qed

section \<open>Uploading to the GitHub Actions cache\<close>

text \<open>
  C7. Whatever way the chunk tasks of a version 1 upload interleave: once all of them are done and the
  source ended well, every chunk of the source has been sent exactly once, and ranged writes in the
  order of sending rebuild exactly the source's content.
\<close>

theorem concurrent_upload_rebuilds_source:
  assumes "pool_run env a cid (start_pool n r s) p" and "pool_done p"
    and "reader_ending r = None" and "length (reader_content r) < 2 ^ 64"
  shows "mset (sent p) = mset (fst (spawn_chunks 0 r))
    \<and> fold write_chunk (sent p) (\<lambda>_. None) = file_of (reader_content r)"
proof -
  note inv = pool_run_inv [OF assms(1)]
  obtain res where sp: "spawn_chunks 0 r = (map fst (tasks p), res)"
    using pool_done_tasks [OF inv assms(2)] by blast
  have "mset (sent p) = mset (map fst (tasks p))"
    by (rule pool_done_sent [OF inv assms(2)])
  moreover from this have "set (sent p) = set (map fst (tasks p))"
    by (metis set_mset_mset)
  ultimately show ?thesis
    using chunks_rebuild_source [OF sp assms(3,4)] sp by simp
qed

theorem concurrent_upload_rebuilds_source_witness:
  "\<exists>p. pool_run demo_env demo_v1 7 (start_pool 4 (Slice ''abc'') (demo_world [response 200, response 200])) p
     \<and> pool_done p \<and> fold write_chunk (sent p) (\<lambda>_. None) = file_of ''abc''"
proof -
  obtain p where p: "pool_run demo_env demo_v1 7
      (start_pool 4 (Slice ''abc'') (demo_world [response 200, response 200])) p" "pool_done p"
    using upload_v1_pool_run [of 4] by fastforce
  then show ?thesis
    using concurrent_upload_rebuilds_source [OF p] by auto
qed

text \<open>
  C8. At most \<open>MAX_CONCURRENCY\<close> chunk tasks hold a permit at any moment of any interleaving, and no
  permit is lost: those held and those free always add up to \<open>MAX_CONCURRENCY\<close>.
\<close>

theorem permits_bound_concurrency:
  assumes "pool_run env a cid (start_pool MAX_CONCURRENCY r s) p"
  shows "holders p \<le> MAX_CONCURRENCY \<and> permits p + holders p = MAX_CONCURRENCY"
  using pool_run_inv [OF assms] by (simp add: pool_inv_def)

theorem permits_bound_concurrency_witness:
  "\<exists>p. pool_run demo_env demo_v1 7 (start_pool MAX_CONCURRENCY (Slice ''abc'') (demo_world [])) p
     \<and> pool_done p \<and> permits p + holders p = 4"
proof -
  obtain p where p: "pool_run demo_env demo_v1 7
      (start_pool MAX_CONCURRENCY (Slice ''abc'') (demo_world [])) p" "pool_done p"
    using upload_v1_pool_run [of MAX_CONCURRENCY] by (fastforce simp: MAX_CONCURRENCY_def)
  then show ?thesis
    using permits_bound_concurrency [OF p(1)] by (auto simp: MAX_CONCURRENCY_def)
qed

text \<open>
  C9. No interleaving of the chunk tasks goes on for ever: the steps of a pool are well-founded.
\<close>

theorem every_interleaving_ends: "wfp (\<lambda>q p. pool_step env a cid p q)"
  by (rule pool_step_wf)

text \<open>
  C10. No interleaving gets stuck: with at least one permit, a pool has a next step exactly as long as
  something is left to do (a chunk to read, a task to finish).
\<close>

theorem no_interleaving_gets_stuck:
  assumes "pool_run env a cid (start_pool n r s) p" and "0 < n"
  shows "pool_done p \<longleftrightarrow> \<not> (\<exists>q. pool_step env a cid p q)"
  using pool_progress [OF pool_run_inv [OF assms(1)] assms(2)] pool_done_final by blast

theorem no_interleaving_gets_stuck_witness:
  "\<exists>q. pool_step demo_env demo_v1 7 (start_pool 4 (Slice ''abc'') (demo_world [])) q"
proof -
  have "\<not> pool_done (start_pool 4 (Slice ''abc'') (demo_world []))"
    by (simp add: pool_done_def start_pool_def)
  moreover have "pool_run demo_env demo_v1 7 (start_pool 4 (Slice ''abc'') (demo_world []))
      (start_pool 4 (Slice ''abc'') (demo_world []))"
    by (rule rtranclp.rtrancl_refl)
  from no_interleaving_gets_stuck [OF this]
  have "pool_done (start_pool 4 (Slice ''abc'') (demo_world []))
    \<longleftrightarrow> \<not> (\<exists>q. pool_step demo_env demo_v1 7 (start_pool 4 (Slice ''abc'') (demo_world [])) q)"
    by simp
  ultimately show ?thesis by blast
qed

text \<open>
  C11. The sequential upload function refines the concurrent machine: its result and final state are
  those of one complete interleaving with the code's number of permits.
\<close>

theorem upload_v1_is_an_interleaving:
  "\<exists>p. pool_run env a cid (start_pool MAX_CONCURRENCY r s) p \<and> pool_done p
     \<and> pool_outcome env a cid p = upload_v1 env a cid r s"
  by (rule upload_v1_pool_run) (simp add: MAX_CONCURRENCY_def)

text \<open>
  C12. The reading loop cuts a source correctly: every chunk is nonempty and at most \<open>CHUNK_SIZE\<close>
  long, the offsets are the running sums, the chunks concatenate to the source (to a prefix that
  misses less than one chunk when the source fails), and the loop returns the total or the error.
\<close>

theorem reading_loop_cuts_source:
  "cuts_source off r (fst (spawn_chunks off r)) (snd (spawn_chunks off r))"
  by (rule spawn_chunks_cuts) simp

text \<open>
  C13. Both versions of the service are sent the same chunks: the version 2 loop is the reference loop
  that appends, in order and up to the first failure, the chunks that version 1 would spawn.
\<close>

theorem append_loop_sends_same_chunks:
  "append_chunks env a cl u off r s =
     and_then (append_all env a cl u (map snd (fst (spawn_chunks off r))))
       (\<lambda>_. lift_result (snd (spawn_chunks off r))) s"
  by (rule append_chunks_eq) simp

text \<open>
  C14. An upload of either version succeeds only if the whole source could be read, and then returns
  its length; it was not attempted with a tripped breaker.
\<close>

theorem upload_Ok_means_all_sent:
  assumes "upload_file env a al r s = (Ok n, t)"
  shows "reader_ending r = None \<and> n = of_nat (length (reader_content r)) \<and> \<not> tripped s"
  using upload_file_OkD [OF assms] upload.Ok_not_tripped [OF assms] by simp

theorem upload_Ok_means_all_sent_witness:
  "snd (upload_file demo_env demo_v1 (V1 7) (Slice ''abc'') (demo_world [response 204, response 204])) = demo_world []
   \<and> (\<exists>n. fst (upload_file demo_env demo_v1 (V1 7) (Slice ''abc'') (demo_world [response 204, response 204])) = Ok n
        \<and> n = (3 :: usize))"
proof -
  have run: "upload_file demo_env demo_v1 (V1 7) (Slice ''abc'') (demo_world [response 204, response 204])
      = (Ok (of_nat 3), demo_world [])"
    by (simp add: upload_file_def upload_v1_def spawn_chunks_short CHUNK_SIZE_def run_chunk_def send_def
        commit_v1_def inspect_err_def check_def is_success_def demo_world_def response_def and_then_def)
  from upload_Ok_means_all_sent [OF this] run show ?thesis by simp
qed

section \<open>The circuit breaker\<close>

text \<open>
  C15. With a tripped breaker no operation does anything: lookup, reservation and upload fail with
  \<open>CircuitBreakerTripped\<close> in an unchanged state; an allocation does too, having drawn a nonce first.
\<close>

theorem tripped_breaker_refuses_everything:
  assumes "tripped s"
  shows "get_file_url env a keys s = (Err CircuitBreakerTripped, s)
    \<and> reserve_cache env a key cs s = (Err CircuitBreakerTripped, s)
    \<and> upload_file env a al r s = (Err CircuitBreakerTripped, s)
    \<and> allocate_file_with_random_suffix env a key s
        = (Err CircuitBreakerTripped, snd (draw_nonce env 4 s))"
  using lookup.refused [OF assms] reserve.refused [OF assms] upload.refused [OF assms]
    allocate.refused [OF assms]
  by simp

theorem tripped_breaker_refuses_everything_witness:
  "upload_file demo_env demo_v1 (V1 7) (Slice ''abc'') (demo_world [response 204]\<lparr>tripped := True\<rparr>)
     = (Err CircuitBreakerTripped, demo_world [response 204]\<lparr>tripped := True\<rparr>)"
  using tripped_breaker_refuses_everything [of "demo_world [response 204]\<lparr>tripped := True\<rparr>"] by simp

text \<open>
  C16. An exhausted service is noticed: whenever a lookup, an allocation or a version 1 upload fails
  with a 429, a Twirp \<open>resource_exhausted\<close> or a 502, the breaker has tripped.
\<close>

theorem exhaustion_trips_breaker:
  "reports_exhaustion (get_file_url env a keys)
   \<and> reports_exhaustion (allocate_file_with_random_suffix env a key)
   \<and> reports_exhaustion (upload_file env a (V1 cid) r)"
proof -
  have "reports_exhaustion (upload_file env a (V1 cid) r)"
    by (rule reportsI)
       (auto simp: upload_file_def split: if_splits intro: reportsD [OF reporting_upload_v1])
  then show ?thesis by (intro conjI reporting)
qed

text \<open>
  C17. Except in one place: when the request that creates the blob of a version 2 upload is answered
  with 429, the upload fails with that error and the breaker is left as it was.
\<close>

theorem blob_creation_429_does_not_trip:
  assumes "url_parse env (signed_url su) = Inr u" and "client_build env blob_client = Inr cl"
    and "send env cl (blob_put u 0 No_Body) s = (Ok res, t)" and "rs_status res = TOO_MANY_REQUESTS"
  shows "upload_v2 env a su r s = (Err (handle_error env res), t) \<and> tripped t = tripped s"
  using assms send_frame(1) [OF assms(3)]
  by (simp add: upload_v2_def check_def is_success_def TOO_MANY_REQUESTS_def)

theorem blob_creation_429_does_not_trip_witness:
  "upload_v2 demo_env demo_v2 \<lparr>signed_url = ''b'', su_key = ''k''\<rparr> (Slice ''abc'') (demo_world [response 429])
     = (Err (ApiError 429 (Unstructured [])), demo_world []) \<and> \<not> tripped (demo_world [])"
proof -
  have "send demo_env blob_client (blob_put ''b'' 0 No_Body) (demo_world [response 429])
      = (Ok (response 429), demo_world [])"
    by (simp add: send_def demo_world_def)
  from blob_creation_429_does_not_trip [OF _ _ this, of "\<lparr>signed_url = ''b'', su_key = ''k''\<rparr>" demo_v2 "Slice ''abc''"]
  show ?thesis
    by (simp add: response_def TOO_MANY_REQUESTS_def handle_error_def demo_world_def)
qed

section \<open>Allocating and finding files\<close>

text \<open>
  C18. Over version 2 of the service an allocation is one attempt: a collision is not recognised as
  such, so the retries that version 1 has are never made.
\<close>

theorem v2_allocation_never_retries:
  assumes "\<not> uses_v1 a"
  shows "allocate_file_with_random_suffix env a key s =
     (case draw_nonce env 4 s of (nonce, s') \<Rightarrow> allocate_file env a (key @ ''-'' @ nonce) s')"
  using assms by (rule allocate_v2_once)

theorem v2_allocation_never_retries_witness:
  "allocate_file_with_random_suffix demo_env demo_v2 ''k'' (demo_world [])
     = allocate_file demo_env demo_v2 ''k-rrrr'' (demo_world [])"
  using v2_allocation_never_retries [of demo_v2 demo_env "''k''" "demo_world []"]
  by (simp add: uses_v1_def demo_client_def demo_credentials_def numeral_eq_Suc demo_world_def)

section \<open>Serving the binary cache\<close>

text \<open>
  C19. Whatever sequence of requests, build events and turns of the worker the server handles from its
  start: the narinfo requests sent upstream are the hits and misses of the negative cache, the flag
  \<open>tripped_429\<close> of the report says whether the breaker has tripped, and the upload queue is in order
  (a worker that has ended has none; \<open>Shutdown\<close> is sent only by \<open>shutdown\<close>).
\<close>

theorem server_keeps_its_invariants:
  assumes "flagging cfg" and "server_reachable env cfg s"
  shows "counts_balanced (cb_state s) \<and> (tripped_429 (cb_state s) \<longleftrightarrow> tripped s) \<and> queue_inv s"
  using reachable_invariants [OF assms] by (simp add: balanced_report_def tripped_agrees_def)

theorem server_keeps_its_invariants_witness:
  "counts_balanced (cb_state (handle_event demo_server demo_config (Cache_Request (Get_Narinfo ''aa.narinfo''))
     (demo_state [response 429])))"
proof -
  have "server_reachable demo_server demo_config (handle_event demo_server demo_config
      (Cache_Request (Get_Narinfo ''aa.narinfo'')) (demo_state [response 429]))"
    unfolding demo_state_def by (intro server_reachable.intros)
  moreover have "flagging demo_config"
    by (simp add: flagging_def demo_config_def demo_client_def)
  ultimately show ?thesis using server_keeps_its_invariants by blast
qed



text \<open>
  C21. However lookups and stores interleave at their \<open>await\<close> points, and whatever else runs in
  between: a hash enters the negative cache only when the service has answered a lookup with absence.
  So a stored narinfo stays visible as long as no lookup answered before the store is still waiting
  for the lock and the service finds it. The telemetry counters balance at every moment.
\<close>

theorem negative_cache_needs_an_absent_answer:
  assumes "(narinfo_step env cfg)\<^sup>*\<^sup>* x y" and "flagging cfg" and "counts_balanced (cb_state (n_server x))"
    and "h \<notin> narinfo_negative_cache (n_server x)" and "\<forall>p. Get_Absent p h \<notin> set (n_tasks x)"
    and "h \<notin> n_absent y"
  shows "h \<notin> narinfo_negative_cache (n_server y) \<and> counts_balanced (cb_state (n_server y))"
proof -
  have "h \<notin> absent_answer t" if "t \<in> set (n_tasks x)" for t
    using that assms(5) by (cases t rule: narinfo_task.exhaust) auto
  with assms(4) have "kept_out h x" by (simp add: kept_out_def)
  with narinfo_run [OF assms(1)] assms(2,3,6) show ?thesis
    by (simp add: kept_out_def balanced_report_def)
qed

theorem negative_cache_needs_an_absent_answer_witness:
  "\<exists>y. (narinfo_step demo_env demo_config)\<^sup>*\<^sup>*
      \<lparr>n_tasks = [Put_Remove ''aa'', Get_Absent ''bb.narinfo'' ''bb''], n_server = demo_state [], n_absent = {''bb''}\<rparr> y
    \<and> n_tasks y ! 0 = Put_Done (Ok ()) \<and> ''aa'' \<notin> narinfo_negative_cache (n_server y)"
proof -
  let ?x = "\<lparr>n_tasks = [Put_Remove ''aa'', Get_Absent ''bb.narinfo'' ''bb''], n_server = demo_state [], n_absent = {''bb''}\<rparr>"
  let ?y = "?x\<lparr>n_tasks := (n_tasks ?x)[0 := Put_Done (Ok ())],
     n_server := (demo_state [])\<lparr>narinfo_negative_cache := narinfo_negative_cache (demo_state []) - {''aa''}\<rparr>,
     n_absent := n_absent ?x \<union> absent_answer (Put_Done (Ok ()))\<rparr>"
  have run: "(narinfo_step demo_env demo_config)\<^sup>*\<^sup>* ?x ?y"
    by (rule r_into_rtranclp, rule narinfo_step.turn) simp_all
  have "flagging demo_config" and "counts_balanced (cb_state (n_server ?x))"
    and "''aa'' \<notin> narinfo_negative_cache (n_server ?x)"
    by (simp_all add: flagging_def demo_config_def demo_client_def demo_state_def startup_def
        counts_balanced_def new_report_def)
  from negative_cache_needs_an_absent_answer [OF run this] run show ?thesis by (intro exI [of _ ?y]) simp
qed

text \<open>
  C22. A lookup can hide a store that runs next to it: when the service answers the lookup with absence
  and the narinfo is stored before the lookup gets the lock, the store succeeds and takes the hash out
  of the negative cache, the lookup puts it in, and later requests go upstream without asking the
  GitHub cache, which has the narinfo.
\<close>

theorem concurrent_lookup_hides_a_store:
  assumes "narinfo_hash p = Some h" and "h \<notin> narinfo_negative_cache s"
    and "query_cache env cfg (narinfo_key h) s = (Ok None, s1)"
    and "put_narinfo env cfg p body s1 = (Ok (), s2)"
  shows "\<exists>r y. (narinfo_step env cfg)\<^sup>*\<^sup>*
      \<lparr>n_tasks = [Get_Start p, Put_Start p body], n_server = s, n_absent = {}\<rparr> y
    \<and> n_tasks y = [Get_Done r, Put_Done (Ok ())]
    \<and> h \<in> narinfo_negative_cache (n_server y)
    \<and> ext (snd (get_narinfo env cfg p (n_server y))) = ext (n_server y)"
  using hidden_store [OF assms] negative_cache_hit_makes_no_request [OF assms(1)] by fastforce

theorem concurrent_lookup_hides_a_store_witness:
  "\<exists>r y. (narinfo_step demo_env demo_config)\<^sup>*\<^sup>*
      \<lparr>n_tasks = [Get_Start ''aa.narinfo'', Put_Start ''aa.narinfo'' (Slice ''abc'')],
       n_server = demo_state [response 204, response 200, response 200, response 200], n_absent = {}\<rparr> y
    \<and> n_tasks y = [Get_Done r, Put_Done (Ok ())] \<and> ''aa'' \<in> narinfo_negative_cache (n_server y)"
proof -
  let ?s = "demo_state [response 204, response 200, response 200, response 200]"
  let ?s1 = "demo_state [response 200, response 200, response 200]"
  have h: "narinfo_hash ''aa.narinfo'' = Some ''aa''"
    using narinfo_hash_key [of "''aa''"] by (simp add: narinfo_key_def)
  have q: "query_cache demo_env demo_config (narinfo_key ''aa'') ?s = (Ok None, ?s1)"
    by (simp add: query_cache_def get_file_url_def get_cache_entry_def uses_v1_def get_entry_v1_def
        and_then_def send_def response_def check_json_def check_def is_success_def
        check_err_def demo_config_def demo_state_def startup_def demo_client_def demo_credentials_def
        api_call_def map_err_comp_def NO_CONTENT_def)
  have "store_file demo_env demo_v1 (narinfo_key ''aa'') (Slice ''abc'') ?s1 = (Ok 3, ?s1\<lparr>ext := []\<rparr>)"
    using demo_store_file [of ?s1 "[]" "''abc''"] by (simp add: CHUNK_SIZE_def demo_state_def startup_def)
  with h have "fst (put_narinfo demo_env demo_config ''aa.narinfo'' (Slice ''abc'') ?s1) = Ok ()"
    by (simp add: put_narinfo_def demo_config_def bump_run)
  then obtain s2 where put: "put_narinfo demo_env demo_config ''aa.narinfo'' (Slice ''abc'') ?s1 = (Ok (), s2)"
    by (metis prod.collapse)
  have "''aa'' \<notin> narinfo_negative_cache ?s" by (simp add: demo_state_def startup_def)
  from concurrent_lookup_hides_a_store [OF h this q put] show ?thesis by blast
qed

section \<open>The upload queue\<close>

text \<open>
  C23. It does not matter when the worker runs: after any interleaving of sends and turns of the
  worker, letting it work off the queue ends in the same state as sending everything first.
\<close>

theorem worker_schedule_is_irrelevant:
  "worker_run env a (run_events env a evs s) = worker_run env a (send_requests (sends evs) s)"
  by (rule run_events_run)

text \<open>
  C24. The worker's loop implements its specification: it hands to \<open>upload_path\<close> exactly the paths
  before the \<open>Shutdown\<close> that it has not seen before, each once and in their order, until the breaker
  trips or an upload panics; then it ends and drops what is queued.
\<close>

theorem worker_uploads_each_new_path_once:
  assumes "worker_result s = None" and "channel s = map Upload ps @ Shutdown # q"
  shows "\<exists>new. worker_run env a s = finish (upload_each env a new s)
    \<and> distinct new \<and> set new = set ps - worker_done s \<and> subseq new ps"
  by (rule exI [of _ "fresh (worker_done s) ps"])
     (simp add: worker_run_refines [OF assms] distinct_fresh set_fresh subseq_fresh)

theorem worker_uploads_each_new_path_once_witness:
  "\<exists>new. worker_run demo_server demo_v1 ((demo_state [])\<lparr>channel := [Upload ''aa-x'', Upload ''bb-y'', Upload ''aa-x'', Shutdown]\<rparr>)
       = finish (upload_each demo_server demo_v1 new ((demo_state [])\<lparr>channel := [Upload ''aa-x'', Upload ''bb-y'', Upload ''aa-x'', Shutdown]\<rparr>))
     \<and> distinct new \<and> set new = {''aa-x'', ''bb-y''}"
  using worker_uploads_each_new_path_once
    [of "(demo_state [])\<lparr>channel := [Upload ''aa-x'', Upload ''bb-y'', Upload ''aa-x'', Shutdown]\<rparr>"
      "[''aa-x'', ''bb-y'', ''aa-x'']" "[]" demo_server demo_v1]
  by (auto simp: demo_state_def startup_def)

text \<open>
  C25. \<open>shutdown\<close> waits for every queued path: it answers \<open>Ok\<close> only when the worker has ended
  normally with an empty queue, and then, unless the breaker tripped, every path that was queued has
  been handed to \<open>upload_path\<close>.
\<close>

theorem shutdown_waits_for_the_queue:
  assumes "gha_shutdown env a s = (Ok (), t)" and "worker_handle s" and "queue_inv s"
  shows "worker_result t = Some (Ok ()) \<and> channel t = []
    \<and> (tripped t \<or> worker_done t = worker_done s \<union> {p. Upload p \<in> set (channel s)})"
  using gha_shutdown_OkD [OF assms] by blast

theorem shutdown_waits_for_the_queue_witness:
  "worker_done (snd (gha_shutdown demo_server demo_v1
     ((demo_state [response 200, response 200, response 200, response 200, response 200, response 200])\<lparr>channel := [Upload ''aa-x'']\<rparr>)))
     = {''aa-x''}"
proof -
  let ?s = "(demo_state [response 200, response 200, response 200, response 200, response 200, response 200])\<lparr>channel := [Upload ''aa-x'']\<rparr>"
  have fields: "worker_handle ?s" "worker_result ?s = None" "channel ?s = map Upload [''aa-x'']"
    "worker_done ?s = {}" "\<not> tripped ?s"
    by (simp_all add: demo_state_def startup_def demo_config_def)
  then have inv: "queue_inv ?s" by (simp add: queue_inv_def)
  let ?t = "upload_each demo_server demo_v1 [''aa-x''] (?s\<lparr>worker_handle := False\<rparr>)"
  have "worker_result ?t = None \<and> \<not> tripped ?t"
    using demo_upload_path [of "?s\<lparr>worker_handle := False, worker_done := {''aa-x''}\<rparr>" "[]"] fields
    by (simp add: demo_state_def startup_def)
  then have run: "gha_shutdown demo_server demo_v1 ?s = (Ok (), finish ?t)" and "\<not> tripped (finish ?t)"
    using gha_shutdown_drains [OF fields(1-3), of demo_server demo_v1] fields(4)
    by (simp_all add: shutdown_answer_def finish_def)
  with shutdown_waits_for_the_queue [OF run fields(1) inv] fields(4) show ?thesis
    by (simp add: demo_state_def startup_def)
qed

text \<open>
  C26. The narinfo of an uploaded path points to its NAR: when the path and the names of its references
  are UTF-8 and no value contains a newline, the document parses back, and it names the store path,
  the Zstd compression, and as URL \<open>nar/\<close> followed by the very name the NAR was allocated under.
\<close>

theorem narinfo_points_to_its_nar:
  assumes "list_all2 (\<lambda>r n. path_file_name r = Some n \<and> utf8_valid n) (pi_references pi) refs"
    and "utf8_valid (get_full_path env (pi_path pi))"
    and "narinfo_no_newline (nar_format env) (narinfo_of env pi refs)"
  shows "\<exists>doc es. narinfo_document env pi = Ok doc \<and> parse_lines doc = Some es
    \<and> map_of es ''URL'' = Some (''nar/'' @ nar_file env pi)
    \<and> map_of es ''StorePath'' = Some (get_full_path env (pi_path pi))
    \<and> map_of es ''Compression'' = Some ''zstd''"
  using narinfo_document_Ok [OF assms(1,2)] parse_render [OF narinfo_lines_safe [OF assms(3)]]
  by (simp add: narinfo_lines_def narinfo_of_def)

theorem narinfo_points_to_its_nar_witness:
  "\<exists>doc es. narinfo_document demo_server \<lparr> pi_path = ''aa-x'', pi_nar_hash = ''h'', pi_nar_size = 3,
       pi_references = [''/nix/store/bb-y''], pi_ca = None, pi_provenance = None \<rparr> = Ok doc
     \<and> parse_lines doc = Some es \<and> map_of es ''URL'' = Some ''nar/h.nar.zstd''"
proof -
  let ?pi = "\<lparr> pi_path = ''aa-x'', pi_nar_hash = ''h'', pi_nar_size = 3,
       pi_references = [''/nix/store/bb-y''], pi_ca = None, pi_provenance = None \<rparr>"
  have "list_all2 (\<lambda>r n. path_file_name r = Some n \<and> utf8_valid n) (pi_references ?pi) [''bb-y'']"
    by (simp add: path_file_name_def utf8_valid_def)
  moreover have "utf8_valid (get_full_path demo_server (pi_path ?pi))"
    by (simp add: demo_server_def utf8_valid_def)
  moreover have "CHR ''\<newline>'' \<notin> set (dec_usize 3)"
    unfolding dec_usize_def by (rule dec_nat_no_separator) simp
  then have "narinfo_no_newline (nar_format demo_server) (narinfo_of demo_server ?pi [''bb-y''])"
    by (simp add: narinfo_no_newline_def narinfo_lines_def narinfo_of_def opt_line_def demo_server_def nar_file_def)
  ultimately show ?thesis
    using narinfo_points_to_its_nar [of ?pi "[''bb-y'']" demo_server]
    by (auto simp: nar_file_def demo_server_def)
qed

text \<open>
  C27. Once the worker has ended, nothing more can be queued: enqueueing a nonempty closure fails with
  an internal error and leaves the queue as it was; and a second \<open>shutdown\<close> does nothing.
\<close>

theorem ended_worker_refuses_uploads:
  assumes "worker_result s \<noteq> None" and "compute_fs_closure_multi env ps (ext s) = (Inr (p # cl), w)"
  shows "gha_enqueue_paths env ps s
      = (Err (Internal ''Cannot send upload message''), s\<lparr>ext := w\<rparr>)
    \<and> gha_shutdown env a (s\<lparr>worker_handle := False\<rparr>) = (Ok (), s\<lparr>worker_handle := False\<rparr>)"
proof -
  have "send_uploads (p # cl) (s\<lparr>ext := w\<rparr>)
      = (Err (Internal ''Cannot send upload message''), s\<lparr>ext := w\<rparr>)"
    using assms(1) by (subst send_uploads_closed) simp_all
  with assms(2) show ?thesis
    by (simp add: gha_enqueue_paths_def outside_def gha_shutdown_again del: send_uploads.simps)
qed

theorem ended_worker_refuses_uploads_witness:
  "fst (gha_enqueue_paths demo_server [''aa-x''] ((demo_state [])\<lparr>worker_result := Some (Ok ())\<rparr>))
     = Err (Internal ''Cannot send upload message'')"
  using ended_worker_refuses_uploads [of "(demo_state [])\<lparr>worker_result := Some (Ok ())\<rparr>" demo_server "[''aa-x'']"]
  by (simp add: demo_server_def)

section \<open>The action API\<close>

text \<open>
  C28. When \<open>workflow_finish\<close> answers \<open>Ok\<close> with store diffing on and the worker alive: the paths that
  are in the store now but were not at the start were resolved and their closure computed, and,
  unless the breaker tripped, every path of that closure and every path queued before has been
  handed to \<open>upload_path\<close>; the number of new paths is reported, and the server is told to stop.
\<close>

theorem workflow_finish_uploads_new_paths:
  assumes "workflow_finish env cfg s = (Ok resp, t)" and "gha_api cfg = Some a" and "diff_store cfg"
    and "worker_handle s" and "worker_result s = None" and "queue_inv s"
  shows "\<exists>final s1 new s2 cl. get_store_paths env s = (Ok final, s1)
    \<and> follow_store_paths env (hash_order env (final - original_paths s)) s1 = (Ok new, s2)
    \<and> fst (compute_fs_closure_multi env new (ext s2)) = Inr cl
    \<and> (tripped t \<or> worker_done t = worker_done s \<union> {p. Upload p \<in> set (channel s)} \<union> set cl)
    \<and> wf_new_paths resp = Some (of_nat (length new)) \<and> shutdown_cancelled t"
  using assms(1)
proof (cases rule: workflow_finish_OkD)
  case (1 s1 u)
  with assms(2,3) have d: "diff_and_enqueue env cfg s = (Ok resp, s1)"
    and g: "gha_shutdown env a s1 = (Ok (), u)"
    and t: "shutdown_cancelled t" "worker_done t = worker_done u" "tripped t = tripped u"
    by simp_all
  obtain final s0 new s2 cl where new:
    "get_store_paths env s = (Ok final, s0)"
    "follow_store_paths env (hash_order env (final - original_paths s)) s0 = (Ok new, s2)"
    "fst (compute_fs_closure_multi env new (ext s2)) = Inr cl"
    "channel s1 = channel s @ map Upload cl"
    "wf_new_paths resp = Some (of_nat (length new))"
    and keep: "worker_handle s1 = worker_handle s" "worker_done s1 = worker_done s"
    using diff_and_enqueue_OkD [OF d assms(2,5)] by metis
  have "queue_inv s1"
    using preservesD_run [OF shape.diff_and_enqueue_preserves d assms(6)] .
  with gha_shutdown_OkD(4) [OF g] keep assms(4)
  have "tripped t \<or> worker_done t = worker_done s \<union> {p. Upload p \<in> set (channel s1)}"
    by (auto simp: t)
  then have "tripped t \<or> worker_done t = worker_done s \<union> {p. Upload p \<in> set (channel s)} \<union> set cl"
    by (auto simp: new(4))
  with new t show ?thesis by blast
qed

theorem workflow_finish_uploads_new_paths_witness:
  "shutdown_cancelled (snd (workflow_finish demo_server demo_config demo_finish_state))
   \<and> worker_done (snd (workflow_finish demo_server demo_config demo_finish_state)) = {''aa-x''}"
proof -
  obtain resp t where run: "workflow_finish demo_server demo_config demo_finish_state = (Ok resp, t)"
    and "\<not> tripped t"
    using demo_finish by blast
  have s: "worker_handle demo_finish_state" "worker_result demo_finish_state = None"
    "queue_inv demo_finish_state" "worker_done demo_finish_state = {}" "channel demo_finish_state = []"
    "original_paths demo_finish_state = {''/nix/store/bb-y''}"
    by (simp_all add: demo_finish_state_def demo_state_def startup_def demo_config_def queue_inv_def)
  have order: "hash_order demo_server ({''/nix/store/aa-x'', ''/nix/store/bb-y''} - {''/nix/store/bb-y''})
      = [''/nix/store/aa-x'']" and closure: "compute_fs_closure_multi demo_server = (\<lambda>ps w. (Inr ps, w))"
    by (simp_all add: demo_server_def)
  from workflow_finish_uploads_new_paths [OF run _ _ s(1-3), of demo_v1] \<open>\<not> tripped t\<close>
  show ?thesis
    by (auto simp: demo_config_def demo_listing demo_follow order closure s run [unfolded demo_config_def]
        simp del: follow_store_paths.simps)
qed

section \<open>The narinfo format\<close>

text \<open>
  C29. The text of a narinfo whose values contain no newline parses back to its fields.
\<close>

theorem narinfo_round_trip:
  assumes "utf8_valid (store_path n)" and "narinfo_no_newline ne n"
  shows "\<exists>doc. narinfo_to_string ne n = Ok doc \<and> parse_lines doc = Some (narinfo_lines ne n)"
  using narinfo_to_string_Ok [OF assms(1), of ne] parse_render [OF narinfo_lines_safe [OF assms(2)]] by simp

theorem narinfo_round_trip_witness:
  "\<exists>doc. narinfo_to_string (nar_format demo_server)
       \<lparr>store_path = ''/nix/store/aa-x'', url = ''u'', compression = Xz, file_hash = Some ''f'', file_size = None,
        nar_hash = ''h'', nar_size = 3, references = [''a'', ''b''], system = None, deriver = None,
        signature = Some ''s'', ca = None, provenance = None\<rparr> = Ok doc
     \<and> map_option (map fst) (parse_lines doc)
         = Some [''StorePath'', ''URL'', ''Compression'', ''FileHash'', ''NarHash'', ''NarSize'', ''References'', ''Sig'']"
proof -
  let ?n = "\<lparr>store_path = ''/nix/store/aa-x'', url = ''u'', compression = Xz, file_hash = Some ''f'', file_size = None,
        nar_hash = ''h'', nar_size = 3, references = [''a'', ''b''], system = None, deriver = None,
        signature = Some ''s'', ca = None, provenance = None\<rparr>"
  have "CHR ''\<newline>'' \<notin> set (dec_usize 3)"
    unfolding dec_usize_def by (rule dec_nat_no_separator) simp
  then have "narinfo_no_newline (nar_format demo_server) ?n"
    by (simp add: narinfo_no_newline_def narinfo_lines_def opt_line_def demo_server_def)
  moreover have "utf8_valid (store_path ?n)" by (simp add: utf8_valid_def)
  ultimately show ?thesis
    using narinfo_round_trip [of ?n "nar_format demo_server"]
    by (auto simp: narinfo_lines_def opt_line_def)
qed

section \<open>FlakeHub's netrc and its tokens\<close>

text \<open>
  C30. Storing a new token in the netrc is atomic: when it succeeds, exactly the occurrences of the old
  token have been replaced and the temporary file is gone; whatever call fails, the netrc is as it
  was. No file but the netrc and the temporary one is touched. The temporary path must differ from the
  netrc's, that is, the netrc's name must not end in \<open>.tmp\<close>.
\<close>

theorem netrc_rewrite_is_atomic:
  assumes "rewrite_github_actions_token env cl p old s = (r, t)" and "with_extension p ''tmp'' \<noteq> p"
  shows "(case r of
            Ok new \<Rightarrow> (\<exists>c. contents s p = Some c \<and> contents t p = Some (str_replace old new c))
              \<and> contents t (with_extension p ''tmp'') = None
          | Err e \<Rightarrow> contents t p = contents s p
          | Panic m \<Rightarrow> False)
    \<and> (\<forall>q. q \<notin> {p, with_extension p ''tmp''} \<longrightarrow> contents t q = contents s q)"
  using rewrite_atomic(1) [OF assms] by (cases r) auto

theorem netrc_rewrite_is_atomic_witness:
  "\<exists>t. rewrite_github_actions_token demo_flake refresh_client ''/n'' ''old'' (demo_machine [demo_token ''new'']) = (Ok ''new'', t)
     \<and> contents t ''/n'' = Some ''new'' \<and> contents t ''/n.tmp'' = None"
proof -
  have [simp]: "str_replace ''old'' ''new'' ''old'' = ''new''" and "utf8_valid ''old''" by code_simp+
  then obtain t where t: "rewrite_github_actions_token demo_flake refresh_client ''/n'' ''old'' (demo_machine [demo_token ''new'']) = (Ok ''new'', t)"
    "contents t ''/n'' = Some ''new''"
    using demo_rewrite [of "demo_machine [demo_token ''new'']" "''old''" 1 "''new''" "[]" refresh_client "''old''"]
    by auto
  from netrc_rewrite_is_atomic [OF t(1)] t show ?thesis by (auto simp: tmp_demo)
qed

text \<open>
  C31. The GitHub refresh task keeps netrc and client together: from a successful \<open>init_cache\<close> on,
  through its start, any sequence of its turns and of changes elsewhere, the netrc is the one it started
  from after some chain of token replacements, it contains the last token of the chain, and that is the
  token the task and the client hold, unless the task has ended. It ends before its first turn, when its
  HTTP client cannot be built, or by the turn that fetched the last token of the chain and wrote it to the
  netrc, when the API client did not accept it: the client then holds the token before.
\<close>

theorem github_refresh_keeps_token_in_netrc:
  assumes "init_cache env GitHubActions a c fl (Netrc_File p) s = (Ok name, t)"
    and "reports_passwords env" and "with_extension p ''tmp'' \<noteq> p"
    and "(github_refresh env p)\<^sup>*\<^sup>* (None, t) (client_built, u)"
  shows "\<exists>c0 ks. contents t p = Some c0
    \<and> contents u p = Some (token_chain (api_token t) ks c0)
    \<and> contains_str (token_chain (api_token t) ks c0) (last (api_token t # ks))
    \<and> (spawned u = Refresh_GitHub p (last (api_token t # ks)) \<and> api_token u = last (api_token t # ks)
       \<or> spawned u = No_Refresh \<and> (\<exists>e. client_build env refresh_client = Inl e) \<and> ks = [] \<and> api_token u = api_token t
       \<or> spawned u = No_Refresh \<and> (\<exists>ks' k. ks = ks' @ [k] \<and> api_token u = last (api_token t # ks')
           \<and> refused_token env p (None, t) (last (api_token t # ks')) k))"
proof -
  from init_cache_github [OF assms(1,2)] obtain c0 where start: "spawned t = Refresh_GitHub p (api_token t)"
    "contents t p = Some c0" "contains_str c0 (api_token t)" by blast
  from github_refresh_run_inv [OF assms(4,3) github_refresh_inv_start [OF start(2,1) refl]]
  obtain ks where "contents u p = Some (token_chain (api_token t) ks c0)"
    "spawned u = Refresh_GitHub p (last (api_token t # ks)) \<and> api_token u = last (api_token t # ks)
     \<or> spawned u = No_Refresh \<and> refresh_ended env p (None, t) (api_token t) ks u"
    unfolding github_refresh_inv_def snd_conv by blast
  with start(2) token_chain_contains [OF start(3)] show ?thesis
    unfolding refresh_ended_def by blast
qed

theorem github_refresh_keeps_token_in_netrc_witness:
  "\<exists>t u c0 ks. init_cache demo_flake GitHubActions ''api'' ''cache'' None (Netrc_File ''/n'')
         (demo_machine [demo_token ''ok'', demo_token ''new'']) = (Ok ''org:project'', t)
     \<and> u = github_refresh_turn demo_flake refresh_client (sleep 120 t)
     \<and> contents u ''/n'' = Some (token_chain (api_token t) ks c0)
     \<and> spawned u = Refresh_GitHub ''/n'' (last (api_token t # ks)) \<and> api_token u = last (api_token t # ks)"
proof -
  obtain t c0 where t: "init_cache demo_flake GitHubActions ''api'' ''cache'' None (Netrc_File ''/n'')
         (demo_machine [demo_token ''ok'', demo_token ''new'']) = (Ok ''org:project'', t)"
    using demo_init by blast
  let ?u = "github_refresh_turn demo_flake refresh_client (sleep 120 t)"
  have "spawned t \<noteq> No_Refresh" using init_cache_github [OF t reports_passwords_demo] by auto
  from github_refresh.start [OF this, of demo_flake "''/n''"]
  have "github_refresh demo_flake ''/n'' (None, t) (Some refresh_client, sleep 120 t)"
    by (simp add: github_refresh_start_def demo_flake_client)
  with github_refresh.turn have "(github_refresh demo_flake ''/n'')\<^sup>*\<^sup>* (None, t) (Some refresh_client, ?u)"
    by (metis r_into_rtranclp rtranclp.rtrancl_into_rtrancl)
  from github_refresh_keeps_token_in_netrc [OF t reports_passwords_demo _ this] obtain c0 ks where
    "contents ?u ''/n'' = Some (token_chain (api_token t) ks c0)"
    "spawned ?u = Refresh_GitHub ''/n'' (last (api_token t # ks)) \<and> api_token ?u = last (api_token t # ks)"
    by (auto simp: tmp_demo refused_token_def demo_flake_client)
  with t show ?thesis by blast
qed

text \<open>
  C32. The task that follows determinate-nixd takes up a renewed token: from a successful \<open>init_cache\<close>
  on, however its half-turns interleave with determinate-nixd replacing, rewriting or removing the file,
  one undisturbed turn makes the client's token that of the file, when the file is readable, the client
  accepts its token, and the file is not one that was put in place under the remembered inode. Such a
  file, rewritten in place or with an inode used again, is not noticed by any number of turns. (Renewals
  while \<open>init_cache\<close> runs are C33.)
\<close>

theorem determinate_turn_takes_up_token:
  assumes "init_cache env e a c fl DeterminateNixd s = (Ok name, t)" and "\<not> is_gitlab_ci e"
    and "(determinate_step env a c)\<^sup>*\<^sup>* (None, False, t) (None, masked, u)"
    and "spawned u = Refresh_Determinate f known" and "files u f = Some node" and "faults u = []"
    and "token_in env a c (content node) = Some k" and "\<And>w. fst (accept_token env k w) = Inr ()"
  shows "(inode node \<noteq> known \<or> \<not> masked \<longrightarrow>
      api_token (determinate_refresh_turn env a c u) = k
      \<and> spawned (determinate_refresh_turn env a c u) = Refresh_Determinate f (inode node))
    \<and> (inode node = known \<longrightarrow> (\<forall>n. api_token ((determinate_refresh_turn env a c ^^ n) u) = api_token u))"
proof -
  have "in_sync env a c u" if "inode node \<noteq> known \<or> \<not> masked"
    using determinate_run_inv [OF assms(3)] init_cache_in_sync [OF assms(1,2)] that assms(4,5)
    by (auto simp: sync_inv_def in_sync_def)
  with undisturbed_turn [OF assms(4) _ assms(6,5,7,8)] remembered_inode_turns [OF assms(4,5)]
  show ?thesis by blast
qed

theorem determinate_turn_takes_up_token_witness:
  "\<exists>t. init_cache demo_flake Other ''api'' ''cache'' None DeterminateNixd
         (demo_machine [demo_token ''ok'']) = (Ok ''org:project'', t)
     \<and> api_token (determinate_refresh_turn demo_flake ''api'' ''cache''
          (t\<lparr>files := (files t)(DETERMINATE_NETRC_PATH \<mapsto> demo_file ''new'' 9)\<rparr>)) = ''new''
     \<and> api_token ((determinate_refresh_turn demo_flake ''api'' ''cache'' ^^ 100)
          (t\<lparr>files := (files t)(DETERMINATE_NETRC_PATH \<mapsto> demo_file ''new'' 2)\<rparr>)) = api_token t"
proof -
  obtain t where t: "init_cache demo_flake Other ''api'' ''cache'' None DeterminateNixd
         (demo_machine [demo_token ''ok'']) = (Ok ''org:project'', t)"
    "spawned t = Refresh_Determinate DETERMINATE_NETRC_PATH 2" "faults t = []"
    using demo_init_determinate by blast
  let ?u = "\<lambda>i. t\<lparr>files := (files t)(DETERMINATE_NETRC_PATH \<mapsto> demo_file ''new'' i)\<rparr>"
  have renewed: "(determinate_step demo_flake ''api'' ''cache'')\<^sup>*\<^sup>* (None, False, t)
      (None, keeps_inode 2 (Some (demo_file ''new'' i)), ?u i)" for i
    by (rule r_into_rtranclp) (rule determinate_step.renew [OF t(2)])
  have "utf8_valid ''new''" by code_simp
  then have tok: "token_in demo_flake ''api'' ''cache'' ''new'' = Some ''new''" by (rule demo_token_in)
  from determinate_turn_takes_up_token [OF t(1) _ renewed [of 9], where f = DETERMINATE_NETRC_PATH and known = 2
      and node = "demo_file ''new'' 9" and k = "''new''"]
    determinate_turn_takes_up_token [OF t(1) _ renewed [of 2], where f = DETERMINATE_NETRC_PATH and known = 2
      and node = "demo_file ''new'' 2" and k = "''new''"] t tok
  show ?thesis by (simp add: demo_file_def)
qed

text \<open>
  C33. A renewal during startup is missed: \<open>init_cache\<close> looks at the inode after it has read the
  token. When determinate-nixd renews the file in between, the client keeps the stale token for any
  number of turns, although the file holds another one, until the file is renewed again.
\<close>

theorem renewal_during_startup_is_missed:
  assumes "start_refresh e DeterminateNixd k s = (Ok task, t)" and "\<not> is_gitlab_ci e" and "api_token s = k"
    and "files s DETERMINATE_NETRC_PATH = Some node" and "token_in env a c (content node) = Some newer"
    and "newer \<noteq> k"
  shows "\<forall>n. api_token ((determinate_refresh_turn env a c ^^ n) (t\<lparr>spawned := task\<rparr>)) = k
    \<and> \<not> in_sync env a c (t\<lparr>spawned := task\<rparr>)"
proof -
  from start_refresh_OkD(1,3) [OF assms(1)] assms(2,4)
  have task: "task = Refresh_Determinate DETERMINATE_NETRC_PATH (inode node)"
    and t: "disk_only s t" by auto
  have files: "files t = files s"
    using assms(1) by (auto simp: start_refresh_def dest: file_inode_run(1) elim!: and_then_cases map_err_comp_cases
        split: if_splits)
  from t assms(3) have "api_token t = k" by (auto dest!: disk_only_quiet simp: quiet_def)
  with files task assms(4-6) show ?thesis
    by (auto simp: remembered_inode_turns [of _ DETERMINATE_NETRC_PATH "inode node" node] in_sync_def)
qed

theorem renewal_during_startup_is_missed_witness:
  "\<exists>task t. start_refresh Other DeterminateNixd ''stale'' ((demo_machine [])\<lparr>api_token := ''stale''\<rparr>) = (Ok task, t)
     \<and> api_token ((determinate_refresh_turn demo_flake ''api'' ''cache'' ^^ 100) (t\<lparr>spawned := task\<rparr>)) = ''stale''"
proof -
  let ?s = "(demo_machine [])\<lparr>api_token := ''stale''\<rparr>"
  obtain task t where run: "start_refresh Other DeterminateNixd ''stale'' ?s = (Ok task, t)"
    by (simp add: start_refresh_def file_inode_def map_err_comp_def and_then_def)
  have "utf8_valid ''old''" by code_simp
  then have "token_in demo_flake ''api'' ''cache'' ''old'' = Some ''old''" by (rule demo_token_in)
  with renewal_during_startup_is_missed [OF run, of "demo_file ''old'' 2" demo_flake "''api''" "''cache''" "''old''"] run
  show ?thesis by (auto simp: demo_file_def)
qed

text \<open>
  C34. The credentials for the cache server are appended to the user's netrc once: on a disk that works,
  reading the file again finds the same credentials and, unless the cache server had an entry, exactly one
  more machine, the cache server with these credentials; and a second append leaves the file alone. Relied
  on: the credentials are words without white space, and the parser reads a new line with the words of a
  machine as one more machine.
\<close>

theorem netrc_entry_is_appended_once:
  assumes "extract_info_from_netrc env p a c s = (Ok info, s1)"
    and "append_cache_entry (Netrc_File p) info s1 = (Ok u, s2)" and "faults s = []"
    and "contents s p = Some c0" and "reads_machines env c0" and "plain_credentials info"
    and "extract_info_from_netrc env p a c s2 = (Ok info', s3)"
  shows "append_cache_entry (Netrc_File p) info' s3 = (Ok (), s3)
    \<and> ni_login info' = ni_login info \<and> ni_password info' = ni_password info
    \<and> ni_machines info' = (if \<exists>m \<in> set (ni_machines info). m_name m = Some (ni_cache_host info) then ni_machines info
        else ni_machines info @ [\<lparr>m_name = Some (ni_cache_host info), m_login = Some (ni_login info),
                                   m_password = Some (ni_password info)\<rparr>])"
  using append_cache_entry_once [OF assms] .

theorem netrc_entry_is_appended_once_witness:
  "\<exists>info info' s2. append_cache_entry (Netrc_File ''/n'') info
        ((demo_machine [])\<lparr>files := [''/n'' \<mapsto> demo_file word_netrc 1]\<rparr>) = (Ok (), s2)
     \<and> contents s2 ''/n'' = Some (word_netrc @ netrc_entry info)
     \<and> append_cache_entry (Netrc_File ''/n'') info' s2 = (Ok (), s2)
     \<and> ni_machines info' = [\<lparr>m_name = Some ''api'', m_login = Some ''l'', m_password = Some ''p''\<rparr>,
          \<lparr>m_name = Some ''cache'', m_login = Some ''l'', m_password = Some ''p''\<rparr>]"
proof -
  let ?api = "\<lparr>m_name = Some ''api'', m_login = Some ''l'', m_password = Some ''p''\<rparr>"
  let ?cache = "\<lparr>m_name = Some ''cache'', m_login = Some ''l'', m_password = Some ''p''\<rparr>"
  let ?info = "\<lparr>ni_machines = [?api], ni_cache_host = ''cache'', ni_login = ''l'', ni_password = ''p''\<rparr>"
  let ?s = "(demo_machine [])\<lparr>files := [''/n'' \<mapsto> demo_file word_netrc 1]\<rparr>"
  let ?s2 = "?s\<lparr>files := [''/n'' \<mapsto> demo_file (word_netrc @ netrc_entry ?info) 1]\<rparr>"
  have utf8: "utf8_valid word_netrc" "utf8_valid (word_netrc @ netrc_entry ?info)" by code_simp+
  have start: "contents ?s ''/n'' = Some word_netrc" "faults ?s = []"
    and later: "contents ?s2 ''/n'' = Some (word_netrc @ netrc_entry ?info)" "faults ?s2 = []"
    by (simp_all add: contents_def demo_file_def)
  have plain: "plain_credentials ?info" by (simp add: plain_credentials_def no_white_def)
  have x: "extract_info_from_netrc word_flake ''/n'' ''api'' ''cache'' ?s = (Ok ?info, ?s)"
    using extract_free [OF start(2,1) utf8(1), of word_flake]
    by (simp add: netrc_info_of_def find_machine_def word_netrc_parsed)
  have y: "append_cache_entry (Netrc_File ''/n'') ?info ?s = (Ok (), ?s2)"
    by (simp add: append_cache_entry_def open_write_def buffered_write_def write_all_def map_err_comp_def and_then_def
        append_bytes_def demo_file_def)
  have "netrc_parse word_flake (word_netrc @ netrc_entry ?info) = Inr [?api, ?cache]"
    using entry_is_read [of word_flake word_netrc ?info] word_reads_machines plain word_netrc_parsed by simp
  then have "\<exists>info'. extract_info_from_netrc word_flake ''/n'' ''api'' ''cache'' ?s2 = (Ok info', ?s2)"
    using extract_free [OF later(2,1) utf8(2), of word_flake "''api''" "''cache''"]
    by (simp add: netrc_info_of_def find_machine_def)
  then obtain info' where x': "extract_info_from_netrc word_flake ''/n'' ''api'' ''cache'' ?s2 = (Ok info', ?s2)" ..
  from netrc_entry_is_appended_once [OF x y start(2,1) word_reads_machines plain x'] y later show ?thesis
    by (intro exI [of _ ?info] exI [of _ info'] exI [of _ ?s2]) simp
qed

section \<open>Starting and ending\<close>

text \<open>
  C35. Startup destroys nothing: a file other than the log, the notification file and the temporary
  hook script keeps its content, with something appended at most, whichever step of startup fails.
\<close>

theorem startup_only_appends:
  assumes "main_startup env a s = (r, t)" and "contents s p = Some c"
    and "debug_logfile env \<noteq> p" and "opt_startup_notification_file a \<noteq> Some p"
    and "\<And>w. fst (temp_name env ''magic-nix-cache-build-hook-'' w) \<noteq> p"
  shows "\<exists>d. contents t p = Some (c @ d)"
  using keepsD [OF main_startup_grows [OF assms(3-5)] assms(1)] assms(2) by (simp add: grows_def)

theorem startup_only_appends_witness:
  "\<exists>d. contents (snd (main_startup demo_host demo_args (demo_machine []))) ''/n'' = Some (''old'' @ d)"
proof -
  obtain r t where run: "main_startup demo_host demo_args (demo_machine []) = (r, t)" by fastforce
  have "debug_logfile demo_host \<noteq> ''/n''" and "opt_startup_notification_file demo_args \<noteq> Some ''/n''"
    by (simp_all add: demo_paths_of_run)
  from startup_only_appends [OF run _ this, of "''old''"] run show ?thesis by auto
qed

text \<open>
  C36. After a successful startup \<open>nix.conf\<close> holds what it held, the fallback line, then the lines
  of the caches that were set up, FlakeHub's first, and the line of the post-build hook exactly when
  there is no determinate-nixd, provided \<open>nix.conf\<close> is none of the other files startup writes.
\<close>

theorem nix_conf_after_startup:
  assumes "main_startup env a s = (Ok l, t)" and "nc = opt_nix_conf a"
    and "debug_logfile env \<noteq> nc" and "opt_startup_notification_file a \<noteq> Some nc"
    and "\<And>w. fst (temp_name env ''magic-nix-cache-build-hook-'' w) \<noteq> nc"
    and "flakehub_api_server_netrc a \<noteq> Some nc"
  shows "\<exists>script. contents t nc =
    Some ((case contents s nc of Some c \<Rightarrow> c | None \<Rightarrow> []) @ fallback_line
          @ (case flakehub_api_server_netrc a of
               Some p \<Rightarrow> if l_flakehub l \<and> l_dnixd l = Missing
                         then flakehub_conf_lines (opt_flakehub_cache_server a) (Netrc_File p) else []
             | None \<Rightarrow> [])
          @ (if gha_api (l_config l) = None then [] else gha_conf_line (l_address l))
          @ (if l_dnixd l = Available then [] else hook_conf_line script))"
  using nix_conf_lines [OF assms(1)] assms(2-) by (simp add: old_text_def flakehub_lines_def)

theorem nix_conf_after_startup_witness:
  "contents (snd (main_startup demo_host demo_args (demo_machine []))) ''/c''
     = Some (fallback_line @ gha_conf_line ''localhost:3000'')"
proof -
  obtain l t where run: "main_startup demo_host demo_args (demo_machine []) = (Ok l, t)"
    and l: "l_dnixd l = Available" "gha_api (l_config l) \<noteq> None" "\<not> l_flakehub l" "l_address l = ''localhost:3000''"
    using demo_startup by blast
  have "''/c'' = opt_nix_conf demo_args" and "debug_logfile demo_host \<noteq> ''/c''"
    and "opt_startup_notification_file demo_args \<noteq> Some ''/c''"
    and "flakehub_api_server_netrc demo_args = None"
    by (simp_all add: demo_paths_of_run)
  from nix_conf_after_startup [OF run this(1-3)] this(4) l run show ?thesis by auto
qed

text \<open>
  C37. The caches a started daemon has: the GitHub cache exactly when it was asked for, or not
  excluded and FlakeHub could not be set up; so, unless it is disabled, there is at least one cache,
  and in GitLab CI never the GitHub cache next to FlakeHub. Its client reports a tripped breaker.
\<close>

theorem started_daemon_has_its_caches:
  assumes "main_startup env a s = (Ok l, t)"
  shows "(gha_api (l_config l) \<noteq> None \<longleftrightarrow>
       (case github_cache_preference (args.truncate a) of
          Enabled \<Rightarrow> True | NoPreference \<Rightarrow> \<not> l_flakehub l | Disabled \<Rightarrow> False))
    \<and> (determine (vars env) = GitLabCI \<longrightarrow> \<not> (l_flakehub l \<and> gha_api (l_config l) \<noteq> None))
    \<and> flagging (l_config l)"
  using startup_config [OF assms] cache_choice [of "args.truncate a" "l_flakehub l"]
  by (cases "github_cache_preference (args.truncate a)") (auto simp: uses_gha_cache_def)

theorem started_daemon_has_its_caches_witness:
  "\<exists>l t. main_startup demo_host demo_args (demo_machine []) = (Ok l, t) \<and> flagging (l_config l)
     \<and> gha_api (l_config l) \<noteq> None"
  using demo_startup started_daemon_has_its_caches by blast

text \<open>
  C38. A run of the daemon sends its telemetry report exactly when it was started: a failed startup
  sends none and is the run's error; after serving, the report is sent to the recorder, its own
  counters as the last facts, and they balance. Relied on of axum: it changes the server only by
  handing it events.
\<close>

theorem run_sends_a_balanced_report:
  assumes "main_cli env a run_server s = (r, report, t)" and "serves_events env run_server"
  shows "case report of
      Some m \<Rightarrow> is_ok (fst (main_startup env a s)) \<and> counts_balanced m
        \<and> (\<exists>earlier. recorder m = Some (earlier @ report_facts m))
    | None \<Rightarrow> \<not> is_ok (fst (main_startup env a s)) \<and> \<not> is_ok r"
  using assms by (rule main_cli_report)

theorem run_sends_a_balanced_report_witness:
  "\<exists>r m t. main_cli demo_host demo_args (\<lambda>cfg s. (Inr (), s)) (demo_machine []) = (r, Some m, t) \<and> counts_balanced m"
proof -
  obtain r rep t where run: "main_cli demo_host demo_args (\<lambda>cfg s. (Inr (), s)) (demo_machine []) = (r, rep, t)"
    by (metis prod_cases3)
  have "is_ok (fst (main_startup demo_host demo_args (demo_machine [])))"
    using demo_startup by fastforce
  with run_sends_a_balanced_report [OF run serves_nothing] run show ?thesis
    by (cases rep) auto
qed

text \<open>
  C39. Run by Nix as its post-build hook, the executable does to the daemon exactly what enqueueing the
  paths does that Nix put into \<open>OUT_PATHS\<close>, separated by spaces: one request reaches the handler through
  the router, the hook succeeds exactly when the handler did, sends no telemetry, and does nothing to
  the disk. Relied on of the network and of JSON: the request arrives, the daemon decodes what was encoded.
\<close>

theorem hook_enqueues_out_paths:
  fixes henv :: "'w server host_env"
  assumes "vars henv ''OUT_PATHS'' = Some (join '' '' ps)" and "\<forall>p \<in> set ps. p \<noteq> [] \<and> no_white p"
    and "delivers henv address (handle_request web env cfg)" and "json_agrees web henv ps"
  shows "\<exists>r. main henv a address run_server s
      = (r, None, s\<lparr>world := snd (post_enqueue_paths env cfg ps (world s))\<rparr>)
    \<and> (is_ok r \<longleftrightarrow> is_ok (fst (post_enqueue_paths env cfg ps (world s))))"
  using hook_reaches_queue [OF assms(3,4,2), of s] assms(1) by (auto simp: main_def)

theorem hook_enqueues_out_paths_witness:
  "\<exists>r t. main (hook_host demo_config [''OUT_PATHS'' \<mapsto> ''/nix/store/aa-x'']) demo_args ''h''
       (\<lambda>cfg s. (Inr (), s)) (bare_machine (demo_state [])) = (r, None, t)
     \<and> is_ok r \<and> channel (world t) = [Upload ''aa-x'']"
proof -
  have white: "\<forall>p \<in> set [''/nix/store/aa-x'']. p \<noteq> [] \<and> no_white p" by (simp add: no_white_def)
  have "vars (hook_host demo_config [''OUT_PATHS'' \<mapsto> ''/nix/store/aa-x'']) ''OUT_PATHS'' = Some (join '' '' [''/nix/store/aa-x''])"
    by (simp add: bare_host_def)
  from hook_enqueues_out_paths [OF this white to_daemon_delivers demo_json_agrees [OF white],
      of demo_args "\<lambda>cfg s. (Inr (), s)" "bare_machine (demo_state [])"]
  show ?thesis by (auto simp: demo_post bare_machine_def)
qed

section \<open>The serializer's values\<close>

text \<open>
  C40. A type system for the serde data model decides what the Nix manifest format can express:
  serializing succeeds exactly on the values that fit, scalars and at most one map or struct around
  them, with options and newtypes transparent.
\<close>

theorem manifest_expresses_what_fits:
  "(\<exists>text. manifest_to_string fe v = Ok text) \<longleftrightarrow> fits False v"
  by (rule manifest_to_string_iff)

end
